(* ===== verification/Prelude.thy ===== *)
theory Prelude
  imports Complex_Main "HOL-Library.Word"
begin

text \<open>
  Shared ground of the development: machine words and their byte encodings, C's
  conversions between \<open>int\<close> and the unsigned types, doubles, the outcome monad in which
  every C function of the repository is written, the counted loops of the sources, and a
  weakest-precondition calculus with one rule per construct.

  A C function that may call \<open>exit()\<close> or run into undefined behaviour is a function from
  the state to an outcome and the state left behind: \<open>Done x\<close> (it returned \<open>x\<close>),
  \<open>Exit c\<close> (the process ended with status \<open>c\<close>), \<open>UB f\<close> (undefined behaviour, with the
  kind of fault) or \<open>No_fuel\<close> (only for the loops that carry fuel).
\<close>

unbundle bit_operations_syntax

named_theorems wp_simps \<open>rules of the weakest-precondition calculus\<close>
named_theorems run_simps \<open>equations that run a program of the outcome monad\<close>
named_theorems keeps_rules \<open>rules for what a program leaves alone\<close>
named_theorems c_consts \<open>the numerical values of the C constants\<close>

type_synonym u8 = "8 word"
type_synonym u16 = "16 word"
type_synonym u32 = "32 word"
type_synonym u64 = "64 word"
type_synonym bytes = "u8 list"

section \<open>Conversions of C\<close>

text \<open>
  An \<open>int\<close> is a HOL integer in the range of 32-bit two's complement; the conversions wrap,
  as gcc defines them on this target.  Comparisons between an \<open>int\<close> and a \<open>size_t\<close> convert
  the \<open>int\<close> to the unsigned 64-bit type first.
\<close>

definition INT_MIN :: int where "INT_MIN = - (2 ^ 31)"
definition INT_MAX :: int where "INT_MAX = 2 ^ 31 - 1"

definition is_i32 :: "int \<Rightarrow> bool" where
  "is_i32 x \<longleftrightarrow> INT_MIN \<le> x \<and> x \<le> INT_MAX"

definition to_i32 :: "int \<Rightarrow> int" where
  "to_i32 x = signed_take_bit 31 x"

definition to_u64 :: "int \<Rightarrow> u64" where
  "to_u64 x = word_of_int x"

definition u64_to_int :: "u64 \<Rightarrow> int" where
  "u64_to_int x = to_i32 (uint x)"

lemma to_i32_id [simp]: "is_i32 x \<Longrightarrow> to_i32 x = x"
  by (auto simp: to_i32_def is_i32_def INT_MIN_def INT_MAX_def intro!: signed_take_bit_int_eq_self)

lemma to_i32_range: "is_i32 (to_i32 x)"
  using signed_take_bit_int_greater_eq_minus_exp [of 31 x] signed_take_bit_int_less_exp [of 31 x]
  by (simp add: to_i32_def is_i32_def INT_MIN_def INT_MAX_def)

lemma uint_to_u64: "0 \<le> x \<Longrightarrow> x < 2 ^ 64 \<Longrightarrow> uint (to_u64 x) = x"
  by (simp add: to_u64_def uint_word_of_int)

lemma to_u64_less_iff:
  "0 \<le> x \<Longrightarrow> x < 2 ^ 64 \<Longrightarrow> 0 \<le> y \<Longrightarrow> y < 2 ^ 64 \<Longrightarrow> to_u64 x < to_u64 y \<longleftrightarrow> x < y"
  by (simp add: word_less_def uint_to_u64)

lemma u64_to_int_to_u64: "is_i32 x \<Longrightarrow> u64_to_int (to_u64 x) = x"
proof -
  assume x: "is_i32 x"
  have "to_i32 (uint (to_u64 x)) = to_i32 x"
    by (simp add: to_i32_def to_u64_def uint_word_of_int_eq signed_take_bit_take_bit)
  with x show ?thesis by (simp add: u64_to_int_def)
qed

lemma is_i32_nat: "int n \<le> INT_MAX \<Longrightarrow> is_i32 (int n)"
  by (simp add: is_i32_def INT_MIN_def)

lemma to_u64_of_nat: "to_u64 (int n) = of_nat n"
  by (simp add: to_u64_def)

lemma of_nat_less_u64:
  "int m < 2 ^ 63 \<Longrightarrow> int n < 2 ^ 63 \<Longrightarrow> (of_nat m :: u64) < of_nat n \<longleftrightarrow> m < n"
  using to_u64_less_iff [of "int m" "int n"] by (simp add: to_u64_of_nat)

lemma uint_to_u64_neg: "- (2 ^ 63) \<le> x \<Longrightarrow> x < 0 \<Longrightarrow> uint (to_u64 x) = x + 2 ^ 64"
proof -
  assume x: "- (2 ^ 63) \<le> x" "x < 0"
  have "uint (to_u64 x) = (x + 2 ^ 64) mod 2 ^ 64" by (simp add: to_u64_def uint_word_of_int)
  also have "\<dots> = x + 2 ^ 64" using x by (intro mod_pos_pos_trivial) simp_all
  finally show ?thesis .
qed

lemma to_u64_less_small:
  assumes "- (2 ^ 63) \<le> x" "x < 2 ^ 63" "0 \<le> m" "m < 2 ^ 63"
  shows "to_u64 x < to_u64 m \<longleftrightarrow> 0 \<le> x \<and> x < m"
proof (cases "0 \<le> x")
  case True
  with assms to_u64_less_iff [of x m] show ?thesis by simp
next
  case False
  have "uint (to_u64 x) = x + 2 ^ 64" using False assms by (intro uint_to_u64_neg) simp_all
  then show ?thesis
    using False assms uint_to_u64 [of m] by (simp add: word_less_def)
qed

text \<open>C's integer division truncates towards zero.\<close>

definition cdiv :: "int \<Rightarrow> int \<Rightarrow> int" where
  "cdiv a b = sgn a * sgn b * (\<bar>a\<bar> div \<bar>b\<bar>)"

definition cmod :: "int \<Rightarrow> int \<Rightarrow> int" where
  "cmod a b = a - cdiv a b * b"

lemma cdiv_nonneg: "0 \<le> a \<Longrightarrow> 0 < b \<Longrightarrow> cdiv a b = a div b"
  by (cases "a = 0") (simp_all add: cdiv_def)

lemma cmod_nonneg: "0 \<le> a \<Longrightarrow> 0 < b \<Longrightarrow> cmod a b = a mod b"
  by (simp add: cmod_def cdiv_nonneg minus_div_mult_eq_mod)

lemma cdiv_bound: "0 < b \<Longrightarrow> \<bar>a - cdiv a b * b\<bar> < b"
proof -
  assume b: "0 < b"
  have m: "0 \<le> \<bar>a\<bar> mod b" "\<bar>a\<bar> mod b < b" using b by simp_all
  have "a - cdiv a b * b = sgn a * (\<bar>a\<bar> - \<bar>a\<bar> div b * b)"
    using b by (cases a "0::int" rule: linorder_cases) (simp_all add: cdiv_def)
  also have "\<dots> = sgn a * (\<bar>a\<bar> mod b)" by (simp add: minus_div_mult_eq_mod)
  finally show ?thesis using m b by (cases a "0::int" rule: linorder_cases) simp_all
qed

section \<open>Bytes\<close>

text \<open>
  The sources run on a little-endian host: a \<open>uint32_t\<close> in memory is its four bytes, least
  significant first, and \<open>htonl\<close> and \<open>ntohl\<close> reverse them.
\<close>

definition le32 :: "u32 \<Rightarrow> bytes" where
  "le32 w = [ucast w, ucast (drop_bit 8 w), ucast (drop_bit 16 w), ucast (drop_bit 24 w)]"

fun un_le32 :: "bytes \<Rightarrow> u32" where
  "un_le32 [a, b, c, d] =
     ucast a OR push_bit 8 (ucast b) OR push_bit 16 (ucast c) OR push_bit 24 (ucast d)"
| "un_le32 _ = 0"

lemma length_le32 [simp]: "length (le32 w) = 4"
  by (simp add: le32_def)

lemma un_le32_le32 [simp]: "un_le32 (le32 w) = w"
proof (rule bit_word_eqI)
  fix n assume "n < LENGTH(32)"
  then have "n < 8 \<or> 8 \<le> n \<and> n < 16 \<or> 16 \<le> n \<and> n < 24 \<or> 24 \<le> n \<and> n < 32" by auto
  then show "bit (un_le32 (le32 w)) n = bit w n"
    by (auto simp: le32_def bit_simps)
qed

lemma length_4E:
  assumes "length xs = 4"
  obtains a b c d where "xs = [a, b, c, d]"
proof -
  from assms obtain a b c d where "xs = [a, b, c, d]"
    by (auto simp: eval_nat_numeral length_Suc_conv)
  then show ?thesis by (rule that)
qed

lemma le32_un_le32 [simp]: "length xs = 4 \<Longrightarrow> le32 (un_le32 xs) = xs"
proof (erule length_4E)
  fix a b c d :: u8 assume xs: "xs = [a, b, c, d]"
  have "ucast (un_le32 xs) = a" "ucast (drop_bit 8 (un_le32 xs)) = b"
       "ucast (drop_bit 16 (un_le32 xs)) = c" "ucast (drop_bit 24 (un_le32 xs)) = d"
    unfolding xs by (rule bit_word_eqI, auto simp: bit_simps dest: bit_imp_le_length)+
  then show ?thesis by (simp add: le32_def xs)
qed

lemma le32_inject [simp]: "le32 v = le32 w \<longleftrightarrow> v = w"
  by (metis un_le32_le32)

definition htonl :: "u32 \<Rightarrow> u32" where
  "htonl w = un_le32 (rev (le32 w))"

definition ntohl :: "u32 \<Rightarrow> u32" where
  "ntohl w = un_le32 (rev (le32 w))"

lemma ntohl_htonl [simp]: "ntohl (htonl w) = w"
  by (simp add: ntohl_def htonl_def)

lemma htonl_inject [simp]: "htonl v = htonl w \<longleftrightarrow> v = w"
  by (metis ntohl_htonl)

definition htons :: "u16 \<Rightarrow> u16" where
  "htons w = push_bit 8 w OR drop_bit 8 w"

lemma htons_htons [simp]: "htons (htons w) = w"
proof (rule bit_word_eqI)
  fix n assume "n < LENGTH(16)"
  then show "bit (htons (htons w)) n = bit w n"
    by (cases "n < 8") (auto simp: htons_def bit_simps dest: bit_imp_le_length)
qed

section \<open>Doubles\<close>

text \<open>
  The values of a \<open>double\<close>: a number, an infinity or not-a-number.  Rounding is not
  modelled: the finite values are exact rationals.
\<close>

datatype double = Fin rat | Inf bool | NaN

fun ddiv :: "double \<Rightarrow> double \<Rightarrow> double" where
  "ddiv (Fin a) (Fin b) =
     (if b = 0 then (if a = 0 then NaN else Inf (0 < a)) else Fin (a / b))"
| "ddiv (Fin a) (Inf _) = Fin 0"
| "ddiv (Inf s) (Fin b) = Inf (s = (0 \<le> b))"
| "ddiv _ _ = NaN"

fun dadd :: "double \<Rightarrow> double \<Rightarrow> double" where
  "dadd (Fin a) (Fin b) = Fin (a + b)"
| "dadd (Inf s) (Fin b) = Inf s"
| "dadd (Fin a) (Inf s) = Inf s"
| "dadd (Inf s) (Inf t) = (if s = t then Inf s else NaN)"
| "dadd _ _ = NaN"

definition double_of_u64 :: "u64 \<Rightarrow> double" where
  "double_of_u64 x = Fin (of_int (uint x))"

definition double_of_i64 :: "u64 \<Rightarrow> double" where
  "double_of_i64 x = Fin (of_int (sint x))"

section \<open>The outcome monad\<close>

datatype fault = Div_by_zero | Out_of_bounds | Signed_overflow | Bad_free | Uninit_read

datatype 'a outcome = Done 'a | Exit int | UB fault | No_fuel

type_synonym ('s, 'a) prog = "'s \<Rightarrow> 'a outcome \<times> 's"

definition ret :: "'a \<Rightarrow> ('s, 'a) prog" where
  "ret x = (\<lambda>s. (Done x, s))"

definition bnd :: "('s, 'a) prog \<Rightarrow> ('a \<Rightarrow> ('s, 'b) prog) \<Rightarrow> ('s, 'b) prog" where
  "bnd m f = (\<lambda>s. case m s of
       (Done x, s') \<Rightarrow> f x s'
     | (Exit c, s') \<Rightarrow> (Exit c, s')
     | (UB e, s') \<Rightarrow> (UB e, s')
     | (No_fuel, s') \<Rightarrow> (No_fuel, s'))"

definition exit_with :: "int \<Rightarrow> ('s, 'a) prog" where
  "exit_with c = (\<lambda>s. (Exit c, s))"

definition ub :: "fault \<Rightarrow> ('s, 'a) prog" where
  "ub e = (\<lambda>s. (UB e, s))"

definition out_of_fuel :: "('s, 'a) prog" where
  "out_of_fuel = (\<lambda>s. (No_fuel, s))"

definition gets :: "('s \<Rightarrow> 'a) \<Rightarrow> ('s, 'a) prog" where
  "gets f = (\<lambda>s. (Done (f s), s))"

definition modify :: "('s \<Rightarrow> 's) \<Rightarrow> ('s, unit) prog" where
  "modify f = (\<lambda>s. (Done (), f s))"

definition when_do :: "bool \<Rightarrow> ('s, unit) prog \<Rightarrow> ('s, unit) prog" where
  "when_do b m = (if b then m else ret ())"

text \<open>Signed arithmetic whose result leaves the range of \<open>int\<close> is undefined.\<close>

definition chk_i32 :: "int \<Rightarrow> ('s, int) prog" where
  "chk_i32 x = (if is_i32 x then ret x else ub Signed_overflow)"

definition is_i64 :: "int \<Rightarrow> bool" where
  "is_i64 x \<longleftrightarrow> - (2 ^ 63) \<le> x \<and> x < 2 ^ 63"

definition chk_i64 :: "int \<Rightarrow> ('s, int) prog" where
  "chk_i64 x = (if is_i64 x then ret x else ub Signed_overflow)"

text \<open>Use of a variable that may not have been written.\<close>

definition initialised :: "'a option \<Rightarrow> ('s, 'a) prog" where
  "initialised x = (case x of None \<Rightarrow> ub Uninit_read | Some v \<Rightarrow> ret v)"

text \<open>\<open>for (i = lo; i < hi; i++)\<close>, with the variables the body changes as an accumulator.\<close>

function for_loop :: "int \<Rightarrow> int \<Rightarrow> (int \<Rightarrow> 'a \<Rightarrow> ('s, 'a) prog) \<Rightarrow> 'a \<Rightarrow> ('s, 'a) prog" where
  "for_loop i n body acc =
     (if i < n then bnd (body i acc) (for_loop (i + 1) n body) else ret acc)"
  by pat_completeness auto
termination
  by (relation "measure (\<lambda>(i, n, body, acc). nat (n - i))") auto

declare for_loop.simps [simp del]

text \<open>The same loop with a \<open>goto out\<close>: the body leaves it by returning \<open>Inl\<close>.\<close>

function for_break ::
  "int \<Rightarrow> int \<Rightarrow> (int \<Rightarrow> 'a \<Rightarrow> ('s, 'b + 'a) prog) \<Rightarrow> 'a \<Rightarrow> ('s, 'b + 'a) prog" where
  "for_break i n body acc =
     (if i < n
      then bnd (body i acc) (\<lambda>x. case x of Inl b \<Rightarrow> ret (Inl b)
                                 | Inr acc' \<Rightarrow> for_break (i + 1) n body acc')
      else ret (Inr acc))"
  by pat_completeness auto
termination
  by (relation "measure (\<lambda>(i, n, body, acc). nat (n - i))") auto

declare for_break.simps [simp del]

lemma ret_run [run_simps, simp]: "ret x s = (Done x, s)" by (simp add: ret_def)
lemma exit_run [run_simps, simp]: "exit_with c s = (Exit c, s)" by (simp add: exit_with_def)
lemma ub_run [run_simps, simp]: "ub e s = (UB e, s)" by (simp add: ub_def)
lemma gets_run [run_simps, simp]: "gets f s = (Done (f s), s)" by (simp add: gets_def)
lemma modify_run [run_simps, simp]: "modify f s = (Done (), f s)" by (simp add: modify_def)
lemma fuel_run [run_simps, simp]: "out_of_fuel s = (No_fuel, s)" by (simp add: out_of_fuel_def)

lemma bnd_run [run_simps]:
  "m s = (Done x, s') \<Longrightarrow> bnd m f s = f x s'"
  "m s = (Exit c, s') \<Longrightarrow> bnd m f s = (Exit c, s')"
  "m s = (UB e, s') \<Longrightarrow> bnd m f s = (UB e, s')"
  "m s = (No_fuel, s') \<Longrightarrow> bnd m f s = (No_fuel, s')"
  by (simp_all add: bnd_def)

lemma bnd_ret [simp]: "bnd (ret x) f = f x" "bnd m ret = m"
  by (auto simp: bnd_def fun_eq_iff split: outcome.splits prod.splits)

lemma bnd_assoc: "bnd (bnd m f) g = bnd m (\<lambda>x. bnd (f x) g)"
  by (auto simp: bnd_def fun_eq_iff split: outcome.splits prod.splits)

lemma bnd_exit [simp]: "bnd (exit_with c) f = exit_with c" "bnd (ub e) f = ub e"
  by (auto simp: bnd_def fun_eq_iff)

lemma bnd_gets [simp]: "bnd (gets g) f s = f (g s) s"
  by (simp add: bnd_def)

lemma bnd_modify [simp]: "bnd (modify g) f s = f () (g s)"
  by (simp add: bnd_def)

section \<open>Weakest preconditions\<close>

text \<open>
  \<open>wp m Q E s\<close>: run from \<open>s\<close>, \<open>m\<close> ends, without undefined behaviour and within its fuel;
  \<open>Q\<close> holds of what it returns and \<open>E\<close> of the status and the state when it exits.
\<close>

definition wp :: "('s, 'a) prog \<Rightarrow> ('a \<Rightarrow> 's \<Rightarrow> bool) \<Rightarrow> (int \<Rightarrow> 's \<Rightarrow> bool) \<Rightarrow> 's \<Rightarrow> bool" where
  "wp m Q E s = (case m s of
       (Done x, s') \<Rightarrow> Q x s'
     | (Exit c, s') \<Rightarrow> E c s'
     | (UB _, _) \<Rightarrow> False
     | (No_fuel, _) \<Rightarrow> False)"

lemma wp_ret [wp_simps]: "wp (ret x) Q E = Q x"
  by (simp add: wp_def fun_eq_iff)

lemma wp_bnd [wp_simps]: "wp (bnd m f) Q E = wp m (\<lambda>x. wp (f x) Q E) E"
  by (auto simp: wp_def bnd_def fun_eq_iff split: outcome.splits prod.splits)

lemma wp_exit [wp_simps]: "wp (exit_with c) Q E = E c"
  by (simp add: wp_def fun_eq_iff)

lemma wp_ub [wp_simps]: "wp (ub e) Q E = (\<lambda>_. False)"
  by (simp add: wp_def fun_eq_iff)

lemma wp_fuel [wp_simps]: "wp out_of_fuel Q E = (\<lambda>_. False)"
  by (simp add: wp_def fun_eq_iff)

lemma wp_gets [wp_simps]: "wp (gets f) Q E = (\<lambda>s. Q (f s) s)"
  by (simp add: wp_def fun_eq_iff)

lemma wp_modify [wp_simps]: "wp (modify f) Q E = (\<lambda>s. Q () (f s))"
  by (simp add: wp_def fun_eq_iff)

lemma wp_if [wp_simps]: "wp (if b then m else n) Q E = (if b then wp m Q E else wp n Q E)"
  by simp

lemma wp_when [wp_simps]: "wp (when_do b m) Q E = (if b then wp m Q E else Q ())"
  by (simp add: when_do_def wp_ret)

lemma wp_chk [wp_simps]: "wp (chk_i32 x) Q E = (\<lambda>s. is_i32 x \<and> Q x s)"
  by (simp add: chk_i32_def wp_ret wp_ub)

lemma wp_chk_i64 [wp_simps]: "wp (chk_i64 x) Q E = (\<lambda>s. is_i64 x \<and> Q x s)"
  by (simp add: chk_i64_def wp_ret wp_ub)

lemma wp_case_prod [wp_simps]:
  "wp (case p of (a, b) \<Rightarrow> f a b) Q E = (case p of (a, b) \<Rightarrow> wp (f a b) Q E)"
  by (simp split: prod.split)

lemma wp_case_sum [wp_simps]:
  "wp (case x of Inl a \<Rightarrow> f a | Inr b \<Rightarrow> g b) Q E
   = (case x of Inl a \<Rightarrow> wp (f a) Q E | Inr b \<Rightarrow> wp (g b) Q E)"
  by (simp split: sum.split)

lemma wp_case_option [wp_simps]:
  "wp (case x of None \<Rightarrow> f | Some b \<Rightarrow> g b) Q E
   = (case x of None \<Rightarrow> wp f Q E | Some b \<Rightarrow> wp (g b) Q E)"
  by (simp split: option.split)

lemma wp_conseq:
  assumes "wp m Q E s"
    and "\<And>x s'. Q x s' \<Longrightarrow> Q' x s'" and "\<And>c s'. E c s' \<Longrightarrow> E' c s'"
  shows "wp m Q' E' s"
  using assms by (auto simp: wp_def split: outcome.splits prod.splits)

lemma wp_conj:
  "wp m Q E s \<Longrightarrow> wp m Q' E' s \<Longrightarrow> wp m (\<lambda>x s. Q x s \<and> Q' x s) (\<lambda>c s. E c s \<and> E' c s) s"
  by (auto simp: wp_def split: outcome.splits prod.splits)

lemma wp_Done: "wp m Q E s \<Longrightarrow> m s = (Done x, s') \<Longrightarrow> Q x s'"
  by (simp add: wp_def)

lemma wp_Exit: "wp m Q E s \<Longrightarrow> m s = (Exit c, s') \<Longrightarrow> E c s'"
  by (simp add: wp_def)

lemma wp_cases:
  assumes "wp m Q E s"
  obtains (Done) x s' where "m s = (Done x, s')" "Q x s'"
        | (Exit) c s' where "m s = (Exit c, s')" "E c s'"
proof (cases "m s")
  case (Pair r s')
  with assms that show ?thesis by (cases r) (auto simp: wp_def)
qed

lemma wp_result:
  "wp m Q E s \<Longrightarrow> m s = (x, s') \<Longrightarrow> (\<exists>y. x = Done y \<and> Q y s') \<or> (\<exists>c. x = Exit c \<and> E c s')"
  by (cases x) (auto simp: wp_def)

text \<open>The invariant rule of the counted loop, and the one of the loop with a way out.\<close>

lemma wp_for_loop:
  assumes init: "I i acc s"
    and step: "\<And>j a t. i \<le> j \<Longrightarrow> j < n \<Longrightarrow> I j a t \<Longrightarrow> wp (body j a) (I (j + 1)) E t"
    and post: "\<And>a t. I (max i n) a t \<Longrightarrow> Q a t"
  shows "wp (for_loop i n body acc) Q E s"
  using assms
proof (induction i n body acc arbitrary: s rule: for_loop.induct)
  case (1 i n body acc)
  show ?case
  proof (cases "i < n")
    case True
    have "wp (body i acc) (I (i + 1)) E s"
      using True "1.prems" by simp
    then have "wp (body i acc) (\<lambda>x. wp (for_loop (i + 1) n body x) Q E) E s"
    proof (rule wp_conseq)
      fix x s' assume "I (i + 1) x s'"
      moreover have "max (i + 1) n = max i n" using True by simp
      ultimately show "wp (for_loop (i + 1) n body x) Q E s'"
        using "1.prems"(2,3) by (intro "1.IH" [OF True]) simp_all
    qed
    then show ?thesis using True by (subst for_loop.simps) (simp add: wp_simps)
  next
    case False
    then have "max i n = i" by simp
    with False "1.prems" show ?thesis by (subst for_loop.simps) (simp add: wp_simps)
  qed
qed

lemma wp_for_break:
  assumes init: "I i acc s"
    and step: "\<And>j a t. i \<le> j \<Longrightarrow> j < n \<Longrightarrow> I j a t \<Longrightarrow>
      wp (body j a) (\<lambda>x t'. case x of Inl b \<Rightarrow> Q (Inl b) t' | Inr a' \<Rightarrow> I (j + 1) a' t') E t"
    and post: "\<And>a t. I (max i n) a t \<Longrightarrow> Q (Inr a) t"
  shows "wp (for_break i n body acc) Q E s"
  using assms
proof (induction i n body acc arbitrary: s rule: for_break.induct)
  case (1 i n body acc)
  show ?case
  proof (cases "i < n")
    case True
    let ?k = "\<lambda>x. case x of Inl b \<Rightarrow> ret (Inl b) | Inr a \<Rightarrow> for_break (i + 1) n body a"
    have "wp (body i acc) (\<lambda>x t'. case x of Inl b \<Rightarrow> Q (Inl b) t' | Inr a' \<Rightarrow> I (i + 1) a' t') E s"
      using True "1.prems" by simp
    then have "wp (body i acc) (\<lambda>x. wp (?k x) Q E) E s"
    proof (rule wp_conseq)
      fix x s' assume x: "case x of Inl b \<Rightarrow> Q (Inl b) s' | Inr a' \<Rightarrow> I (i + 1) a' s'"
      show "wp (?k x) Q E s'"
      proof (cases x)
        case (Inl b)
        with x show ?thesis by (simp add: wp_simps)
      next
        case (Inr a)
        moreover have "max (i + 1) n = max i n" using True by simp
        ultimately show ?thesis
          using x "1.prems"(2,3) by simp (rule "1.IH" [OF True], simp_all)
      qed
    qed
    then show ?thesis using True by (subst for_break.simps) (simp add: wp_simps)
  next
    case False
    then have "max i n = i" by simp
    with False "1.prems" show ?thesis by (subst for_break.simps) (simp add: wp_simps)
  qed
qed

section \<open>Lists\<close>

lemma sum_list_snoc [simp]: "sum_list (xs @ [x]) = sum_list xs + (x :: 'a :: comm_monoid_add)"
  by simp

lemma filter_snoc: "filter P (xs @ [x]) = (if P x then filter P xs @ [x] else filter P xs)"
  by simp

lemma take_drop_append_exact:
  "length xs = n \<Longrightarrow> take n (xs @ ys) = xs" "length xs = n \<Longrightarrow> drop n (xs @ ys) = ys"
  by simp_all

section \<open>Programs that may trap\<close>

text \<open>
  \<open>wpf m Q E F s\<close>: as \<open>wp\<close>, but undefined behaviour is allowed where \<open>F\<close> holds of the fault and
  the state; for the code whose traps a property describes exactly.
\<close>

definition wpf :: "('s, 'a) prog \<Rightarrow> ('a \<Rightarrow> 's \<Rightarrow> bool) \<Rightarrow> (int \<Rightarrow> 's \<Rightarrow> bool)
    \<Rightarrow> (fault \<Rightarrow> 's \<Rightarrow> bool) \<Rightarrow> 's \<Rightarrow> bool" where
  "wpf m Q E F s = (case m s of
       (Done x, s') \<Rightarrow> Q x s'
     | (Exit c, s') \<Rightarrow> E c s'
     | (UB f, s') \<Rightarrow> F f s'
     | (No_fuel, _) \<Rightarrow> False)"

lemma wpf_bnd: "wpf (bnd m f) Q E F s = wpf m (\<lambda>x. wpf (f x) Q E F) E F s"
  by (auto simp: wpf_def bnd_def split: outcome.splits prod.splits)

lemma wpf_wp: "wp m Q E s \<Longrightarrow> wpf m Q E F s"
  by (auto simp: wp_def wpf_def split: outcome.splits prod.splits)

lemma wpf_ub: "wpf (ub f) Q E F s = F f s"
  by (simp add: wpf_def)

lemma wpf_ret: "wpf (ret x) Q E F s = Q x s"
  by (simp add: wpf_def)

lemma wpf_conseq:
  assumes "wpf m Q E F s" and "\<And>x s'. Q x s' \<Longrightarrow> Q' x s'" and "\<And>c s'. E c s' \<Longrightarrow> E' c s'"
    and "\<And>f s'. F f s' \<Longrightarrow> F' f s'"
  shows "wpf m Q' E' F' s"
  using assms by (auto simp: wpf_def split: outcome.splits prod.splits)

lemma wpf_simps:
  "wpf (ret x) Q E F = Q x" "wpf (exit_with c) Q2 E F = E c" "wpf (ub f) Q3 E F = F f"
  "wpf (gets h) Q4 E F = (\<lambda>s. Q4 (h s) s)" "wpf (modify g) Q5 E F = (\<lambda>s. Q5 () (g s))"
  "wpf (if b then m else n) Q6 E F = (if b then wpf m Q6 E F else wpf n Q6 E F)"
  "wpf (when_do b k) Q7 E F = (if b then wpf k Q7 E F else Q7 ())"
  by (auto simp: wpf_def when_do_def fun_eq_iff)

lemma wpf_bind: "wpf (bnd m f) Q E F = wpf m (\<lambda>x. wpf (f x) Q E F) E F"
  by (rule ext) (rule wpf_bnd)

lemma wpf_for_loop:
  assumes init: "I i acc s"
    and step: "\<And>j a t. i \<le> j \<Longrightarrow> j < n \<Longrightarrow> I j a t \<Longrightarrow> wpf (body j a) (I (j + 1)) E F t"
    and post: "\<And>a t. I (max i n) a t \<Longrightarrow> Q a t"
  shows "wpf (for_loop i n body acc) Q E F s"
  using assms
proof (induction i n body acc arbitrary: s rule: for_loop.induct)
  case (1 i n body acc)
  show ?case
  proof (cases "i < n")
    case True
    have "wpf (body i acc) (I (i + 1)) E F s" using True "1.prems" by simp
    then have "wpf (body i acc) (\<lambda>x. wpf (for_loop (i + 1) n body x) Q E F) E F s"
    proof (rule wpf_conseq)
      fix x s' assume "I (i + 1) x s'"
      moreover have "max (i + 1) n = max i n" using True by simp
      ultimately show "wpf (for_loop (i + 1) n body x) Q E F s'"
        using "1.prems"(2,3) by (intro "1.IH" [OF True]) simp_all
    qed
    then show ?thesis using True by (subst for_loop.simps) (simp add: wpf_bind)
  next
    case False
    then have "max i n = i" by simp
    with False "1.prems" show ?thesis by (subst for_loop.simps) (simp add: wpf_ret)
  qed
qed

lemma wpf_result:
  "wpf m Q E F s \<Longrightarrow> m s = (x, s') \<Longrightarrow>
    (\<exists>y. x = Done y \<and> Q y s') \<or> (\<exists>c. x = Exit c \<and> E c s') \<or> (\<exists>f. x = UB f \<and> F f s')"
  by (cases x) (auto simp: wpf_def)

section \<open>What a program leaves alone\<close>

text \<open>Whenever \<open>m\<close> returns, the view \<open>f\<close> of the state is what it was.\<close>

definition keeps :: "('s \<Rightarrow> 'x) \<Rightarrow> ('s, 'a) prog \<Rightarrow> bool" where
  "keeps f m \<longleftrightarrow> (\<forall>s x s'. m s = (Done x, s') \<longrightarrow> f s' = f s)"

lemma bnd_Done: "bnd m f s = (Done x, s') \<longleftrightarrow> (\<exists>y t. m s = (Done y, t) \<and> f y t = (Done x, s'))"
  by (auto simp: bnd_def split: outcome.splits prod.splits)

lemma keepsD: "keeps f m \<Longrightarrow> m s = (Done x, s') \<Longrightarrow> f s' = f s"
  by (simp add: keeps_def)

lemma keeps_bnd [keeps_rules]: "keeps f m \<Longrightarrow> (\<And>x. keeps f (g x)) \<Longrightarrow> keeps f (bnd m g)"
  unfolding keeps_def by (metis bnd_Done)

lemma keeps_basic [keeps_rules]:
  "keeps f (ret x)" "keeps f (exit_with c)" "keeps f (ub e)" "keeps f (gets h)" "keeps f out_of_fuel"
  by (simp_all add: keeps_def)

lemma keeps_Pair [simp]: "keeps f (Pair (Done x))" "keeps f (Pair (Exit c))" "keeps f (Pair (UB e))"
  by (simp_all add: keeps_def)

lemma keeps_modify [keeps_rules]: "(\<And>s. f (h s) = f s) \<Longrightarrow> keeps f (modify h)"
  by (simp add: keeps_def)

lemma keeps_if [keeps_rules]: "keeps f m \<Longrightarrow> keeps f n \<Longrightarrow> keeps f (if b then m else n)"
  by simp

lemma keeps_when [keeps_rules]: "keeps f m \<Longrightarrow> keeps f (when_do b m)"
  by (simp add: when_do_def keeps_basic)

lemma keeps_option [keeps_rules]:
  "keeps f m \<Longrightarrow> (\<And>y. keeps f (g y)) \<Longrightarrow> keeps f (case x of None \<Rightarrow> m | Some y \<Rightarrow> g y)"
  by (simp split: option.split)

lemma keeps_sum [keeps_rules]:
  "(\<And>y. keeps f (g y)) \<Longrightarrow> (\<And>y. keeps f (h y)) \<Longrightarrow> keeps f (case x of Inl y \<Rightarrow> g y | Inr y \<Rightarrow> h y)"
  by (simp split: sum.split)

lemma keeps_list [keeps_rules]:
  "keeps f m \<Longrightarrow> (\<And>y ys. keeps f (g y ys)) \<Longrightarrow> keeps f (case xs of [] \<Rightarrow> m | y # ys \<Rightarrow> g y ys)"
  by (simp split: list.split)

lemma keeps_chk [keeps_rules]: "keeps f (chk_i32 x)" "keeps f (chk_i64 x)"
  by (simp_all add: chk_i32_def chk_i64_def keeps_basic)

end
