(* ===== verification/Kernel.thy ===== *)
theory Kernel
  imports Prelude
begin

text \<open>
  What the programs run on: the process memory, the standard streams, and the operating
  system.  The kernel and the C library's view of it are a parameter of the model: a function
  from a request (the system call with its arguments) and an opaque kernel state to a response
  and the next kernel state.  Every call is recorded, in order, with its response; the theorems
  hold for every kernel unless they name what they need of it.

  Memory is a map from allocated blocks to their bytes.  A read or a write outside a live block
  is the fault \<open>Out_of_bounds\<close>; releasing something that is not a live block is \<open>Bad_free\<close>.
\<close>

section \<open>Constants of the platform (Linux, x86-64)\<close>

abbreviation (input) AF_INET :: int where "AF_INET \<equiv> 2"
abbreviation (input) AF_INET6 :: int where "AF_INET6 \<equiv> 10"
abbreviation (input) SOCK_STREAM :: int where "SOCK_STREAM \<equiv> 1"
abbreviation (input) SOCK_DGRAM :: int where "SOCK_DGRAM \<equiv> 2"
abbreviation (input) IPPROTO_IP :: int where "IPPROTO_IP \<equiv> 0"
abbreviation (input) IPPROTO_TCP :: int where "IPPROTO_TCP \<equiv> 6"
abbreviation (input) IPPROTO_UDP :: int where "IPPROTO_UDP \<equiv> 17"
abbreviation (input) IPPROTO_IPV6 :: int where "IPPROTO_IPV6 \<equiv> 41"
abbreviation (input) IPPROTO_UDPLITE :: int where "IPPROTO_UDPLITE \<equiv> 136"
abbreviation (input) SOL_SOCKET :: int where "SOL_SOCKET \<equiv> 1"
abbreviation (input) SOL_IP :: int where "SOL_IP \<equiv> 0"
abbreviation (input) SO_REUSEADDR :: int where "SO_REUSEADDR \<equiv> 2"
abbreviation (input) SOCK_RAW :: int where "SOCK_RAW \<equiv> 3"
abbreviation (input) SOCK_NONBLOCK :: int where "SOCK_NONBLOCK \<equiv> 0x800"
abbreviation (input) EPOLL_CTL_ADD :: int where "EPOLL_CTL_ADD \<equiv> 1"
abbreviation (input) EPOLLIN :: int where "EPOLLIN \<equiv> 1"
abbreviation (input) EPOLLET :: int where "EPOLLET \<equiv> 0x80000000"
abbreviation (input) EXIT_FAILURE :: int where "EXIT_FAILURE \<equiv> 1"
abbreviation (input) SIGINT :: int where "SIGINT \<equiv> 2"
abbreviation (input) SIGUSR1 :: int where "SIGUSR1 \<equiv> 10"
abbreviation (input) SIGTERM :: int where "SIGTERM \<equiv> 15"
abbreviation (input) IPV6_RECVPKTINFO :: int where "IPV6_RECVPKTINFO \<equiv> 49"
abbreviation (input) IPV6_PKTINFO :: int where "IPV6_PKTINFO \<equiv> 50"
abbreviation (input) IPV6_MTU_DISCOVER :: int where "IPV6_MTU_DISCOVER \<equiv> 23"
abbreviation (input) IP_PMTUDISC_DONT :: int where "IP_PMTUDISC_DONT \<equiv> 0"
abbreviation (input) IP_RECVTOS :: int where "IP_RECVTOS \<equiv> 13"
abbreviation (input) PF_PACKET :: int where "PF_PACKET \<equiv> 17"
abbreviation (input) SOL_PACKET :: int where "SOL_PACKET \<equiv> 263"
abbreviation (input) PACKET_VERSION :: int where "PACKET_VERSION \<equiv> 10"
abbreviation (input) ENOPROTOOPT :: int where "ENOPROTOOPT \<equiv> 92"
abbreviation (input) O_WRONLY :: int where "O_WRONLY \<equiv> 1"
abbreviation (input) SO_RCVTIMEO :: int where "SO_RCVTIMEO \<equiv> 20"
abbreviation (input) IP_TTL :: int where "IP_TTL \<equiv> 2"
abbreviation (input) IP_PKTINFO :: int where "IP_PKTINFO \<equiv> 8"
abbreviation (input) IP_MTU_DISCOVER :: int where "IP_MTU_DISCOVER \<equiv> 10"
abbreviation (input) IP_RECVTTL :: int where "IP_RECVTTL \<equiv> 12"
abbreviation (input) MSG_DONTWAIT :: int where "MSG_DONTWAIT \<equiv> 0x40"
abbreviation (input) MSG_WAITFORONE :: int where "MSG_WAITFORONE \<equiv> 0x10000"
abbreviation (input) EPERM :: int where "EPERM \<equiv> 1"
abbreviation (input) EINTR :: int where "EINTR \<equiv> 4"
abbreviation (input) EAGAIN :: int where "EAGAIN \<equiv> 11"
abbreviation (input) EADDRNOTAVAIL :: int where "EADDRNOTAVAIL \<equiv> 99"
abbreviation (input) ECONNRESET :: int where "ECONNRESET \<equiv> 104"
abbreviation (input) CLOCK_MONOTONIC :: int where "CLOCK_MONOTONIC \<equiv> 1"
abbreviation (input) CLOCK_REALTIME_COARSE :: int where "CLOCK_REALTIME_COARSE \<equiv> 5"
abbreviation (input) SCHED_OTHER :: int where "SCHED_OTHER \<equiv> 0"
abbreviation (input) SCHED_FIFO :: int where "SCHED_FIFO \<equiv> 1"

abbreviation (input) sizeof_sockaddr_in :: int where "sizeof_sockaddr_in \<equiv> 16"
abbreviation (input) sizeof_sockaddr_in6 :: int where "sizeof_sockaddr_in6 \<equiv> 28"
abbreviation (input) sizeof_sockaddr_storage :: int where "sizeof_sockaddr_storage \<equiv> 128"
abbreviation (input) sizeof_msghdr :: u64 where "sizeof_msghdr \<equiv> 56"
abbreviation (input) sizeof_mmsghdr :: u64 where "sizeof_mmsghdr \<equiv> 64"
abbreviation (input) sizeof_iovec :: u64 where "sizeof_iovec \<equiv> 16"
abbreviation (input) sizeof_cmsghdr :: int where "sizeof_cmsghdr \<equiv> 16"
abbreviation (input) sizeof_in_pktinfo :: int where "sizeof_in_pktinfo \<equiv> 12"
abbreviation (input) sizeof_ptr :: int where "sizeof_ptr \<equiv> 8"

section \<open>Data that crosses the system-call boundary\<close>

text \<open>
  A \<open>sockaddr_storage\<close> seen through the two structures the code casts it to: the family and
  the port share their place in both, the IPv4 address (bytes 4 to 7) and the IPv6 address
  (bytes 8 to 23) do not overlap.  Ports are kept in network byte order, as stored.
\<close>

record sockaddr_storage =
  ss_family :: int
  sin_port :: u16
  sin_addr :: bytes
  sin6_addr :: bytes

definition sockaddr_zero :: sockaddr_storage where
  "sockaddr_zero = \<lparr>ss_family = 0, sin_port = 0,
     sin_addr = replicate 4 0, sin6_addr = replicate 16 0\<rparr>"

datatype timespec = TimeSpec (tv_sec: int) (tv_nsec: int)

text \<open>A pointer is a place in a block, or an offset from the null pointer.\<close>

datatype ptr = Null int | Ptr nat int

abbreviation NULL :: ptr where "NULL \<equiv> Null 0"

fun ptr_add :: "ptr \<Rightarrow> int \<Rightarrow> ptr" where
  "ptr_add (Null a) d = Null (a + d)"
| "ptr_add (Ptr b a) d = Ptr b (a + d)"

record iovec =
  iov_base :: ptr
  iov_len :: u64

text \<open>
  Ancillary data: the control messages that \<open>CMSG_FIRSTHDR\<close> and \<open>CMSG_NXTHDR\<close> walk through.
\<close>

record cmsg =
  cmsg_len :: int
  cmsg_level :: int
  cmsg_type :: int
  cmsg_data :: bytes

record msghdr =
  msg_name :: "sockaddr_storage option"
  msg_namelen :: int
  msg_iov :: "iovec list"
  msg_iovlen :: int
  msg_control :: "cmsg list option"
  msg_controllen :: int

definition msghdr_zero :: msghdr where
  "msghdr_zero = \<lparr>msg_name = None, msg_namelen = 0, msg_iov = [], msg_iovlen = 0,
     msg_control = None, msg_controllen = 0\<rparr>"

datatype optval = OptInt int | OptTimeval int int | OptFilter "(int \<times> int \<times> int \<times> int) list"

text \<open>
  The requests.  \<open>r_ret\<close> of the response below is the result as the \<open>int\<close> the callers keep it
  in; a failing call is negative and sets \<open>errno\<close>.  Data the program hands to the kernel is part of the request; the places it
  offers for data coming back are given by their sizes.
\<close>

datatype sysreq =
  Rq_socket int int int
| Rq_connect int sockaddr_storage int
| Rq_bind int sockaddr_storage int
| Rq_listen int int
| Rq_accept int
| Rq_close int
| Rq_setsockopt int int int optval
| Rq_inet_pton int string
| Rq_inet_ntop int bytes
| Rq_malloc u64
| Rq_clock_gettime int
| Rq_clock_nanosleep int timespec
| Rq_sched_setscheduler int int
| Rq_rdtsc
| Rq_fopen string
| Rq_fgets int
| Rq_fclose
| Rq_read int int
| Rq_recv int int int
| Rq_recvfrom int int int
| Rq_recvfrom_name int int int int
| Rq_recvmsg int msghdr int
| Rq_recvmmsg int "msghdr list" int int "timespec option"
| Rq_write int bytes
| Rq_send int bytes int
| Rq_sendto int bytes int sockaddr_storage int
| Rq_sendmsg int sockaddr_storage int bytes int
| Rq_sendmsg_hdr int msghdr bytes int
| Rq_sendmmsg int "(sockaddr_storage \<times> bytes) list" int
| Rq_getpid
| Rq_getuid
| Rq_accept4 int int
| Rq_epoll_create1 int
| Rq_epoll_ctl int int int int int
| Rq_epoll_wait int int int
| Rq_signal int
| Rq_sleep u32
| Rq_pthread_attr_init
| Rq_pthread_create
| Rq_pthread_kill int
| Rq_pthread_join
| Rq_if_nametoindex string
| Rq_ioctl int int string
| Rq_open string int
| Rq_rand

text \<open>One received message, as \<open>recvmsg\<close> and \<open>recvmmsg\<close> hand it over.\<close>

record rxmsg =
  rx_data :: bytes
  rx_len :: u32
  rx_name :: sockaddr_storage
  rx_namelen :: int
  rx_control :: "cmsg list"
  rx_controllen :: int

record sysres =
  r_ret :: int
  r_errno :: int
  r_data :: bytes
  r_text :: "string option"
  r_time :: timespec
  r_tsc :: u64
  r_msgs :: "rxmsg list"
  r_fds :: "int list"

definition sysres_of :: "int \<Rightarrow> int \<Rightarrow> sysres" where
  "sysres_of n e = \<lparr>r_ret = n, r_errno = e, r_data = [], r_text = None,
     r_time = TimeSpec 0 0, r_tsc = 0, r_msgs = [], r_fds = []\<rparr>"

type_synonym 'k kernel = "sysreq \<Rightarrow> 'k \<Rightarrow> sysres \<times> 'k"

text \<open>
  \<open>sendmmsg\<close> and \<open>recvmmsg\<close> take the length of the vector as an \<open>unsigned int\<close> and cap it at
  \<open>UIO_MAXIOV\<close>.
\<close>

definition mmsg_vlen :: "int \<Rightarrow> nat" where
  "mmsg_vlen vlen = min 1024 (unat (word_of_int vlen :: u32))"

text \<open>One row of a \<open>getopt_long\<close> table, and what one call of it hands back.\<close>

record long_opt =
  opt_name :: string
  opt_has_arg :: int
  opt_flag :: "int option"
  opt_val :: int

record optres =
  o_c :: int
  o_arg :: "string option"
  o_longindex :: nat

abbreviation (input) no_argument :: int where "no_argument \<equiv> 0"
abbreviation (input) required_argument :: int where "required_argument \<equiv> 1"
abbreviation (input) optional_argument :: int where "optional_argument \<equiv> 2"

section \<open>The process\<close>

datatype parg = PI int | PS string | PD double

datatype outmsg = Stdout string "parg list" | Stderr string "parg list"

record 'k world =
  kern :: 'k
  errno :: int
  verbose :: int
  heap :: "nat \<rightharpoonup> bytes"
  next_blk :: nat
  trace :: "(sysreq \<times> sysres) list"
  out :: "outmsg list"

type_synonym ('k, 'm, 'a) cprog = "(('k, 'm) world_scheme, 'a) prog"

text \<open>The elementary changes of state.\<close>

definition reply :: "'k kernel \<Rightarrow> sysreq \<Rightarrow> ('k, 'm) world_scheme \<Rightarrow> sysres" where
  "reply K rq w = fst (K rq (kern w))"

definition after_call ::
  "'k kernel \<Rightarrow> sysreq \<Rightarrow> ('k, 'm) world_scheme \<Rightarrow> ('k, 'm) world_scheme" where
  "after_call K rq w =
     w\<lparr>kern := snd (K rq (kern w)),
       errno := (if r_ret (reply K rq w) < 0 then r_errno (reply K rq w) else errno w),
       trace := trace w @ [(rq, reply K rq w)]\<rparr>"

definition say :: "outmsg \<Rightarrow> ('k, 'm) world_scheme \<Rightarrow> ('k, 'm) world_scheme" where
  "say m w = w\<lparr>out := out w @ [m]\<rparr>"

definition set_block ::
  "nat \<Rightarrow> bytes option \<Rightarrow> ('k, 'm) world_scheme \<Rightarrow> ('k, 'm) world_scheme" where
  "set_block b x w = w\<lparr>heap := (heap w)(b := x)\<rparr>"

definition new_block :: "bytes \<Rightarrow> ('k, 'm) world_scheme \<Rightarrow> ('k, 'm) world_scheme" where
  "new_block bs w = w\<lparr>heap := (heap w)(next_blk w \<mapsto> bs), next_blk := Suc (next_blk w)\<rparr>"

definition syscall :: "'k kernel \<Rightarrow> sysreq \<Rightarrow> ('k, 'm, sysres) cprog" where
  "syscall K rq = (\<lambda>w. (Done (reply K rq w), after_call K rq w))"

definition printf :: "string \<Rightarrow> parg list \<Rightarrow> ('k, 'm, unit) cprog" where
  "printf f args = modify (say (Stdout f args))"

definition eprintf :: "string \<Rightarrow> parg list \<Rightarrow> ('k, 'm, unit) cprog" where
  "eprintf f args = modify (say (Stderr f args))"

definition perror :: "string \<Rightarrow> ('k, 'm, unit) cprog" where
  "perror s = bnd (gets errno) (\<lambda>e. eprintf s [PI e])"

text \<open>\<open>malloc\<close>: the kernel decides whether there is memory; a new block holds arbitrary bytes.\<close>

definition fresh_bytes :: "u64 \<Rightarrow> sysres \<Rightarrow> bytes" where
  "fresh_bytes n r = take (unat n) (r_data r @ replicate (unat n) 0)"

definition malloc :: "'k kernel \<Rightarrow> u64 \<Rightarrow> ('k, 'm, ptr) cprog" where
  "malloc K n = bnd (syscall K (Rq_malloc n)) (\<lambda>r.
     if r_ret r = 0 then ret NULL
     else bnd (gets next_blk) (\<lambda>b.
          bnd (modify (new_block (fresh_bytes n r))) (\<lambda>_.
          ret (Ptr b 0))))"

text \<open>
  An array on the stack that nothing has initialised: \<open>bs\<close> is what happens to lie there.
\<close>

definition stack_array :: "nat \<Rightarrow> bytes \<Rightarrow> ('k, 'm, ptr) cprog" where
  "stack_array n bs =
     bnd (gets next_blk) (\<lambda>b.
     bnd (modify (new_block (take n (bs @ replicate n 0)))) (\<lambda>_.
     ret (Ptr b 0)))"

text \<open>\<open>calloc(1, n)\<close>: a block of zeros from the same allocator.\<close>

definition calloc1 :: "'k kernel \<Rightarrow> u64 \<Rightarrow> ('k, 'm, ptr) cprog" where
  "calloc1 K n = bnd (syscall K (Rq_malloc n)) (\<lambda>r.
     if r_ret r = 0 then ret NULL
     else bnd (gets next_blk) (\<lambda>b.
          bnd (modify (new_block (replicate (unat n) 0))) (\<lambda>_.
          ret (Ptr b 0))))"

definition free :: "ptr \<Rightarrow> ('k, 'm, unit) cprog" where
  "free p = (case p of
       Null a \<Rightarrow> if a = 0 then ret () else ub Bad_free
     | Ptr b a \<Rightarrow> bnd (gets heap) (\<lambda>h.
         if a = 0 \<and> h b \<noteq> None then modify (set_block b None) else ub Bad_free))"

definition load :: "ptr \<Rightarrow> int \<Rightarrow> ('k, 'm, bytes) cprog" where
  "load p n = (case p of
       Null a \<Rightarrow> if n = 0 then ret [] else ub Out_of_bounds
     | Ptr b a \<Rightarrow> bnd (gets heap) (\<lambda>h. case h b of
         None \<Rightarrow> ub Out_of_bounds
       | Some bs \<Rightarrow> if 0 \<le> a \<and> 0 \<le> n \<and> a + n \<le> int (length bs)
                    then ret (take (nat n) (drop (nat a) bs)) else ub Out_of_bounds))"

definition overwrite :: "bytes \<Rightarrow> nat \<Rightarrow> bytes \<Rightarrow> bytes" where
  "overwrite bs a xs = take a bs @ xs @ drop (a + length xs) bs"

definition store :: "ptr \<Rightarrow> bytes \<Rightarrow> ('k, 'm, unit) cprog" where
  "store p xs = (case p of
       Null a \<Rightarrow> if xs = [] then ret () else ub Out_of_bounds
     | Ptr b a \<Rightarrow> bnd (gets heap) (\<lambda>h. case h b of
         None \<Rightarrow> ub Out_of_bounds
       | Some bs \<Rightarrow> if 0 \<le> a \<and> a + int (length xs) \<le> int (length bs)
                    then modify (set_block b (Some (overwrite bs (nat a) xs)))
                    else ub Out_of_bounds))"

text \<open>An access that only has to be legal: an element of a typed array inside a block.\<close>

definition touch :: "ptr \<Rightarrow> int \<Rightarrow> ('k, 'm, unit) cprog" where
  "touch p n = bnd (load p n) (\<lambda>_. ret ())"

text \<open>\<open>sendmsg\<close> and \<open>sendmmsg\<close> collect the payload from an I/O vector.\<close>

fun gather :: "iovec list \<Rightarrow> ('k, 'm, bytes) cprog" where
  "gather [] = ret []"
| "gather (v # vs) =
     bnd (load (iov_base v) (uint (iov_len v))) (\<lambda>xs.
     bnd (gather vs) (\<lambda>ys.
     ret (xs @ ys)))"

text \<open>
  \<open>recvmsg\<close> fills the buffers of an I/O vector one after the other.  An address that points to no
  block takes nothing: the kernel reports that in its result and leaves the process alone.
\<close>

fun scatter :: "iovec list \<Rightarrow> bytes \<Rightarrow> ('k, 'm, unit) cprog" where
  "scatter [] xs = ret ()"
| "scatter (v # vs) xs =
     bnd (case iov_base v of
            Null _ \<Rightarrow> ret ()
          | Ptr _ _ \<Rightarrow> store (iov_base v) (take (unat (iov_len v)) xs)) (\<lambda>_.
     scatter vs (drop (unat (iov_len v)) xs))"

definition rxmsg_zero :: rxmsg where
  "rxmsg_zero = \<lparr>rx_data = [], rx_len = 0, rx_name = sockaddr_zero, rx_namelen = 0, rx_control = [],
     rx_controllen = 0\<rparr>"

definition first_msg :: "sysres \<Rightarrow> rxmsg" where
  "first_msg r = (case r_msgs r of [] \<Rightarrow> rxmsg_zero | x # _ \<Rightarrow> x)"

text \<open>The parts of a message header a receiving call writes back.\<close>

definition take_rx :: "msghdr \<Rightarrow> rxmsg \<Rightarrow> msghdr" where
  "take_rx m x = m\<lparr>msg_name := map_option (\<lambda>_. rx_name x) (msg_name m), msg_namelen := rx_namelen x,
     msg_control := map_option (\<lambda>_. rx_control x) (msg_control m), msg_controllen := rx_controllen x\<rparr>"

definition recvmsg :: "'k kernel \<Rightarrow> int \<Rightarrow> msghdr \<Rightarrow> int \<Rightarrow> ('k, 'm, int \<times> msghdr) cprog" where
  "recvmsg K fd m flags =
     bnd (syscall K (Rq_recvmsg fd m flags)) (\<lambda>r.
     if r_ret r < 0 then ret (r_ret r, m)
     else
       bnd (scatter (msg_iov m) (rx_data (first_msg r))) (\<lambda>_.
       ret (r_ret r, take_rx m (first_msg r))))"

text \<open>
  What the programs rely on of \<open>recvmsg\<close>: it returns the number of bytes it delivered, and no more
  than the vector holds.
\<close>

definition keeps_to_buffers :: "'k kernel \<Rightarrow> bool" where
  "keeps_to_buffers K \<longleftrightarrow> (\<forall>fd m flags k. let r = fst (K (Rq_recvmsg fd m flags) k) in
     0 \<le> r_ret r \<longrightarrow> int (length (rx_data (first_msg r))) = r_ret r
        \<and> r_ret r \<le> (\<Sum>v \<leftarrow> msg_iov m. uint (iov_len v)))"

record mmsghdr =
  msg_hdr :: msghdr
  msg_len :: u32

fun receive_all :: "mmsghdr list \<Rightarrow> rxmsg list \<Rightarrow> ('k, 'm, mmsghdr list) cprog" where
  "receive_all (m # ms) (x # xs) =
     bnd (scatter (msg_iov (msg_hdr m)) (rx_data x)) (\<lambda>_.
     bnd (receive_all ms xs) (\<lambda>ms'.
     ret (\<lparr>msg_hdr = take_rx (msg_hdr m) x, msg_len = rx_len x\<rparr> # ms')))"
| "receive_all ms _ = ret ms"

definition recvmmsg ::
  "'k kernel \<Rightarrow> int \<Rightarrow> mmsghdr list \<Rightarrow> int \<Rightarrow> int \<Rightarrow> timespec option \<Rightarrow> ('k, 'm, int \<times> mmsghdr list) cprog" where
  "recvmmsg K fd ms vlen flags ts =
     bnd (syscall K (Rq_recvmmsg fd (map msg_hdr ms) vlen flags ts)) (\<lambda>r.
     if r_ret r < 0 then ret (r_ret r, ms)
     else
       bnd (receive_all ms (take (nat (r_ret r)) (r_msgs r))) (\<lambda>ms'.
       ret (r_ret r, ms')))"

section \<open>Rules\<close>

lemma after_call_fields [simp]:
  "kern (after_call K rq w) = snd (K rq (kern w))"
  "errno (after_call K rq w)
     = (if r_ret (reply K rq w) < 0 then r_errno (reply K rq w) else errno w)"
  "verbose (after_call K rq w) = verbose w"
  "heap (after_call K rq w) = heap w"
  "next_blk (after_call K rq w) = next_blk w"
  "trace (after_call K rq w) = trace w @ [(rq, reply K rq w)]"
  "out (after_call K rq w) = out w"
  by (simp_all add: after_call_def)

lemma say_fields [simp]:
  "kern (say m w) = kern w" "errno (say m w) = errno w" "verbose (say m w) = verbose w"
  "heap (say m w) = heap w" "next_blk (say m w) = next_blk w" "trace (say m w) = trace w"
  "out (say m w) = out w @ [m]"
  by (simp_all add: say_def)

lemma reply_say [simp]: "reply K rq (say m w) = reply K rq w"
  by (simp add: reply_def)

lemma reply_heap [simp]: "reply K rq (set_block b x w) = reply K rq w"
  "reply K rq (new_block bs w) = reply K rq w"
  by (simp_all add: reply_def set_block_def new_block_def)

lemma set_block_fields [simp]:
  "kern (set_block b x w) = kern w" "errno (set_block b x w) = errno w"
  "verbose (set_block b x w) = verbose w" "heap (set_block b x w) = (heap w)(b := x)"
  "next_blk (set_block b x w) = next_blk w" "trace (set_block b x w) = trace w"
  "out (set_block b x w) = out w"
  by (simp_all add: set_block_def)

lemma new_block_fields [simp]:
  "kern (new_block bs w) = kern w" "errno (new_block bs w) = errno w"
  "verbose (new_block bs w) = verbose w" "heap (new_block bs w) = (heap w)(next_blk w \<mapsto> bs)"
  "next_blk (new_block bs w) = Suc (next_blk w)" "trace (new_block bs w) = trace w"
  "out (new_block bs w) = out w"
  by (simp_all add: new_block_def)

lemma length_fresh_bytes [simp]: "length (fresh_bytes n r) = unat n"
  by (simp add: fresh_bytes_def)

lemma wp_syscall [wp_simps]:
  "wp (syscall K rq) Q E = (\<lambda>w. Q (reply K rq w) (after_call K rq w))"
  by (simp add: wp_def syscall_def fun_eq_iff)

lemma wp_printf [wp_simps]: "wp (printf f a) Q E = (\<lambda>w. Q () (say (Stdout f a) w))"
  by (simp add: printf_def wp_simps)

lemma wp_eprintf [wp_simps]: "wp (eprintf f a) Q E = (\<lambda>w. Q () (say (Stderr f a) w))"
  by (simp add: eprintf_def wp_simps)

lemma wp_perror [wp_simps]:
  "wp (perror f) Q E = (\<lambda>w. Q () (say (Stderr f [PI (errno w)]) w))"
  by (simp add: perror_def wp_simps)

lemma wpf_calls:
  "wpf (syscall K rq) Q E F = (\<lambda>w. Q (reply K rq w) (after_call K rq w))"
  "wpf (printf f a) R E F = (\<lambda>w. R () (say (Stdout f a) w))"
  "wpf (eprintf f a) R E F = (\<lambda>w. R () (say (Stderr f a) w))"
  "wpf (perror f) R E F = (\<lambda>w. R () (say (Stderr f [PI (errno w)]) w))"
  by (simp_all add: wpf_def syscall_def printf_def eprintf_def perror_def fun_eq_iff)

lemma wp_malloc [wp_simps]:
  "wp (malloc K n) Q E = (\<lambda>w.
     if r_ret (reply K (Rq_malloc n) w) = 0 then Q NULL (after_call K (Rq_malloc n) w)
     else Q (Ptr (next_blk w) 0)
            (new_block (fresh_bytes n (reply K (Rq_malloc n) w)) (after_call K (Rq_malloc n) w)))"
  by (auto simp: malloc_def wp_simps fun_eq_iff)

lemma wp_calloc1 [wp_simps]:
  "wp (calloc1 K n) Q E = (\<lambda>w.
     if r_ret (reply K (Rq_malloc n) w) = 0 then Q NULL (after_call K (Rq_malloc n) w)
     else Q (Ptr (next_blk w) 0) (new_block (replicate (unat n) 0) (after_call K (Rq_malloc n) w)))"
  by (auto simp: calloc1_def wp_simps fun_eq_iff)

lemma wp_free [wp_simps]:
  "wp (free (Null a)) Q E = (\<lambda>w. a = 0 \<and> Q () w)"
  "wp (free (Ptr b a)) Q E = (\<lambda>w. a = 0 \<and> heap w b \<noteq> None \<and> Q () (set_block b None w))"
  by (auto simp: free_def wp_simps fun_eq_iff)

lemma wp_load [wp_simps]:
  "wp (load (Null a) n) Q E = (\<lambda>w. n = 0 \<and> Q [] w)"
  "wp (load (Ptr b a) n) Q E = (\<lambda>w.
     \<exists>bs. heap w b = Some bs \<and> 0 \<le> a \<and> 0 \<le> n \<and> a + n \<le> int (length bs) \<and>
           Q (take (nat n) (drop (nat a) bs)) w)"
  by (auto simp: load_def wp_simps fun_eq_iff split: option.splits)

lemma wp_store [wp_simps]:
  "wp (store (Null a) xs) Q E = (\<lambda>w. xs = [] \<and> Q () w)"
  "wp (store (Ptr b a) xs) Q E = (\<lambda>w.
     \<exists>bs. heap w b = Some bs \<and> 0 \<le> a \<and> a + int (length xs) \<le> int (length bs) \<and>
           Q () (set_block b (Some (overwrite bs (nat a) xs)) w))"
  by (auto simp: store_def wp_simps fun_eq_iff split: option.splits)

lemma wp_touch [wp_simps]: "wp (touch p n) Q E = wp (load p n) (\<lambda>_. Q ()) E"
  by (simp add: touch_def wp_simps)

lemma wp_stack_array [wp_simps]:
  "wp (stack_array n bs) Q E = (\<lambda>w. Q (Ptr (next_blk w) 0) (new_block (take n (bs @ replicate n 0)) w))"
  by (simp add: stack_array_def wp_simps fun_eq_iff)

text \<open>\<open>recvmsg\<close> into a single buffer at the start of a block.\<close>

lemma wp_recvmsg_one:
  assumes K: "keeps_to_buffers K" and m: "msg_iov m = [\<lparr>iov_base = Ptr b 0, iov_len = n\<rparr>]"
    and h: "heap w b = Some bs" "unat n \<le> length bs"
    and fail: "\<And>r. r = reply K (Rq_recvmsg fd m fl) w \<Longrightarrow> r_ret r < 0 \<Longrightarrow>
      Q (r_ret r, m) (after_call K (Rq_recvmsg fd m fl) w)"
    and succ: "\<And>r. r = reply K (Rq_recvmsg fd m fl) w \<Longrightarrow>
      r_ret r = int (length (rx_data (first_msg r))) \<Longrightarrow> length (rx_data (first_msg r)) \<le> unat n \<Longrightarrow>
      Q (r_ret r, take_rx m (first_msg r))
        (set_block b (Some (overwrite bs 0 (rx_data (first_msg r)))) (after_call K (Rq_recvmsg fd m fl) w))"
  shows "wp (recvmsg K fd m fl) Q E w"
proof (cases "r_ret (reply K (Rq_recvmsg fd m fl) w) < 0")
  case True
  then show ?thesis using fail by (simp add: recvmsg_def wp_simps)
next
  case False
  let ?r = "reply K (Rq_recvmsg fd m fl) w"
  have "int (length (rx_data (first_msg ?r))) = r_ret ?r \<and> r_ret ?r \<le> (\<Sum>v \<leftarrow> msg_iov m. uint (iov_len v))"
    using False K by (simp add: keeps_to_buffers_def reply_def Let_def)
  then have len: "r_ret ?r = int (length (rx_data (first_msg ?r)))" "int (length (rx_data (first_msg ?r))) \<le> int (unat n)"
    unfolding m by simp_all
  then have "length (rx_data (first_msg ?r)) \<le> unat n" by linarith
  with False len(1) h succ [OF refl len(1)] show ?thesis by (simp add: recvmsg_def m wp_simps)
qed

lemma keeps_output [keeps_rules]:
  assumes "\<And>m w. f (say m w) = f w"
  shows "keeps f (printf a b)" "keeps f (eprintf a b)" "keeps f (perror a)"
  using assms by (auto simp: printf_def eprintf_def perror_def keeps_def bnd_Done)

lemma keeps_syscall [keeps_rules]: "(\<And>w. f (after_call K rq w) = f w) \<Longrightarrow> keeps f (syscall K rq)"
  by (simp add: keeps_def syscall_def)

lemma length_overwrite [simp]:
  "a + length xs \<le> length bs \<Longrightarrow> length (overwrite bs a xs) = length bs"
  by (simp add: overwrite_def)

lemma overwrite_all: "length xs = length bs \<Longrightarrow> overwrite bs 0 xs = xs"
  by (simp add: overwrite_def)

lemma overwrite_adjacent:
  "a + length xs + length ys \<le> length bs \<Longrightarrow>
   overwrite (overwrite bs a xs) (a + length xs) ys = overwrite bs a (xs @ ys)"
  by (simp add: overwrite_def ac_simps)

lemma overwrite_Nil [simp]: "overwrite bs a [] = bs"
  by (simp add: overwrite_def)

lemma set_block_same: "heap w b = x \<Longrightarrow> set_block b x w = w"
  by (auto simp: set_block_def fun_upd_idem)

lemma set_block_twice [simp]: "set_block b x (set_block b y w) = set_block b x w"
  by (simp add: set_block_def)

text \<open>Blocks that were not handed out yet are not in use.\<close>

definition wf_heap :: "('k, 'm) world_scheme \<Rightarrow> bool" where
  "wf_heap w \<longleftrightarrow> (\<forall>b \<ge> next_blk w. heap w b = None)"

lemma wf_heap_fresh: "wf_heap w \<Longrightarrow> heap w (next_blk w) = None"
  by (simp add: wf_heap_def)

text \<open>The events a program added to the trace of a state.\<close>

definition new_events ::
  "('k, 'm) world_scheme \<Rightarrow> ('k, 'm) world_scheme \<Rightarrow> (sysreq \<times> sysres) list" where
  "new_events w w' = drop (length (trace w)) (trace w')"

lemma new_events_snoc [simp]:
  "trace w' = trace w @ es \<Longrightarrow> new_events w w' = es"
  by (simp add: new_events_def)

text \<open>
  A process at its start, and a kernel that answers with a list of prepared responses and with
  success once they are used up.
\<close>

definition boot :: "'k \<Rightarrow> 'k world" where
  "boot k = \<lparr>kern = k, errno = 0, verbose = 0, heap = Map.empty, next_blk = 0, trace = [], out = []\<rparr>"

lemma boot_fields [simp]:
  "kern (boot k) = k" "errno (boot k) = 0" "verbose (boot k) = 0" "heap (boot k) = Map.empty"
  "next_blk (boot k) = 0" "trace (boot k) = []" "out (boot k) = []"
  by (simp_all add: boot_def)

fun scripted :: "sysres list kernel" where
  "scripted rq [] = (sysres_of 0 0, [])"
| "scripted rq (r # rs) = (r, rs)"

section \<open>The clock's times are ordered\<close>

instantiation timespec :: linorder
begin

definition less_eq_timespec :: "timespec \<Rightarrow> timespec \<Rightarrow> bool" where
  "less_eq_timespec s t \<longleftrightarrow> tv_sec s < tv_sec t \<or> (tv_sec s = tv_sec t \<and> tv_nsec s \<le> tv_nsec t)"

definition less_timespec :: "timespec \<Rightarrow> timespec \<Rightarrow> bool" where
  "less_timespec s t \<longleftrightarrow> tv_sec s < tv_sec t \<or> (tv_sec s = tv_sec t \<and> tv_nsec s < tv_nsec t)"

instance
  by standard (auto simp: less_eq_timespec_def less_timespec_def timespec.expand)

end

definition ts_ns :: "timespec \<Rightarrow> int" where
  "ts_ns t = tv_sec t * 1000000000 + tv_nsec t"

definition ts_normal :: "timespec \<Rightarrow> bool" where
  "ts_normal t \<longleftrightarrow> 0 \<le> tv_nsec t \<and> tv_nsec t < 1000000000"

lemma ts_le_iff_ns: "ts_normal s \<Longrightarrow> ts_normal t \<Longrightarrow> s \<le> t \<longleftrightarrow> ts_ns s \<le> ts_ns t"
  by (auto simp: less_eq_timespec_def ts_normal_def ts_ns_def)

end
