(* ===== verification/Common.thy ===== *)
theory Common
  imports Kernel
begin

text \<open>
  \<open>src/src/global.h\<close>, \<open>src/src/common.h\<close> and \<open>src/src/common.c\<close>: the exit codes, the pktgen
  header, the benchmark record with its measurement and its statistics, and the helpers every
  tool shares.
\<close>

section \<open>global.h\<close>

definition EXIT_OK :: int where [c_consts]: "EXIT_OK = 0"
definition EXIT_FAIL_MEM :: int where [c_consts]: "EXIT_FAIL_MEM = 1"
definition EXIT_FAIL_OPTION :: int where [c_consts]: "EXIT_FAIL_OPTION = 2"
definition EXIT_FAIL_TIME :: int where [c_consts]: "EXIT_FAIL_TIME = 3"
definition EXIT_FAIL_SOCK :: int where [c_consts]: "EXIT_FAIL_SOCK = 100"
definition EXIT_FAIL_SOCKOPT :: int where [c_consts]: "EXIT_FAIL_SOCKOPT = 101"
definition EXIT_FAIL_IP :: int where [c_consts]: "EXIT_FAIL_IP = 102"
definition EXIT_FAIL_SEND :: int where [c_consts]: "EXIT_FAIL_SEND = 103"
definition EXIT_FAIL_RECV :: int where [c_consts]: "EXIT_FAIL_RECV = 104"
definition EXIT_FAIL_REUSEPORT :: int where [c_consts]: "EXIT_FAIL_REUSEPORT = 105"
definition EXIT_FAIL_FILEACCESS :: int where [c_consts]: "EXIT_FAIL_FILEACCESS = 106"
definition EXIT_FAIL_PTHREAD :: int where [c_consts]: "EXIT_FAIL_PTHREAD = 107"

definition NANOSEC_PER_SEC :: int where [c_consts]: "NANOSEC_PER_SEC = 1000000000"

section \<open>common.h\<close>

definition PKTGEN_MAGIC :: u32 where [c_consts]: "PKTGEN_MAGIC = 0xbe9be955"

record pktgen_hdr =
  pgh_magic :: u32
  seq_num :: u32
  tv_sec32 :: u32
  tv_usec32 :: u32

text \<open>The structure in memory: four \<open>uint32_t\<close> without padding.\<close>

definition hdr_bytes :: "pktgen_hdr \<Rightarrow> bytes" where
  "hdr_bytes h = le32 (pgh_magic h) @ le32 (seq_num h) @ le32 (tv_sec32 h) @ le32 (tv_usec32 h)"

definition hdr_of :: "bytes \<Rightarrow> pktgen_hdr" where
  "hdr_of bs = \<lparr>pgh_magic = un_le32 (take 4 bs), seq_num = un_le32 (take 4 (drop 4 bs)),
     tv_sec32 = un_le32 (take 4 (drop 8 bs)), tv_usec32 = un_le32 (take 4 (drop 12 bs))\<rparr>"

definition hdr_zero :: pktgen_hdr where
  "hdr_zero = \<lparr>pgh_magic = 0, seq_num = 0, tv_sec32 = 0, tv_usec32 = 0\<rparr>"

abbreviation (input) sizeof_pktgen_hdr :: int where "sizeof_pktgen_hdr \<equiv> 16"

record time_bench_record =
  packets :: u64
  bytes_cnt :: u64
  tsc_start :: u64
  tsc_stop :: u64
  time_start :: u64
  time_stop :: u64
  try_again :: u64
  tsc_interval :: u64
  time_interval :: u64
  tsc_cycles :: u64
  payload_pktsz :: u64
  pps :: double
  ns_per_pkt :: double
  timesec :: double
  ip_early_demux :: int

definition time_bench_zero :: time_bench_record where
  "time_bench_zero = \<lparr>packets = 0, bytes_cnt = 0, tsc_start = 0, tsc_stop = 0, time_start = 0,
     time_stop = 0, try_again = 0, tsc_interval = 0, time_interval = 0, tsc_cycles = 0,
     payload_pktsz = 0, pps = Fin 0, ns_per_pkt = Fin 0, timesec = Fin 0, ip_early_demux = 0\<rparr>"

record params_common =
  connect :: int

definition rdtsc :: "'k kernel \<Rightarrow> ('k, 'm, u64) cprog" where
  "rdtsc K = bnd (syscall K Rq_rdtsc) (\<lambda>r. ret (r_tsc r))"

text \<open>
  What the tools rely on of a header's encoding, and what follows for a buffer filled with
  copies of one header.
\<close>

locale header_codec =
  fixes enc :: "'h \<Rightarrow> bytes" and dec :: "bytes \<Rightarrow> 'h" and width :: nat
  assumes width_pos: "0 < width"
    and enc_length: "length (enc h) = width"
    and dec_enc: "dec (enc h) = h"
    and enc_dec: "length bs = width \<Longrightarrow> enc (dec bs) = bs"
begin

definition fill :: "'h \<Rightarrow> nat \<Rightarrow> bytes" where
  "fill h n = take n (concat (replicate (Suc (n div width)) (enc h)))"

lemma enc_inject: "enc g = enc h \<longleftrightarrow> g = h"
  by (metis dec_enc)

lemma dec_inject: "length bs = width \<Longrightarrow> length cs = width \<Longrightarrow> dec bs = dec cs \<longleftrightarrow> bs = cs"
  by (metis enc_dec)

lemma length_copies: "length (concat (replicate m (enc h))) = m * width"
  by (induction m) (simp_all add: enc_length)

lemma length_fill: "length (fill h n) = n"
proof -
  have "n < Suc (n div width) * width"
    using width_pos by (simp add: dividend_less_div_times)
  then have "n \<le> Suc (n div width) * width" by (rule less_imp_le)
  then show ?thesis by (simp only: fill_def length_take length_copies min_absorb2)
qed

lemma copies_chunk:
  "k < m \<Longrightarrow> take width (drop (k * width) (concat (replicate m (enc h)))) = enc h"
proof -
  assume "k < m"
  then have "m = k + Suc (m - Suc k)" by simp
  then have "concat (replicate m (enc h))
      = concat (replicate k (enc h)) @ enc h @ concat (replicate (m - Suc k) (enc h))"
    by (metis concat.simps(2) concat_append replicate_Suc replicate_add)
  then show ?thesis by (simp add: length_copies enc_length)
qed

lemma fill_chunk:
  assumes "k * width + width \<le> n"
  shows "take width (drop (k * width) (fill h n)) = enc h"
proof -
  have "(k + 1) * width \<le> n" using assms by simp
  then have "k + 1 \<le> n div width"
    using width_pos by (simp add: less_eq_div_iff_mult_less_eq)
  then have "k < Suc (n div width)" by simp
  moreover have "take width (drop (k * width) (fill h n))
      = take width (drop (k * width) (concat (replicate (Suc (n div width)) (enc h))))"
    using assms by (simp add: fill_def drop_take min_absorb1 del: replicate.simps)
  ultimately show ?thesis by (simp only: copies_chunk)
qed

lemma fill_tail:
  assumes "k * width \<le> n" "n < k * width + width"
  shows "drop (k * width) (fill h n) = take (n - k * width) (enc h)"
proof -
  have k: "n div width = k"
    using assms width_pos by (intro div_nat_eqI) (simp_all add: mult.commute)
  have "concat (replicate (Suc k) (enc h)) = concat (replicate k (enc h) @ [enc h])"
    by (simp add: replicate_append_same)
  then have "fill h n = take n (concat (replicate k (enc h)) @ enc h)"
    unfolding fill_def k by simp
  then show ?thesis using assms(1) by (simp add: drop_take length_copies)
qed

lemma fill_Suc_chunk:
  assumes "k * width + width \<le> n"
  shows "drop (k * width) (fill h n) = enc h @ drop (k * width + width) (fill h n)"
  using fill_chunk [OF assms, of h] append_take_drop_id [of width "drop (k * width) (fill h n)"]
  by (simp add: add.commute)

lemma fill_decode: "k * width + width \<le> n \<Longrightarrow> dec (take width (drop (k * width) (fill h n))) = h"
  by (simp add: fill_chunk dec_enc)

end

lemma length_hdr_bytes [simp]: "length (hdr_bytes h) = 16"
  by (simp add: hdr_bytes_def)

interpretation pgh: header_codec hdr_bytes hdr_of 16
proof
  fix bs :: bytes assume l: "length bs = 16"
  have "bs = take 4 bs @ take 4 (drop 4 bs) @ take 4 (drop 8 bs) @ take 4 (drop 12 bs)"
  proof -
    have "bs = take 4 bs @ drop 4 bs" by simp
    also have "drop 4 bs = take 4 (drop 4 bs) @ drop 8 bs"
      by (metis append_take_drop_id drop_drop numeral_Bit0 semiring_norm(2))
    also have "drop 8 bs = take 4 (drop 8 bs) @ drop 12 bs"
      using append_take_drop_id [of 4 "drop 8 bs"] by simp
    also have "drop 12 bs = take 4 (drop 12 bs)" using l by simp
    finally show ?thesis .
  qed
  with l show "hdr_bytes (hdr_of bs) = bs" by (simp add: hdr_bytes_def hdr_of_def)
qed (simp_all add: hdr_bytes_def hdr_of_def)

section \<open>common.c\<close>

text \<open>\<open>(uint64_t) t.tv_sec * NANOSEC_PER_SEC + t.tv_nsec\<close>, in 64-bit arithmetic.\<close>

definition gettime :: "'k kernel \<Rightarrow> ('k, 'm, u64) cprog" where
  "gettime K = bnd (syscall K (Rq_clock_gettime CLOCK_MONOTONIC)) (\<lambda>res.
     if r_ret res < 0 then
       bnd (eprintf ''error with gettimeofday! (%i)'' [PI (r_ret res)]) (\<lambda>_.
       exit_with EXIT_FAIL_TIME)
     else ret (to_u64 (tv_sec (r_time res)) * to_u64 NANOSEC_PER_SEC
               + to_u64 (tv_nsec (r_time res))))"

definition time_bench_start ::
  "'k kernel \<Rightarrow> time_bench_record \<Rightarrow> ('k, 'm, time_bench_record) cprog" where
  "time_bench_start K r =
     bnd (gettime K) (\<lambda>t.
     bnd (rdtsc K) (\<lambda>c.
     ret (r\<lparr>time_start := t, tsc_start := c\<rparr>)))"

definition time_bench_stop ::
  "'k kernel \<Rightarrow> time_bench_record \<Rightarrow> ('k, 'm, time_bench_record) cprog" where
  "time_bench_stop K r =
     bnd (rdtsc K) (\<lambda>c.
     bnd (gettime K) (\<lambda>t.
     ret (r\<lparr>tsc_stop := c, time_stop := t\<rparr>)))"

text \<open>
  The quotients of the statistics: the three doubles follow IEEE division, the two integer
  divisions by \<open>packets\<close> trap when it is zero.  \<open>packets\<close> is an \<open>int64_t\<close>, converted to
  unsigned by the integer divisions and to a signed double by the others.
\<close>

definition time_bench_calc_stats ::
  "time_bench_record \<Rightarrow> ('k, 'm, time_bench_record) cprog" where
  "time_bench_calc_stats r0 =
     (let r1 = r0\<lparr>tsc_interval := tsc_stop r0 - tsc_start r0,
                  time_interval := time_stop r0 - time_start r0\<rparr>;
          ti = double_of_u64 (time_interval r1);
          pk = double_of_i64 (packets r1);
          ns = Fin (of_int NANOSEC_PER_SEC);
          r2 = r1\<lparr>pps := ddiv pk (ddiv ti ns)\<rparr>
      in if packets r2 = 0 then ub Div_by_zero
         else ret (r2\<lparr>tsc_cycles := tsc_interval r2 div packets r2,
                      ns_per_pkt := ddiv ti pk,
                      timesec := ddiv ti ns,
                      payload_pktsz := bytes_cnt r2 div packets r2\<rparr>))"

definition malloc_payload_buffer :: "'k kernel \<Rightarrow> int \<Rightarrow> ('k, 'm, ptr) cprog" where
  "malloc_payload_buffer K msg_sz =
     bnd (malloc K (to_u64 msg_sz)) (\<lambda>msg_buf.
     if msg_buf = NULL then
       bnd (eprintf ''ERROR: %s() failed in malloc() (caller: 0x%p)''
              [PS ''malloc_payload_buffer'']) (\<lambda>_.
       exit_with EXIT_FAIL_MEM)
     else
       bnd (store msg_buf (replicate (unat (to_u64 msg_sz)) 0)) (\<lambda>_.
       bnd (gets verbose) (\<lambda>v.
       bnd (when_do (3 \<le> v) (eprintf '' - malloc(msg_buf) = %d bytes'' [PI msg_sz])) (\<lambda>_.
       ret msg_buf))))"

text \<open>
  \<open>time_func\<close>: the function under test is a parameter that returns its loop count and the
  four markers it wrote through its pointers.
\<close>

definition time_func ::
  "int \<Rightarrow> (int \<Rightarrow> ('k, 'm, int \<times> u64 \<times> u64 \<times> u64 \<times> u64) cprog) \<Rightarrow> ('k, 'm, int) cprog" where
  "time_func loops func =
     bnd (func loops) (\<lambda>(loops_cnt, tsc_begin, tsc_end, time_begin, time_end).
       let tsc_iv = tsc_end - tsc_begin;
           time_iv = time_end - time_begin;
           ti = double_of_u64 time_iv;
           lc = Fin (of_int loops_cnt);
           ns = Fin (of_int NANOSEC_PER_SEC)
       in
       bnd (when_do (loops \<noteq> loops_cnt)
              (printf '' WARNING: Loop count(%d) not equal to loops(%d)''
                 [PI loops_cnt, PI loops])) (\<lambda>_.
       if loops_cnt = 0 then ub Div_by_zero
       else
       bnd (printf '' Per call: %lu cycles(tsc) %.2f ns - %.2f calls per sec (measurement periode time:%.2f sec) - (loop count:%d tsc_interval:%lu)''
              [PI (uint (tsc_iv div to_u64 loops_cnt)), PD (ddiv ti lc), PD (ddiv lc (ddiv ti ns)),
               PD (ddiv ti ns), PI loops_cnt, PI (uint tsc_iv)]) (\<lambda>_.
       ret 0)))"

text \<open>
  The conversion \<open>sscanf(buf, "%u", \<dots>)\<close>: -1 at the end of the input, 0 when there is no
  number, 1 with the number's low 32 bits otherwise.
\<close>

definition is_space :: "char \<Rightarrow> bool" where
  "is_space c \<longleftrightarrow> of_char c = (32::nat) \<or> (9 \<le> (of_char c :: nat) \<and> (of_char c :: nat) \<le> 13)"

definition is_digit :: "char \<Rightarrow> bool" where
  "is_digit c \<longleftrightarrow> 48 \<le> (of_char c :: nat) \<and> (of_char c :: nat) \<le> 57"

fun digits_val :: "int \<Rightarrow> string \<Rightarrow> int" where
  "digits_val n [] = n"
| "digits_val n (c # cs) =
     (if is_digit c then digits_val (n * 10 + int (of_char c - 48)) cs else n)"

definition split_sign :: "string \<Rightarrow> int \<times> string" where
  "split_sign s = (case s of
       [] \<Rightarrow> (1, [])
     | c # cs \<Rightarrow> if c = CHR ''-'' then (- 1, cs) else if c = CHR ''+'' then (1, cs) else (1, s))"

definition sscanf_u :: "string \<Rightarrow> int \<times> int" where
  "sscanf_u buf =
     (case dropWhile is_space buf of
        [] \<Rightarrow> (- 1, 0)
      | c # cs \<Rightarrow> (let (sg, ds) = split_sign (c # cs) in
          case ds of
            [] \<Rightarrow> (0, 0)
          | d # _ \<Rightarrow> if is_digit d then (1, to_i32 (sg * digits_val 0 ds)) else (0, 0)))"

text \<open>\<open>atoi\<close>, the library function the option parsers use.\<close>

definition atoi :: "string \<Rightarrow> int" where
  "atoi s = (let (sg, ds) = split_sign (dropWhile is_space s);
                 n = sg * digits_val 0 ds
             in to_i32 (max (- (2 ^ 63)) (min (2 ^ 63 - 1) n)))"

definition read_ip_early_demux :: "'k kernel \<Rightarrow> ('k, 'm, int) cprog" where
  "read_ip_early_demux K =
     bnd (syscall K (Rq_fopen ''/proc/sys/net/ipv4/ip_early_demux'')) (\<lambda>file.
     if r_ret file < 0 then
       bnd (gets errno) (\<lambda>e.
       bnd (eprintf ''WARN: cannot read ip_early_demux errno(%d) '' [PI e]) (\<lambda>_.
       bnd (perror ''- fopen'') (\<lambda>_.
       ret 0)))
     else
       bnd (syscall K (Rq_fgets 20)) (\<lambda>line.
       case r_text line of
         None \<Rightarrow>
           bnd (perror ''fgets'') (\<lambda>_.
           bnd (syscall K Rq_fclose) (\<lambda>_.
           exit_with EXIT_FAIL_FILEACCESS))
       | Some buf \<Rightarrow>
           (let (res, value) = sscanf_u (take 19 buf) in
            if res \<noteq> 1 then
              bnd (gets errno) (\<lambda>e.
              bnd (eprintf ''ERROR: cannot parse ip_early_demux errno(%d) '' [PI e]) (\<lambda>_.
              bnd (when_do (res = - 1) (perror ''sscanf'')) (\<lambda>_.
              bnd (syscall K Rq_fclose) (\<lambda>_.
              exit_with EXIT_FAIL_FILEACCESS))))
            else
              bnd (syscall K Rq_fclose) (\<lambda>_.
              ret value))))"

definition time_bench_record_setting ::
  "'k kernel \<Rightarrow> time_bench_record \<Rightarrow> ('k, 'm, time_bench_record) cprog" where
  "time_bench_record_setting K r =
     bnd (read_ip_early_demux K) (\<lambda>v.
     ret (time_bench_zero\<lparr>ip_early_demux := v\<rparr>))"

definition time_bench_print_stats ::
  "time_bench_record \<Rightarrow> params_common \<Rightarrow> ('k, 'm, unit) cprog" where
  "time_bench_print_stats r c =
     bnd (gets verbose) (\<lambda>v.
     if v \<noteq> 0 then
       printf '' - Per packet: %lu cycles(tsc) %.2f ns, %.2f pps (time:%.2f sec) (packet count:%ld payload pkt-size:%lu)''
         [PI (uint (tsc_cycles r)), PD (ns_per_pkt r), PD (pps r), PD (timesec r),
          PI (sint (packets r)), PI (uint (payload_pktsz r))]
     else
       bnd (printf ''%8lu %.2f %.2f %lu %lu ''
              [PI (uint (packets r)), PD (ns_per_pkt r), PD (pps r), PI (uint (tsc_cycles r)),
               PI (uint (payload_pktsz r))]) (\<lambda>_.
       bnd (when_do (ip_early_demux r \<noteq> 0) (printf '' demux:%d'' [PI (ip_early_demux r)])) (\<lambda>_.
       bnd (when_do (connect c \<noteq> 0) (printf '' c:%d'' [PI (connect c)])) (\<lambda>_.
       bnd (when_do (try_again r \<noteq> 0) (printf '' emptyq:%lu'' [PI (uint (try_again r))])) (\<lambda>_.
       printf '''' [])))))"

definition print_header :: "string \<Rightarrow> int \<Rightarrow> ('k, 'm, unit) cprog" where
  "print_header fct batch =
     bnd (gets verbose) (\<lambda>v.
     if v \<noteq> 0 \<and> batch \<noteq> 0 then printf ''Performance of: %s, batch size: %d'' [PS fct, PI batch]
     else if v \<noteq> 0 then printf ''Performance of: %s'' [PS fct]
     else if batch \<noteq> 0 then printf ''%s/%-4d '' [PS fct, PI batch]
     else printf ''%-10s '' [PS fct])"

section \<open>Option tables\<close>

text \<open>
  The listing every \<open>usage\<close> function prints: each row of the table with the value of its flag or
  its short option.  \<open>fmt\<close> is the tool's format of the name.
\<close>

fun list_options :: "string \<Rightarrow> long_opt list \<Rightarrow> ('k, 'm, unit) cprog" where
  "list_options fmt [] = ret ()"
| "list_options fmt (o1 # os) =
     bnd (printf fmt [PS (opt_name o1)]) (\<lambda>_.
     bnd (case opt_flag o1 of
            Some v \<Rightarrow> printf '' flag (internal value:%d)'' [PI v]
          | None \<Rightarrow> printf '' short-option: -%c'' [PI (opt_val o1)]) (\<lambda>_.
     bnd (printf '''' []) (\<lambda>_.
     list_options fmt os)))"

text \<open>An option's argument where the code hands \<open>optarg\<close> to \<open>atoi\<close> as it is.\<close>

definition atoi_arg :: "string option \<Rightarrow> ('s, int) prog" where
  "atoi_arg a = (case a of None \<Rightarrow> ub Out_of_bounds | Some s \<Rightarrow> ret (atoi s))"

definition set_verbose :: "string option \<Rightarrow> ('k, 'm, unit) cprog" where
  "set_verbose a =
     modify (\<lambda>w. w\<lparr>verbose := (case a of None \<Rightarrow> 1 | Some s \<Rightarrow> atoi s)\<rparr>)"

abbreviation (input) opt_is :: "optres \<Rightarrow> char \<Rightarrow> bool" where
  "opt_is x ch \<equiv> o_c x = of_char ch"

section \<open>Lemmas\<close>

lemma to_u64_add: "to_u64 (a + b) = to_u64 a + to_u64 b"
  by (simp add: to_u64_def)

lemma to_u64_mult: "to_u64 (a * b) = to_u64 a * to_u64 b"
  by (simp add: to_u64_def)

lemma to_u64_diff: "to_u64 (a - b) = to_u64 a - to_u64 b"
  by (simp add: to_u64_def)

lemma wp_rdtsc [wp_simps]:
  "wp (rdtsc K) Q E = (\<lambda>w. Q (r_tsc (reply K Rq_rdtsc w)) (after_call K Rq_rdtsc w))"
  by (simp add: rdtsc_def wp_simps)

lemma wp_gettime [wp_simps]:
  "wp (gettime K) Q E = (\<lambda>w. let res = reply K (Rq_clock_gettime CLOCK_MONOTONIC) w;
       w' = after_call K (Rq_clock_gettime CLOCK_MONOTONIC) w in
     if r_ret res < 0
     then E EXIT_FAIL_TIME (say (Stderr ''error with gettimeofday! (%i)'' [PI (r_ret res)]) w')
     else Q (to_u64 (ts_ns (r_time res))) w')"
  by (simp add: gettime_def wp_simps fun_eq_iff Let_def ts_ns_def to_u64_add to_u64_mult
      NANOSEC_PER_SEC_def)

lemmas run_defs = gettime_def rdtsc_def bnd_def syscall_def reply_def after_call_def new_events_def
  sysres_of_def

lemma wp_calc_stats:
  "packets r \<noteq> 0 \<Longrightarrow> wp (time_bench_calc_stats r) Q E =
     Q (r\<lparr>tsc_interval := tsc_stop r - tsc_start r,
          time_interval := time_stop r - time_start r,
          pps := ddiv (double_of_i64 (packets r))
                   (ddiv (double_of_u64 (time_stop r - time_start r)) (Fin (of_int NANOSEC_PER_SEC))),
          tsc_cycles := (tsc_stop r - tsc_start r) div packets r,
          ns_per_pkt := ddiv (double_of_u64 (time_stop r - time_start r)) (double_of_i64 (packets r)),
          timesec := ddiv (double_of_u64 (time_stop r - time_start r)) (Fin (of_int NANOSEC_PER_SEC)),
          payload_pktsz := bytes_cnt r div packets r\<rparr>)"
  by (simp add: time_bench_calc_stats_def Let_def wp_simps)



lemma wp_malloc_payload_buffer:
  assumes fail: "\<And>w' r. heap w' = heap w \<Longrightarrow> next_blk w' = next_blk w \<Longrightarrow>
      world.more w' = world.more w \<Longrightarrow>
      trace w' = trace w @ [(Rq_malloc (to_u64 n), r)] \<Longrightarrow> E EXIT_FAIL_MEM w'"
    and succ: "\<And>w' r. heap w' = (heap w)(next_blk w \<mapsto> replicate (unat (to_u64 n)) 0) \<Longrightarrow>
      next_blk w' = Suc (next_blk w) \<Longrightarrow> world.more w' = world.more w \<Longrightarrow>
      verbose w' = verbose w \<Longrightarrow>
      trace w' = trace w @ [(Rq_malloc (to_u64 n), r)] \<Longrightarrow> Q (Ptr (next_blk w) 0) w'"
  shows "wp (malloc_payload_buffer K n) Q E w"
  unfolding malloc_payload_buffer_def
  by (simp add: wp_simps overwrite_all) (auto intro!: fail succ
      simp: after_call_def say_def set_block_def new_block_def)

lemma keeps_list_options [keeps_rules]:
  assumes "\<And>m w. f (say m w) = f w"
  shows "keeps f (list_options fmt os)"
  by (induction os) (auto intro!: keeps_rules simp: assms)

lemma keeps_options [keeps_rules]:
  "keeps f (atoi_arg a)" "(\<And>v w. f (w\<lparr>verbose := v\<rparr>) = f w) \<Longrightarrow> keeps f (set_verbose a)"
  by (auto simp: atoi_arg_def set_verbose_def intro!: keeps_rules)

section \<open>Properties\<close>




text \<open>
  C25.  The measured interval is the elapsed time.  Whatever the clock shows at
  \<open>time_bench_start\<close> and \<open>time_bench_stop\<close>, the stored interval is the difference of the two
  times in nanoseconds, reduced modulo \<open>2 ^ 64\<close>: multiplying the seconds out and subtracting in
  unsigned 64-bit arithmetic loses nothing while the difference itself fits.
\<close>

theorem measured_interval:
  assumes start: "time_bench_start K r0 w0 = (Done r1, w1)"
    and same: "time_start r2 = time_start r1" "tsc_start r2 = tsc_start r1"
    and stop: "time_bench_stop K r2 w2 = (Done r3, w3)"
    and calc: "time_bench_calc_stats (r3\<lparr>packets := n\<rparr>) w3 = (Done r4, w4)"
  shows "\<exists>a b c d. new_events w0 w1 = [(Rq_clock_gettime CLOCK_MONOTONIC, a), (Rq_rdtsc, b)]
    \<and> new_events w2 w3 = [(Rq_rdtsc, c), (Rq_clock_gettime CLOCK_MONOTONIC, d)]
    \<and> time_interval r4 = to_u64 (ts_ns (r_time d) - ts_ns (r_time a))
    \<and> tsc_interval r4 = r_tsc c - r_tsc b"
proof -
  have "wp (time_bench_start K r0) (\<lambda>r w. \<exists>a b.
      new_events w0 w = [(Rq_clock_gettime CLOCK_MONOTONIC, a), (Rq_rdtsc, b)]
      \<and> time_start r = to_u64 (ts_ns (r_time a)) \<and> tsc_start r = r_tsc b) (\<lambda>_ _. True) w0"
    by (simp add: time_bench_start_def wp_simps Let_def)
  from wp_Done [OF this start] obtain a b where
    ab: "new_events w0 w1 = [(Rq_clock_gettime CLOCK_MONOTONIC, a), (Rq_rdtsc, b)]"
    "time_start r1 = to_u64 (ts_ns (r_time a))" "tsc_start r1 = r_tsc b" by blast
  have "wp (time_bench_stop K r2) (\<lambda>r w. \<exists>c d.
      new_events w2 w = [(Rq_rdtsc, c), (Rq_clock_gettime CLOCK_MONOTONIC, d)]
      \<and> time_stop r = to_u64 (ts_ns (r_time d)) \<and> tsc_stop r = r_tsc c
      \<and> time_start r = time_start r2 \<and> tsc_start r = tsc_start r2) (\<lambda>_ _. True) w2"
    by (simp add: time_bench_stop_def wp_simps Let_def)
  from wp_Done [OF this stop] obtain c d where
    cd: "new_events w2 w3 = [(Rq_rdtsc, c), (Rq_clock_gettime CLOCK_MONOTONIC, d)]"
    "time_stop r3 = to_u64 (ts_ns (r_time d))" "tsc_stop r3 = r_tsc c"
    "time_start r3 = time_start r2" "tsc_start r3 = tsc_start r2" by blast
  have "time_interval r4 = time_stop r3 - time_start r3 \<and> tsc_interval r4 = tsc_stop r3 - tsc_start r3"
    using calc by (auto simp: time_bench_calc_stats_def Let_def split: if_splits)
  with ab cd same show ?thesis by (simp add: to_u64_diff)
qed

theorem measured_interval_witness:
  "\<exists>r1 r3 r4 w1 w3. time_bench_start scripted time_bench_zero
       (boot [(sysres_of 0 0)\<lparr>r_time := TimeSpec 7 999999990\<rparr>, sysres_of 0 0]) = (Done r1, w1)
   \<and> time_bench_stop scripted r1
       (boot [sysres_of 0 0, (sysres_of 0 0)\<lparr>r_time := TimeSpec 8 15\<rparr>]) = (Done r3, w3)
   \<and> time_bench_calc_stats (r3\<lparr>packets := 5\<rparr>) w3 = (Done r4, w3)
   \<and> time_interval r4 = 25"
proof -
  let ?w0 = "boot [(sysres_of 0 0)\<lparr>r_time := TimeSpec 7 999999990\<rparr>, sysres_of 0 0]"
  let ?w2 = "boot [sysres_of 0 0, (sysres_of 0 0)\<lparr>r_time := TimeSpec 8 15\<rparr>]"
  obtain r1 w1 where start: "time_bench_start scripted time_bench_zero ?w0 = (Done r1, w1)"
    and t0: "new_events ?w0 w1 = [(Rq_clock_gettime CLOCK_MONOTONIC, (sysres_of 0 0)\<lparr>r_time := TimeSpec 7 999999990\<rparr>),
                                   (Rq_rdtsc, sysres_of 0 0)]"
    by (simp add: time_bench_start_def run_defs)
  obtain r3 w3 where stop: "time_bench_stop scripted r1 ?w2 = (Done r3, w3)"
    and t1: "new_events ?w2 w3 = [(Rq_rdtsc, sysres_of 0 0),
               (Rq_clock_gettime CLOCK_MONOTONIC, (sysres_of 0 0)\<lparr>r_time := TimeSpec 8 15\<rparr>)]"
    by (simp add: time_bench_stop_def run_defs)
  obtain r4 where calc: "time_bench_calc_stats (r3\<lparr>packets := 5\<rparr>) w3 = (Done r4, w3)"
    by (simp add: time_bench_calc_stats_def Let_def)
  from measured_interval [OF start refl refl stop calc] t0 t1
  have "time_interval r4 = to_u64 25" by (simp add: ts_ns_def)
  with start stop calc show ?thesis by (auto simp: to_u64_def)
qed

end
