(* ===== verification/CommonSocket.thy ===== *)
theory CommonSocket
  imports Common
begin

text \<open>
  \<open>src/src/common_socket.c\<close>: the address helpers, the wrappers around the socket calls that end
  the process on an error, and the allocators of the message structures.
\<close>

section \<open>Helpers\<close>

text \<open>
  \<open>setup_sockaddr\<close> writes the family and the port before it looks at the address string, so
  both are in place when \<open>inet_pton\<close> is called.
\<close>

definition setup_sockaddr ::
  "'k kernel \<Rightarrow> int \<Rightarrow> sockaddr_storage \<Rightarrow> string \<Rightarrow> u16 \<Rightarrow> ('k, 'm, sockaddr_storage) cprog" where
  "setup_sockaddr K addr_family addr ip_string port =
     (let addr1 = addr\<lparr>ss_family := addr_family, sin_port := htons port\<rparr>;
          failed = (\<lambda>res.
            bnd (if res = 0 then
                   eprintf ''ERROR: IP%s - %s - not in presentation format''
                     [PS (if addr_family = AF_INET6 then ''v6'' else ''v4''), PS ip_string]
                 else perror ''inet_pton'') (\<lambda>_.
            exit_with EXIT_FAIL_IP))
      in
      if addr_family = AF_INET6 then
        bnd (syscall K (Rq_inet_pton AF_INET6 ip_string)) (\<lambda>r.
        if r_ret r \<le> 0 then failed (r_ret r)
        else ret (addr1\<lparr>sin6_addr := r_data r\<rparr>))
      else if addr_family = AF_INET then
        bnd (syscall K (Rq_inet_pton AF_INET ip_string)) (\<lambda>r.
        if r_ret r \<le> 0 then failed (r_ret r)
        else ret (addr1\<lparr>sin_addr := r_data r\<rparr>))
      else
        bnd (eprintf ''ERROR: Unsupported addr_family'' []) (\<lambda>_.
        exit_with EXIT_FAIL_OPTION))"

definition sockaddr_len :: "sockaddr_storage \<Rightarrow> ('k, 'm, int) cprog" where
  "sockaddr_len sockaddr =
     (if ss_family sockaddr = AF_INET then ret sizeof_sockaddr_in
      else if ss_family sockaddr = AF_INET6 then ret sizeof_sockaddr_in6
      else
        bnd (eprintf ''ERROR: %s(): Cannot determine lenght of addr_family(%d)''
               [PS ''sockaddr_len'', PI (ss_family sockaddr)]) (\<lambda>_.
        exit_with EXIT_FAIL_SOCK))"

section \<open>Wrappers with error handling\<close>

definition Socket :: "'k kernel \<Rightarrow> int \<Rightarrow> int \<Rightarrow> int \<Rightarrow> ('k, 'm, int) cprog" where
  "Socket K addr_family type protocol =
     bnd (syscall K (Rq_socket addr_family type protocol)) (\<lambda>n.
     if r_ret n < 0 then
       bnd (perror ''- socket'') (\<lambda>_. exit_with EXIT_FAIL_SOCK)
     else ret (r_ret n))"

definition wrapper_error :: "string \<Rightarrow> string \<Rightarrow> int \<Rightarrow> ('k, 'm, unit) cprog" where
  "wrapper_error fct msg res =
     bnd (gets errno) (\<lambda>e.
     bnd (eprintf ''ERROR: %s() failed (%d) errno(%d) '' [PS fct, PI res, PI e]) (\<lambda>_.
     perror msg))"

definition Connect ::
  "'k kernel \<Rightarrow> int \<Rightarrow> sockaddr_storage \<Rightarrow> int \<Rightarrow> ('k, 'm, int) cprog" where
  "Connect K sockfd addr addrlen =
     bnd (syscall K (Rq_connect sockfd addr addrlen)) (\<lambda>res.
     if r_ret res < 0 then
       bnd (wrapper_error ''Connect'' ''- connect'' (r_ret res)) (\<lambda>_.
       bnd (syscall K (Rq_close sockfd)) (\<lambda>_.
       exit_with EXIT_FAIL_SOCK))
     else ret (r_ret res))"

definition Close :: "'k kernel \<Rightarrow> int \<Rightarrow> ('k, 'm, int) cprog" where
  "Close K sockfd =
     bnd (syscall K (Rq_close sockfd)) (\<lambda>res.
     if r_ret res < 0 then
       bnd (wrapper_error ''Close'' ''- close'' (r_ret res)) (\<lambda>_.
       exit_with EXIT_FAIL_SOCK)
     else ret (r_ret res))"

definition Setsockopt ::
  "'k kernel \<Rightarrow> int \<Rightarrow> int \<Rightarrow> int \<Rightarrow> optval \<Rightarrow> ('k, 'm, int) cprog" where
  "Setsockopt K fd level optname optval =
     bnd (syscall K (Rq_setsockopt fd level optname optval)) (\<lambda>res.
     if r_ret res < 0 then
       bnd (wrapper_error ''Setsockopt'' ''- setsockopt'' (r_ret res)) (\<lambda>_.
       exit_with EXIT_FAIL_SOCKOPT)
     else ret (r_ret res))"

definition Bind :: "'k kernel \<Rightarrow> int \<Rightarrow> sockaddr_storage \<Rightarrow> ('k, 'm, int) cprog" where
  "Bind K sockfd addr =
     bnd (sockaddr_len addr) (\<lambda>addrlen.
     bnd (syscall K (Rq_bind sockfd addr addrlen)) (\<lambda>res.
     if r_ret res < 0 then
       bnd (wrapper_error ''Bind'' ''- bind'' (r_ret res)) (\<lambda>_.
       bnd (syscall K (Rq_close sockfd)) (\<lambda>_.
       exit_with EXIT_FAIL_SOCK))
     else ret (r_ret res)))"

section \<open>Memory allocation\<close>

definition alloc_error :: "string \<Rightarrow> ('k, 'm, 'a) cprog" where
  "alloc_error fct =
     bnd (eprintf ''ERROR: %s() failed in malloc() (caller: 0x%p)'' [PS fct]) (\<lambda>_.
     exit_with EXIT_FAIL_MEM)"

definition malloc_msghdr :: "'k kernel \<Rightarrow> ('k, 'm, ptr) cprog" where
  "malloc_msghdr K =
     bnd (malloc K sizeof_msghdr) (\<lambda>msg_hdr.
     if msg_hdr = NULL then alloc_error ''malloc_msghdr''
     else
       bnd (store msg_hdr (replicate (unat sizeof_msghdr) 0)) (\<lambda>_.
       bnd (gets verbose) (\<lambda>v.
       bnd (when_do (v \<noteq> 0) (eprintf '' - malloc(msg_hdr) = %d bytes'' [PI (uint sizeof_msghdr)])) (\<lambda>_.
       ret msg_hdr))))"

text \<open>
  The sizes of the arrays are computed in \<open>size_t\<close> and kept in an \<open>unsigned int\<close>: the product
  is cut to 32 bits before it is handed to \<open>malloc\<close>.
\<close>

definition mmsghdr_memsz :: "u32 \<Rightarrow> u32" where
  "mmsghdr_memsz array_elems = ucast (sizeof_mmsghdr * ucast array_elems)"

definition malloc_mmsghdr :: "'k kernel \<Rightarrow> u32 \<Rightarrow> ('k, 'm, ptr) cprog" where
  "malloc_mmsghdr K array_elems =
     (let memsz = mmsghdr_memsz array_elems in
     bnd (malloc K (ucast memsz)) (\<lambda>mmsg_hdr_vec.
     if mmsg_hdr_vec = NULL then alloc_error ''malloc_mmsghdr''
     else
       bnd (store mmsg_hdr_vec (replicate (unat memsz) 0)) (\<lambda>_.
       bnd (gets verbose) (\<lambda>v.
       bnd (when_do (v \<noteq> 0) (eprintf '' - malloc(mmsghdr[%d]) = %d bytes''
              [PI (sint array_elems), PI (sint memsz)])) (\<lambda>_.
       ret mmsg_hdr_vec)))))"

definition iovec_memsz :: "u32 \<Rightarrow> u32" where
  "iovec_memsz iov_array_elems = ucast (sizeof_iovec * ucast iov_array_elems)"

definition malloc_iovec :: "'k kernel \<Rightarrow> u32 \<Rightarrow> ('k, 'm, ptr) cprog" where
  "malloc_iovec K iov_array_elems =
     (let msg_iov_memsz = iovec_memsz iov_array_elems in
     bnd (malloc K (ucast msg_iov_memsz)) (\<lambda>msg_iov.
     if msg_iov = NULL then alloc_error ''malloc_iovec''
     else
       bnd (store msg_iov (replicate (unat msg_iov_memsz) 0)) (\<lambda>_.
       bnd (gets verbose) (\<lambda>v.
       bnd (when_do (v \<noteq> 0) (eprintf '' - malloc(msg_iov[%d]) = %d bytes''
              [PI (sint iov_array_elems), PI (sint msg_iov_memsz)])) (\<lambda>_.
       ret msg_iov)))))"

section \<open>Rules\<close>

lemma uint_u32_u64 [simp]: "uint (ucast (x :: u32) :: u64) = uint x"
  by (rule uint_up_ucast) (simp add: is_up)

lemma unat_u32_u64 [simp]: "unat (ucast (x :: u32) :: u64) = unat x"
  by (simp only: unat_eq_nat_uint uint_u32_u64)

lemma wp_malloc_msghdr:
  assumes fail: "\<And>w' r. heap w' = heap w \<Longrightarrow> next_blk w' = next_blk w \<Longrightarrow>
      world.more w' = world.more w \<Longrightarrow>
      trace w' = trace w @ [(Rq_malloc sizeof_msghdr, r)] \<Longrightarrow> E EXIT_FAIL_MEM w'"
    and succ: "\<And>w' r. heap w' = (heap w)(next_blk w \<mapsto> replicate 56 0) \<Longrightarrow>
      next_blk w' = Suc (next_blk w) \<Longrightarrow> world.more w' = world.more w \<Longrightarrow>
      trace w' = trace w @ [(Rq_malloc sizeof_msghdr, r)] \<Longrightarrow> Q (Ptr (next_blk w) 0) w'"
  shows "wp (malloc_msghdr K) Q E w"
  unfolding malloc_msghdr_def alloc_error_def
  by (simp add: wp_simps overwrite_all) (auto intro!: fail succ
      simp: after_call_def say_def set_block_def new_block_def)

lemma wp_malloc_iovec:
  assumes fail: "\<And>w' r. heap w' = heap w \<Longrightarrow> next_blk w' = next_blk w \<Longrightarrow>
      world.more w' = world.more w \<Longrightarrow>
      trace w' = trace w @ [(Rq_malloc (ucast (iovec_memsz n)), r)] \<Longrightarrow> E EXIT_FAIL_MEM w'"
    and succ: "\<And>w' r. heap w' = (heap w)(next_blk w \<mapsto> replicate (unat (iovec_memsz n)) 0) \<Longrightarrow>
      next_blk w' = Suc (next_blk w) \<Longrightarrow> world.more w' = world.more w \<Longrightarrow>
      trace w' = trace w @ [(Rq_malloc (ucast (iovec_memsz n)), r)] \<Longrightarrow> Q (Ptr (next_blk w) 0) w'"
  shows "wp (malloc_iovec K n) Q E w"
  unfolding malloc_iovec_def alloc_error_def Let_def
  by (simp add: wp_simps overwrite_all) (auto intro!: fail succ
      simp: after_call_def say_def set_block_def new_block_def)

lemma wp_malloc_mmsghdr:
  assumes fail: "\<And>w' r. heap w' = heap w \<Longrightarrow> next_blk w' = next_blk w \<Longrightarrow>
      world.more w' = world.more w \<Longrightarrow>
      trace w' = trace w @ [(Rq_malloc (ucast (mmsghdr_memsz n)), r)] \<Longrightarrow> E EXIT_FAIL_MEM w'"
    and succ: "\<And>w' r. heap w' = (heap w)(next_blk w \<mapsto> replicate (unat (mmsghdr_memsz n)) 0) \<Longrightarrow>
      next_blk w' = Suc (next_blk w) \<Longrightarrow> world.more w' = world.more w \<Longrightarrow>
      trace w' = trace w @ [(Rq_malloc (ucast (mmsghdr_memsz n)), r)] \<Longrightarrow> Q (Ptr (next_blk w) 0) w'"
  shows "wp (malloc_mmsghdr K n) Q E w"
  unfolding malloc_mmsghdr_def alloc_error_def Let_def
  by (simp add: wp_simps overwrite_all) (auto intro!: fail succ
      simp: after_call_def say_def set_block_def new_block_def)

text \<open>
  The three blocks of the functions that pass a message structure: the payload buffer, the header
  and the I/O vector.
\<close>

lemma wp_alloc_message:
  assumes fail: "\<And>w'. E EXIT_FAIL_MEM w'"
    and succ: "\<And>b w' r1 r2 r3. b = next_blk w \<Longrightarrow>
      heap w' = (heap w)(b \<mapsto> replicate (unat (to_u64 n)) 0, Suc b \<mapsto> replicate 56 0,
        Suc (Suc b) \<mapsto> replicate (unat (iovec_memsz k)) 0) \<Longrightarrow>
      next_blk w' = Suc (Suc (Suc b)) \<Longrightarrow> world.more w' = world.more w \<Longrightarrow>
      trace w' = trace w @ [(Rq_malloc (to_u64 n), r1), (Rq_malloc sizeof_msghdr, r2),
        (Rq_malloc (ucast (iovec_memsz k)), r3)] \<Longrightarrow>
      wp (f (Ptr b 0) (Ptr (Suc b) 0) (Ptr (Suc (Suc b)) 0)) Q E w'"
  shows "wp (bnd (malloc_payload_buffer K n) (\<lambda>x. bnd (malloc_msghdr K) (\<lambda>y.
      bnd (malloc_iovec K k) (\<lambda>z. f x y z)))) Q E w"
  unfolding wp_bnd [of "malloc_payload_buffer _ _"] wp_bnd [of "malloc_msghdr _"]
    wp_bnd [of "malloc_iovec _ _"]
proof (rule wp_malloc_payload_buffer, goal_cases)
  case (2 w1 r1)
  note w1 = 2
  show ?case
  proof (rule wp_malloc_msghdr, goal_cases)
    case (2 w2 r2)
    note w2 = 2
    show ?case
    proof (rule wp_malloc_iovec, goal_cases)
      case (2 w3 r3)
      show ?case
        unfolding w1(2) w2(2) by (rule succ) (use w1 w2 2 in simp_all)
    qed (rule fail)
  qed (rule fail)
qed (rule fail)

text \<open>
  Setting a socket up: only calls that do so, and nothing changed in the process but what was printed.
\<close>

fun is_setup :: "sysreq \<Rightarrow> bool" where
  "is_setup (Rq_socket _ _ _) = True"
| "is_setup (Rq_connect _ _ _) = True"
| "is_setup (Rq_bind _ _ _) = True"
| "is_setup (Rq_listen _ _) = True"
| "is_setup (Rq_close _) = True"
| "is_setup (Rq_setsockopt _ _ _ _) = True"
| "is_setup (Rq_inet_pton _ _) = True"
| "is_setup _ = False"

definition set_up :: "('k, 'm) world_scheme \<Rightarrow> ('k, 'm) world_scheme \<Rightarrow> bool" where
  "set_up w w' \<longleftrightarrow> (\<exists>es. trace w' = trace w @ es \<and> list_all (is_setup \<circ> fst) es) \<and> heap w' = heap w
     \<and> next_blk w' = next_blk w \<and> verbose w' = verbose w \<and> world.more w' = world.more w"

lemma set_up_refl [simp, intro!]: "set_up w w"
  by (simp add: set_up_def)

lemma set_up_trans [trans]: "set_up u v \<Longrightarrow> set_up v w \<Longrightarrow> set_up u w"
  by (auto simp: set_up_def)

lemma set_up_say [simp]: "set_up u (say m w) = set_up u w"
  by (auto simp: set_up_def say_def)

lemma set_up_call [simp]: "is_setup rq \<Longrightarrow> set_up u w \<Longrightarrow> set_up u (after_call K rq w)"
  by (auto simp: set_up_def after_call_def)

lemma wp_Socket:
  assumes "\<And>r v. v = after_call K (Rq_socket fam ty pr) w \<Longrightarrow> r = reply K (Rq_socket fam ty pr) w \<Longrightarrow> 0 \<le> r_ret r \<Longrightarrow>
      Q (r_ret r) v"
    and "\<And>m. r_ret (reply K (Rq_socket fam ty pr) w) < 0 \<Longrightarrow> E EXIT_FAIL_SOCK (say m (after_call K (Rq_socket fam ty pr) w))"
  shows "wp (Socket K fam ty pr) Q E w"
  unfolding Socket_def using assms by (simp add: wp_simps)

lemma wp_wrappers:
  assumes "\<And>x v. set_up w v \<Longrightarrow> Q x v" "\<And>c v. set_up w v \<Longrightarrow> c \<in> {EXIT_FAIL_SOCK, EXIT_FAIL_SOCKOPT} \<Longrightarrow> E c v"
  shows "wp (Socket K fam ty pr) Q E w" "wp (Connect K fd addr len) Q E w" "wp (Close K fd) Q E w"
    "wp (Setsockopt K fd lv op ov) Q E w" "wp (Bind K fd addr) Q E w" "wp (sockaddr_len addr) Q E w"
  unfolding sockaddr_len_def Socket_def Connect_def Close_def Setsockopt_def Bind_def wrapper_error_def
  by (auto simp: wp_simps intro!: assms)

lemma wp_setup_sockaddr:
  assumes "\<And>a v. set_up w v \<Longrightarrow> ss_family a = fam \<Longrightarrow> fam \<in> {AF_INET, AF_INET6} \<Longrightarrow> Q a v"
    "\<And>c v. set_up w v \<Longrightarrow> c \<in> {EXIT_FAIL_IP, EXIT_FAIL_OPTION} \<Longrightarrow> E c v"
  shows "wp (setup_sockaddr K fam addr ip port) Q E w"
  unfolding setup_sockaddr_def Let_def
  by (auto simp: wp_simps intro!: assms)

text \<open>The wrappers change nothing but the kernel's state and what was printed.\<close>

lemma keeps_wrappers [keeps_rules]:
  assumes s: "\<And>m w. f (say m w) = f w"
    and c: "\<And>fam s w. f (after_call K (Rq_inet_pton fam s) w) = f w"
      "\<And>a b d w. f (after_call K (Rq_socket a b d) w) = f w"
      "\<And>a b d w. f (after_call K (Rq_connect a b d) w) = f w"
      "\<And>a w. f (after_call K (Rq_close a) w) = f w"
      "\<And>a b d e w. f (after_call K (Rq_setsockopt a b d e) w) = f w"
      "\<And>a b d w. f (after_call K (Rq_bind a b d) w) = f w"
  shows "keeps f (setup_sockaddr K fam addr ip port)" "keeps f (sockaddr_len addr)"
    "keeps f (Socket K fam ty pr)" "keeps f (Connect K fd addr len)" "keeps f (Close K fd)"
    "keeps f (Setsockopt K fd lv op ov)" "keeps f (Bind K fd addr)"
  unfolding setup_sockaddr_def sockaddr_len_def Socket_def Connect_def Close_def Setsockopt_def Bind_def
    wrapper_error_def Let_def
  by (auto intro!: keeps_rules simp: s c)

end
