(* ===== verification/UdpFlood.thy ===== *)
theory UdpFlood
  imports CommonSocket
begin

text \<open>
  \<open>src/src/udp_flood.c\<close>: the sender.  Each \<open>flood_with_*\<close> function transmits \<open>--count\<close> packets
  with one system call; \<open>fill_buf\<close> writes the pktgen header the sink checks; \<open>time_function\<close>
  measures one of them and \<open>main\<close> runs the selected ones.  The model's state is the process
  together with the static counter \<open>sequence\<close> of \<open>fill_buf\<close>.
\<close>

section \<open>Definitions\<close>

definition RUN_SENDMSG :: int where [c_consts]: "RUN_SENDMSG = 0x1"
definition RUN_SENDMMSG :: int where [c_consts]: "RUN_SENDMMSG = 0x2"
definition RUN_SENDTO :: int where [c_consts]: "RUN_SENDTO = 0x4"
definition RUN_WRITE :: int where [c_consts]: "RUN_WRITE = 0x8"
definition RUN_SEND :: int where [c_consts]: "RUN_SEND = 0x10"
definition flood_RUN_ALL :: int where [c_consts]:
  "flood_RUN_ALL = RUN_SENDMSG OR RUN_SENDMMSG OR RUN_SENDTO OR RUN_WRITE OR RUN_SEND"

record flood_params =
  fl_c :: params_common
  fl_lite :: int
  fl_batch :: int
  fl_count :: int
  fl_msg_sz :: int
  fl_pmtu :: int
  fl_pktgen_hdr :: int
  fl_dest_addr :: sockaddr_storage

record 'k flood_world = "'k world" +
  sequence :: u32

type_synonym ('k, 'm, 'a) fprog = "(('k, 'm) flood_world_scheme, 'a) prog"

definition flood_long_options :: "long_opt list" where
  "flood_long_options = map (\<lambda>(n, a, v). \<lparr>opt_name = n, opt_has_arg = a, opt_flag = None, opt_val = v\<rparr>)
     [(''help'', no_argument, of_char (CHR ''h'')),
      (''ipv4'', no_argument, of_char (CHR ''4'')),
      (''ipv6'', no_argument, of_char (CHR ''6'')),
      (''lite'', no_argument, of_char (CHR ''L'')),
      (''pktgen-header'', no_argument, of_char (CHR ''P'')),
      (''sendmsg'', no_argument, of_char (CHR ''u'')),
      (''sendmmsg'', no_argument, of_char (CHR ''U'')),
      (''sendto'', no_argument, of_char (CHR ''t'')),
      (''write'', no_argument, of_char (CHR ''T'')),
      (''send'', no_argument, of_char (CHR ''S'')),
      (''batch'', required_argument, of_char (CHR ''b'')),
      (''count'', required_argument, of_char (CHR ''c'')),
      (''port'', required_argument, of_char (CHR ''p'')),
      (''payload'', required_argument, of_char (CHR ''m'')),
      (''pmtu'', required_argument, of_char (CHR ''d'')),
      (''verbose'', optional_argument, of_char (CHR ''v''))]"

definition IP_PMTUDISC_MAX :: int where [c_consts]: "IP_PMTUDISC_MAX = 6"

definition ip_mtu_discover_names :: "string list" where
  "ip_mtu_discover_names = [''IP_PMTUDISC_DONT'', ''IP_PMTUDISC_WANT'', ''IP_PMTUDISC_DO'',
     ''IP_PMTUDISC_PROBE'', ''IP_PMTUDISC_INTERFACE'', ''IP_PMTUDISC_OMIT'']"

text \<open>The table is indexed with any value below its end, negative ones too.\<close>

definition pmtu_to_string :: "int \<Rightarrow> ('s, string option) prog" where
  "pmtu_to_string pmtu =
     (if pmtu < IP_PMTUDISC_MAX then
        (if 0 \<le> pmtu then ret (Some (ip_mtu_discover_names ! nat pmtu)) else ub Out_of_bounds)
      else ret None)"

definition flood_DEFAULT_COUNT :: int where [c_consts]: "flood_DEFAULT_COUNT = 1000000"

subsection \<open>fill_buf\<close>

text \<open>
  The copy loop.  Its counter is an \<open>int\<close>; where the next step leaves that range it wraps to a
  negative offset, which the following \<open>memcpy\<close> would write to.
\<close>

function fill_loop :: "ptr \<Rightarrow> int \<Rightarrow> pktgen_hdr \<Rightarrow> int \<Rightarrow> ('k, 'm, unit) cprog" where
  "fill_loop buf len hdr l =
     (if l < len then
        (let cur_len = (if to_u64 (len - l) < to_u64 sizeof_pktgen_hdr
                        then len - l else sizeof_pktgen_hdr)
         in bnd (store (ptr_add buf l) (take (nat cur_len) (hdr_bytes hdr))) (\<lambda>_.
            if is_i32 (l + sizeof_pktgen_hdr) then fill_loop buf len hdr (l + sizeof_pktgen_hdr)
            else ub Out_of_bounds))
      else ret ())"
  by pat_completeness auto
termination
  by (relation "measure (\<lambda>(buf, len, hdr, l). nat (len - l))") auto

declare fill_loop.simps [simp del]

definition fill_hdr :: "timespec \<Rightarrow> u32 \<Rightarrow> pktgen_hdr" where
  "fill_hdr ts s = \<lparr>pgh_magic = htonl PKTGEN_MAGIC, seq_num = s,
     tv_sec32 = word_of_int (tv_sec ts), tv_usec32 = word_of_int (cdiv (tv_nsec ts) 1000)\<rparr>"

definition fill_buf ::
  "'k kernel \<Rightarrow> flood_params \<Rightarrow> ptr \<Rightarrow> int \<Rightarrow> ('k, 'm, unit) fprog" where
  "fill_buf K p buf len =
     (if fl_pktgen_hdr p = 0 then ret ()
      else
        bnd (syscall K (Rq_clock_gettime CLOCK_REALTIME_COARSE)) (\<lambda>r.
        bnd (gets sequence) (\<lambda>s.
        bnd (modify (\<lambda>w. w\<lparr>sequence := s + 1\<rparr>)) (\<lambda>_.
        fill_loop buf len (fill_hdr (r_time r) s) 0))))"

subsection \<open>The send loops\<close>

text \<open>The report before \<open>goto out\<close>, which leaves the negative result to be returned.\<close>

definition send_failed :: "string \<Rightarrow> int \<Rightarrow> int \<Rightarrow> ('k, 'm, int + 'a) cprog" where
  "send_failed msg cnt res =
     bnd (eprintf ''Managed to send %d packets'' [PI cnt]) (\<lambda>_.
     bnd (perror msg) (\<lambda>_.
     ret (Inl res)))"

text \<open>What follows the loop: on success \<open>r->bytes = total; res = cnt\<close>.\<close>

definition flood_result ::
  "int \<Rightarrow> time_bench_record \<Rightarrow> int + u64 \<Rightarrow> int \<times> time_bench_record" where
  "flood_result count r x = (case x of
       Inl res \<Rightarrow> (res, r)
     | Inr tot \<Rightarrow> (max 0 count, r\<lparr>bytes_cnt := tot\<rparr>))"

definition flood_with_sendto ::
  "'k kernel \<Rightarrow> int \<Rightarrow> flood_params \<Rightarrow> time_bench_record \<Rightarrow> ('k, 'm, int \<times> time_bench_record) fprog" where
  "flood_with_sendto K sockfd p r =
     bnd (sockaddr_len (fl_dest_addr p)) (\<lambda>addrlen.
     bnd (malloc_payload_buffer K (fl_msg_sz p)) (\<lambda>msg_buf.
     bnd (for_break 0 (fl_count p) (\<lambda>cnt total.
            bnd (fill_buf K p msg_buf (fl_msg_sz p)) (\<lambda>_.
            bnd (load msg_buf (uint (to_u64 (fl_msg_sz p)))) (\<lambda>data.
            bnd (syscall K (Rq_sendto sockfd data 0 (fl_dest_addr p) addrlen)) (\<lambda>res.
            if r_ret res < 0 then send_failed ''- sendto'' cnt (r_ret res)
            else ret (Inr (total + to_u64 (r_ret res))))))) 0) (\<lambda>x.
     bnd (free msg_buf) (\<lambda>_.
     ret (flood_result (fl_count p) r x)))))"

definition flood_with_send ::
  "'k kernel \<Rightarrow> int \<Rightarrow> flood_params \<Rightarrow> time_bench_record \<Rightarrow> ('k, 'm, int \<times> time_bench_record) fprog" where
  "flood_with_send K sockfd p r =
     bnd (malloc_payload_buffer K (fl_msg_sz p)) (\<lambda>msg_buf.
     bnd (for_break 0 (fl_count p) (\<lambda>cnt total.
            bnd (load msg_buf (uint (to_u64 (fl_msg_sz p)))) (\<lambda>data.
            bnd (syscall K (Rq_send sockfd data 0)) (\<lambda>res.
            if r_ret res < 0 then send_failed ''- send'' cnt (r_ret res)
            else ret (Inr (total + to_u64 (r_ret res)))))) 0) (\<lambda>x.
     bnd (free msg_buf) (\<lambda>_.
     ret (flood_result (fl_count p) r x))))"

definition flood_with_write ::
  "'k kernel \<Rightarrow> int \<Rightarrow> flood_params \<Rightarrow> time_bench_record \<Rightarrow> ('k, 'm, int \<times> time_bench_record) fprog" where
  "flood_with_write K sockfd p r =
     bnd (malloc_payload_buffer K (fl_msg_sz p)) (\<lambda>msg_buf.
     bnd (for_break 0 (fl_count p) (\<lambda>cnt total.
            bnd (fill_buf K p msg_buf (fl_msg_sz p)) (\<lambda>_.
            bnd (load msg_buf (uint (to_u64 (fl_msg_sz p)))) (\<lambda>data.
            bnd (syscall K (Rq_write sockfd data)) (\<lambda>res.
            if r_ret res < 0 then send_failed ''- write'' cnt (r_ret res)
            else ret (Inr (total + to_u64 (r_ret res))))))) 0) (\<lambda>x.
     bnd (free msg_buf) (\<lambda>_.
     ret (flood_result (fl_count p) r x))))"

text \<open>
  The I/O vector of a message: \<open>msg_sz / iov_array_elems\<close> bytes each, one after the other; the
  quotient is taken in \<open>unsigned int\<close>, and \<open>flood_with_sendMmsg\<close> keeps it in an \<open>int\<close>.  Every element
  written is an element of the allocated array.
\<close>

definition iov_part :: "int \<Rightarrow> u32 \<Rightarrow> u32" where
  "iov_part msg_sz elems = word_of_int msg_sz div elems"

definition setup_iov :: "ptr \<Rightarrow> int \<Rightarrow> ptr \<Rightarrow> int \<Rightarrow> u64 \<Rightarrow> u32 \<Rightarrow> ('k, 'm, iovec list) cprog" where
  "setup_iov arr idx base incr len elems =
     for_loop 0 (uint elems) (\<lambda>i iovs.
       bnd (touch (ptr_add arr (16 * (idx + i))) 16) (\<lambda>_.
       ret (iovs @ [\<lparr>iov_base = ptr_add base (i * incr), iov_len = len\<rparr>]))) []"

definition flood_with_sendmsg ::
  "'k kernel \<Rightarrow> int \<Rightarrow> flood_params \<Rightarrow> time_bench_record \<Rightarrow> ('k, 'm, int \<times> time_bench_record) fprog" where
  "flood_with_sendmsg K sockfd p r =
     (let iov_array_elems = 1 in
     bnd (sockaddr_len (fl_dest_addr p)) (\<lambda>addrlen.
     bnd (malloc_payload_buffer K (fl_msg_sz p)) (\<lambda>msg_buf.
     bnd (malloc_msghdr K) (\<lambda>msg_hdr.
     bnd (malloc_iovec K iov_array_elems) (\<lambda>msg_iov.
     bnd (setup_iov msg_iov 0 msg_buf (uint (iov_part (fl_msg_sz p) iov_array_elems))
            (ucast (iov_part (fl_msg_sz p) iov_array_elems)) iov_array_elems) (\<lambda>iovs.
     bnd (for_break 0 (fl_count p) (\<lambda>cnt total.
            bnd (fill_buf K p msg_buf (fl_msg_sz p)) (\<lambda>_.
            bnd (gather iovs) (\<lambda>data.
            bnd (syscall K (Rq_sendmsg sockfd (fl_dest_addr p) addrlen data 0)) (\<lambda>res.
            if r_ret res < 0 then send_failed ''- sendmsg'' cnt (r_ret res)
            else ret (Inr (total + to_u64 (r_ret res))))))) 0) (\<lambda>x.
     bnd (free msg_iov) (\<lambda>_.
     bnd (free msg_hdr) (\<lambda>_.
     bnd (free msg_buf) (\<lambda>_.
     ret (flood_result (fl_count p) r x)))))))))))"

text \<open>
  \<open>sendmmsg\<close>: the messages the kernel reads are the first \<open>vlen\<close> of the array; asking for more
  than it holds reads past its end.
\<close>

fun gather_all :: "(sockaddr_storage \<times> iovec list) list \<Rightarrow> ('k, 'm, (sockaddr_storage \<times> bytes) list) cprog" where
  "gather_all [] = ret []"
| "gather_all ((a, iovs) # ms) =
     bnd (gather iovs) (\<lambda>data.
     bnd (gather_all ms) (\<lambda>rest.
     ret ((a, data) # rest)))"

definition sendmmsg ::
  "'k kernel \<Rightarrow> int \<Rightarrow> (sockaddr_storage \<times> iovec list) list \<Rightarrow> int \<Rightarrow> ('k, 'm, sysres) cprog" where
  "sendmmsg K sockfd mmsg_hdr vlen =
     (if mmsg_vlen vlen \<le> length mmsg_hdr then
        bnd (gather_all (take (mmsg_vlen vlen) mmsg_hdr)) (\<lambda>msgs.
        syscall K (Rq_sendmmsg sockfd msgs 0))
      else ub Out_of_bounds)"

definition fill_batch :: "'k kernel \<Rightarrow> flood_params \<Rightarrow> ptr \<Rightarrow> ('k, 'm, unit) fprog" where
  "fill_batch K p msg_buf =
     (if fl_pktgen_hdr p \<noteq> 0 then
        for_loop 0 (fl_batch p) (\<lambda>pkt _.
          fill_buf K p (ptr_add msg_buf (pkt * fl_msg_sz p)) (fl_msg_sz p)) ()
      else ret ())"

definition flood_with_sendMmsg ::
  "'k kernel \<Rightarrow> int \<Rightarrow> flood_params \<Rightarrow> time_bench_record \<Rightarrow> ('k, 'm, int \<times> time_bench_record) fprog" where
  "flood_with_sendMmsg K sockfd p r =
     (let iov_array_elems = (1 :: u32) in
     bnd (chk_i32 (fl_batch p * fl_msg_sz p)) (\<lambda>total_size.
     if fl_batch p = 0 then ub Div_by_zero
     else
     bnd (chk_i32 (cdiv (fl_count p) (fl_batch p))) (\<lambda>batches.
     let last = fl_count p - batches * fl_batch p in
     bnd (sockaddr_len (fl_dest_addr p)) (\<lambda>addrlen.
     bnd (gets verbose) (\<lambda>v.
     bnd (when_do (0 < v) (eprintf '' - batching %d packets in sendmmsg'' [PI (fl_batch p)])) (\<lambda>_.
     bnd (malloc_payload_buffer K total_size) (\<lambda>msg_buf.
     bnd (malloc_mmsghdr K (word_of_int (fl_batch p))) (\<lambda>mmsg_arr.
     bnd (malloc_iovec K (iov_array_elems * word_of_int (fl_batch p))) (\<lambda>msg_iov.
     bnd (for_loop 0 (fl_batch p) (\<lambda>pkt mmsg_hdr.
            let incr = to_i32 (uint (iov_part (fl_msg_sz p) iov_array_elems)) in
            bnd (setup_iov msg_iov (pkt * uint iov_array_elems)
                   (ptr_add msg_buf (pkt * fl_msg_sz p)) incr (to_u64 incr) iov_array_elems) (\<lambda>iovs.
            bnd (touch (ptr_add mmsg_arr (64 * pkt)) 64) (\<lambda>_.
            ret (mmsg_hdr @ [(fl_dest_addr p, iovs)])))) []) (\<lambda>mmsg_hdr.
     bnd (for_break 0 batches (\<lambda>cnt total.
            bnd (fill_batch K p msg_buf) (\<lambda>_.
            bnd (sendmmsg K sockfd mmsg_hdr (fl_batch p)) (\<lambda>res.
            if r_ret res < 0 then send_failed ''- sendMmsg'' cnt (r_ret res)
            else
              bnd (chk_i32 (r_ret res * fl_msg_sz p)) (\<lambda>b.
              ret (Inr (total + to_u64 b)))))) 0) (\<lambda>x.
     bnd (case x of
            Inl res \<Rightarrow> ret (res, r)
          | Inr tot \<Rightarrow>
              (let r' = r\<lparr>bytes_cnt := tot\<rparr> in
               if last \<noteq> 0 then
                 bnd (fill_batch K p msg_buf) (\<lambda>_.
                 bnd (sendmmsg K sockfd mmsg_hdr last) (\<lambda>res.
                 if r_ret res < 0 then
                   bnd (send_failed ''- sendMmsg'' (max 0 batches) (r_ret res) :: ('k, _, int + unit) cprog)
                     (\<lambda>_. ret (r_ret res, r'))
                 else ret (fl_count p, r')))
               else ret (fl_count p, r'))) (\<lambda>result.
     bnd (free msg_iov) (\<lambda>_.
     bnd (free mmsg_arr) (\<lambda>_.
     bnd (free msg_buf) (\<lambda>_.
     ret result)))))))))))))))"

subsection \<open>Measuring and main\<close>

type_synonym ('k, 'm) flood_fun =
  "'k kernel \<Rightarrow> int \<Rightarrow> flood_params \<Rightarrow> time_bench_record \<Rightarrow> ('k, 'm, int \<times> time_bench_record) fprog"

definition flood_time_function ::
  "'k kernel \<Rightarrow> int \<Rightarrow> flood_params \<Rightarrow> ('k, 'm) flood_fun \<Rightarrow> ('k, 'm, time_bench_record) fprog" where
  "flood_time_function K sockfd p func =
     bnd (time_bench_start K time_bench_zero) (\<lambda>rec1.
     bnd (func K sockfd p rec1) (\<lambda>(cnt_send, rec2).
     bnd (time_bench_stop K rec2) (\<lambda>rec3.
     if cnt_send < 0 then
       bnd (eprintf ''ERROR: failed to send packets'' []) (\<lambda>_.
       bnd (syscall K (Rq_close sockfd)) (\<lambda>_.
       exit_with EXIT_FAIL_SEND))
     else
       bnd (time_bench_calc_stats (rec3\<lparr>packets := to_u64 cnt_send\<rparr>)) (\<lambda>rec4.
       bnd (time_bench_print_stats rec4 (fl_c p)) (\<lambda>_.
       ret rec4)))))"

definition flood_init_params :: flood_params where
  "flood_init_params = \<lparr>fl_c = \<lparr>connect = 0\<rparr>, fl_lite = 0, fl_batch = 32,
     fl_count = flood_DEFAULT_COUNT, fl_msg_sz = 18, fl_pmtu = - 1, fl_pktgen_hdr = 0,
     fl_dest_addr = sockaddr_zero\<rparr>"

definition flood_usage :: "string \<Rightarrow> ('k, 'm, int) cprog" where
  "flood_usage argv0 =
     bnd (printf ''DOCUMENTATION: This tool is a UDP flood that measures the outgoing packet rate. Default cycles through tests with different send system calls. What function-call to invoke can also be specified as a command line option (see below).'' []) (\<lambda>_.
     bnd (printf '' Default transmit %d packets per test, adjust via --count'' [PI flood_DEFAULT_COUNT]) (\<lambda>_.
     bnd (printf '' Usage: %s (options-see-below) IPADDR'' [PS argv0]) (\<lambda>_.
     bnd (printf '' Listing options:'' []) (\<lambda>_.
     bnd (list_options '' --%-12s'' flood_long_options) (\<lambda>_.
     bnd (printf '' Multiple tests can be selected: default: all tests -u -U -t -T -S: run any combination of sendmsg/sendmmsg/sendto/write/send'' []) (\<lambda>_.
     bnd (printf ''Option --pmtu <N>  for Path MTU discover socket option IP_MTU_DISCOVER. This affects the DF(Dont-Fragment) bit setting. Following values are selectable:'' []) (\<lambda>_.
     bnd (for_loop 0 IP_PMTUDISC_MAX (\<lambda>i _.
            bnd (pmtu_to_string i) (\<lambda>n.
            printf ''  %d = %s'' [PI i, PS (case n of None \<Rightarrow> ''(null)'' | Some x \<Rightarrow> x)])) ()) (\<lambda>_.
     bnd (printf '' Documentation see under IP_MTU_DISCOVER in man 7 ip'' []) (\<lambda>_.
     ret EXIT_FAIL_OPTION)))))))))"

text \<open>
  \<open>main\<close>: the command line is given as the results of the successive \<open>getopt_long\<close> calls and the
  arguments left after the options.
\<close>

record flood_cfg =
  fc_p :: flood_params
  fc_port :: u16
  fc_family :: int
  fc_run :: int

definition flood_cfg0 :: flood_cfg where
  "flood_cfg0 = \<lparr>fc_p = flood_init_params, fc_port = 6666, fc_family = AF_INET, fc_run = 0\<rparr>"

definition flood_option :: "optres \<Rightarrow> flood_cfg \<Rightarrow> ('k, 'm, flood_cfg) cprog" where
  "flood_option x g =
     (let p = fc_p g in
      if opt_is x (CHR ''c'') then
        bnd (atoi_arg (o_arg x)) (\<lambda>n. ret (g\<lparr>fc_p := p\<lparr>fl_count := n\<rparr>\<rparr>))
      else if opt_is x (CHR ''p'') then
        bnd (atoi_arg (o_arg x)) (\<lambda>n. ret (g\<lparr>fc_port := word_of_int n\<rparr>))
      else if opt_is x (CHR ''m'') then
        bnd (atoi_arg (o_arg x)) (\<lambda>n. ret (g\<lparr>fc_p := p\<lparr>fl_msg_sz := n\<rparr>\<rparr>))
      else if opt_is x (CHR ''b'') then
        bnd (atoi_arg (o_arg x)) (\<lambda>n. ret (g\<lparr>fc_p := p\<lparr>fl_batch := n\<rparr>\<rparr>))
      else if opt_is x (CHR ''P'') then ret (g\<lparr>fc_p := p\<lparr>fl_pktgen_hdr := 1\<rparr>\<rparr>)
      else if opt_is x (CHR ''4'') then ret (g\<lparr>fc_family := AF_INET\<rparr>)
      else if opt_is x (CHR ''6'') then ret (g\<lparr>fc_family := AF_INET6\<rparr>)
      else if opt_is x (CHR ''d'') then
        bnd (atoi_arg (o_arg x)) (\<lambda>n. ret (g\<lparr>fc_p := p\<lparr>fl_pmtu := n\<rparr>\<rparr>))
      else if opt_is x (CHR ''L'') then ret (g\<lparr>fc_p := p\<lparr>fl_lite := 1\<rparr>\<rparr>)
      else if opt_is x (CHR ''v'') then bnd (set_verbose (o_arg x)) (\<lambda>_. ret g)
      else if opt_is x (CHR ''u'') then ret (g\<lparr>fc_run := fc_run g OR RUN_SENDMSG\<rparr>)
      else if opt_is x (CHR ''U'') then ret (g\<lparr>fc_run := fc_run g OR RUN_SENDMMSG\<rparr>)
      else if opt_is x (CHR ''t'') then ret (g\<lparr>fc_run := fc_run g OR RUN_SENDTO\<rparr>)
      else if opt_is x (CHR ''T'') then ret (g\<lparr>fc_run := fc_run g OR RUN_WRITE\<rparr>)
      else if opt_is x (CHR ''S'') then ret (g\<lparr>fc_run := fc_run g OR RUN_SEND\<rparr>)
      else ret g)"

fun flood_parse :: "string \<Rightarrow> optres list \<Rightarrow> flood_cfg \<Rightarrow> ('k, 'm, int + flood_cfg) cprog" where
  "flood_parse argv0 [] g = ret (Inr g)"
| "flood_parse argv0 (x # xs) g =
     bnd (flood_option x g) (\<lambda>g'.
     if opt_is x (CHR ''h'') \<or> opt_is x (CHR ''?'') then
       bnd (flood_usage argv0) (\<lambda>c. ret (Inl c))
     else flood_parse argv0 xs g')"

definition flood_run_one ::
  "'k kernel \<Rightarrow> int \<Rightarrow> flood_params \<Rightarrow> int \<Rightarrow> int \<Rightarrow> string \<Rightarrow> int \<Rightarrow> ('k, 'm) flood_fun \<Rightarrow> ('k, 'm, unit) fprog" where
  "flood_run_one K sockfd p run_flag flag name batch func =
     when_do (run_flag AND flag \<noteq> 0)
       (bnd (print_header name batch) (\<lambda>_.
        bnd (flood_time_function K sockfd p func) (\<lambda>_.
        ret ())))"

definition flood_main ::
  "'k kernel \<Rightarrow> string \<Rightarrow> optres list \<Rightarrow> string list \<Rightarrow> ('k, 'm, int) fprog" where
  "flood_main K argv0 opts args =
     bnd (flood_parse argv0 opts flood_cfg0) (\<lambda>x.
     case x of Inl c \<Rightarrow> ret c | Inr g \<Rightarrow>
     (case args of
        [] \<Rightarrow>
          bnd (eprintf ''Expected dest IP-address (IPv6 or IPv4) argument after options'' []) (\<lambda>_.
          flood_usage argv0)
      | dest_ip # _ \<Rightarrow>
          (let p = fc_p g; run_flag = (if fc_run g = 0 then flood_RUN_ALL else fc_run g) in
          bnd (gets verbose) (\<lambda>v.
          bnd (when_do (0 < v) (printf ''Destination IP:%s port:%d''
                 [PS dest_ip, PI (uint (fc_port g))])) (\<lambda>_.
          bnd (Socket K (fc_family g) SOCK_DGRAM
                 (if fl_lite p \<noteq> 0 then IPPROTO_UDPLITE else IPPROTO_UDP)) (\<lambda>sockfd.
          bnd (when_do (fl_pmtu p \<noteq> - 1)
                 (bnd (when_do (0 < v)
                        (bnd (pmtu_to_string (fl_pmtu p)) (\<lambda>n.
                         printf ''setsockopt IP_MTU_DISCOVER: %s(%d)''
                           [PS (case n of None \<Rightarrow> ''(null)'' | Some s \<Rightarrow> s), PI (fl_pmtu p)]))) (\<lambda>_.
                  bnd (syscall K (Rq_setsockopt sockfd SOL_IP IP_MTU_DISCOVER
                         (OptInt (fl_pmtu p)))) (\<lambda>_.
                  ret ())))) (\<lambda>_.
          bnd (setup_sockaddr K (fc_family g) (fl_dest_addr p) dest_ip (fc_port g)) (\<lambda>dest.
          bnd (sockaddr_len dest) (\<lambda>len.
          bnd (Connect K sockfd dest len) (\<lambda>_.
          let p' = p\<lparr>fl_dest_addr := dest, fl_c := \<lparr>connect = 1\<rparr>\<rparr> in
          bnd (when_do (v = 0) (printf ''%-14s packets ns/pkt pps cycles payload'' [PS ''''])) (\<lambda>_.
          bnd (flood_run_one K sockfd p' run_flag RUN_SEND ''send'' 0 flood_with_send) (\<lambda>_.
          bnd (flood_run_one K sockfd p' run_flag RUN_SENDTO ''sendto'' 0 flood_with_sendto) (\<lambda>_.
          bnd (flood_run_one K sockfd p' run_flag RUN_SENDMSG ''sendmsg'' 0 flood_with_sendmsg) (\<lambda>_.
          bnd (flood_run_one K sockfd p' run_flag RUN_SENDMMSG ''sendMmsg'' (fl_batch p')
                 flood_with_sendMmsg) (\<lambda>_.
          bnd (flood_run_one K sockfd p' run_flag RUN_WRITE ''write'' 0 flood_with_write) (\<lambda>_.
          bnd (syscall K (Rq_close sockfd)) (\<lambda>_.
          ret 0)))))))))))))))))"

end
