(* ===== verification/Traffic.thy ===== *)
theory Traffic
  imports Kernel
begin

text \<open>
  The packets a loop of system calls moves.  \<open>txs es\<close> are the calls among the events \<open>es\<close> that
  transmit something, each with the kernel's result; \<open>tx_run\<close> says
  that such a sequence is a complete run of successful calls, \<open>loop_result\<close> what a counted send
  loop leaves behind, and \<open>wp_tx_loop\<close> is the rule for such a loop.
\<close>

fun is_tx :: "sysreq \<Rightarrow> bool" where
  "is_tx (Rq_write _ _) = True"
| "is_tx (Rq_send _ _ _) = True"
| "is_tx (Rq_sendto _ _ _ _ _) = True"
| "is_tx (Rq_sendmsg _ _ _ _ _) = True"
| "is_tx (Rq_sendmsg_hdr _ _ _ _) = True"
| "is_tx (Rq_sendmmsg _ _ _) = True"
| "is_tx _ = False"

definition txs :: "(sysreq \<times> sysres) list \<Rightarrow> (sysreq \<times> int) list" where
  "txs es = map (\<lambda>e. (fst e, r_ret (snd e))) (filter (is_tx \<circ> fst) es)"

lemma txs_simps [simp]:
  "txs [] = []" "txs (es @ es') = txs es @ txs es'"
  "txs ((rq, r) # es) = (if is_tx rq then (rq, r_ret r) # txs es else txs es)"
  by (simp_all add: txs_def)

definition tx_run :: "(nat \<Rightarrow> sysreq \<Rightarrow> bool) \<Rightarrow> nat \<Rightarrow> (sysreq \<times> int) list \<Rightarrow> bool" where
  "tx_run R n tx \<longleftrightarrow> length tx = n \<and> (\<forall>i < n. R i (fst (tx ! i))) \<and> (\<forall>e \<in> set tx. 0 \<le> snd e)"

definition tx_sum :: "(sysreq \<times> int) list \<Rightarrow> u64" where
  "tx_sum tx = (\<Sum>e \<leftarrow> tx. to_u64 (snd e))"

definition loop_result :: "(nat \<Rightarrow> sysreq \<Rightarrow> bool) \<Rightarrow> int \<Rightarrow> (sysreq \<times> int) list \<Rightarrow> int + u64 \<Rightarrow> bool" where
  "loop_result R n tx x = (case x of
       Inr t \<Rightarrow> tx_run R (nat n) tx \<and> t = tx_sum tx
     | Inl res \<Rightarrow> res < 0 \<and> (\<exists>pre d. tx = pre @ [(d, res)] \<and> length pre < nat n
                   \<and> tx_run R (length pre) pre \<and> R (length pre) d))"

definition tx_failed :: "(sysreq \<times> int) list \<Rightarrow> bool" where
  "tx_failed tx \<longleftrightarrow> (\<exists>e \<in> set tx. snd e < 0)"

lemma tx_failed_simps [simp]:
  "\<not> tx_failed []" "tx_failed (e # tx) \<longleftrightarrow> snd e < 0 \<or> tx_failed tx"
  "tx_failed (tx @ tx') \<longleftrightarrow> tx_failed tx \<or> tx_failed tx'"
  by (auto simp: tx_failed_def)

lemma tx_run_Nil: "tx_run R 0 []" "tx_sum [] = 0"
  by (simp_all add: tx_run_def tx_sum_def)

lemma tx_run_snoc:
  "tx_run R n tx \<Longrightarrow> R n d \<Longrightarrow> 0 \<le> res \<Longrightarrow> tx_run R (Suc n) (tx @ [(d, res)])"
  by (auto simp: tx_run_def nth_append less_Suc_eq)

lemma tx_sum_snoc [simp]: "tx_sum (tx @ [(d, res)]) = tx_sum tx + to_u64 res"
  by (simp add: tx_sum_def)

text \<open>One iteration of a send loop: one transmission, whose result decides how it goes on.\<close>

definition tx_step :: "(nat \<Rightarrow> sysreq \<Rightarrow> bool) \<Rightarrow> nat \<Rightarrow> u64 \<Rightarrow> ('k, 'm) world_scheme
    \<Rightarrow> int + u64 \<Rightarrow> ('k, 'm) world_scheme \<Rightarrow> bool" where
  "tx_step R j t v x v' \<longleftrightarrow> (\<exists>es rq res. trace v' = trace v @ es \<and> txs es = [(rq, res)] \<and> R j rq
     \<and> x = (if res < 0 then Inl res else Inr (t + to_u64 res)))"

lemma tx_step_later:
  "trace v' = trace v @ es \<Longrightarrow> txs es = [] \<Longrightarrow> tx_step R j t v' x u \<Longrightarrow> tx_step R j t v x u"
  unfolding tx_step_def
  by (elim exE, rule_tac x = "es @ esa" in exI, rule_tac x = rq in exI, rule_tac x = res in exI) simp

lemma wp_tx_loop:
  assumes start: "J 0 w"
    and body: "\<And>cnt t v. 0 \<le> cnt \<Longrightarrow> cnt < n \<Longrightarrow> J (nat cnt) v \<Longrightarrow>
      wp (body cnt t) (\<lambda>x v'. J (Suc (nat cnt)) v' \<and> tx_step R (nat cnt) t v x v') E v"
  shows "wp (for_break 0 n body 0)
      (\<lambda>x v. (\<exists>j. J j v) \<and> (\<exists>es. trace v = trace w @ es \<and> loop_result R n (txs es) x)) E w"
proof (rule wp_for_break [where I = "\<lambda>j t v. J (nat j) v \<and>
      (\<exists>es. trace v = trace w @ es \<and> tx_run R (nat j) (txs es) \<and> t = tx_sum (txs es))"],
    goal_cases)
  case 1
  from start show ?case by (simp add: tx_run_Nil)
next
  case (2 j t v)
  then obtain es where es: "trace v = trace w @ es" "tx_run R (nat j) (txs es)"
    "t = tx_sum (txs es)" and J: "J (nat j) v" by blast
  from body [OF 2(1,2) J, of t] show ?case
  proof (rule wp_conseq, goal_cases)
    case (1 x v')
    then obtain es' d res where J': "J (Suc (nat j)) v'" and tr: "trace v' = trace w @ (es @ es')"
      and tx: "txs (es @ es') = txs es @ [(d, res)]" and R: "R (nat j) d"
      and x: "x = (if res < 0 then Inl res else Inr (t + to_u64 res))"
      using es(1) by (auto simp: tx_step_def)
    have len: "length (txs es) = nat j" "nat j < nat n" "nat (j + 1) = Suc (nat j)"
      using es(2) 2(1,2) by (simp_all add: tx_run_def)
    show ?case
    proof (cases "res < 0")
      case True
      then have "loop_result R n (txs (es @ es')) (Inl res)"
        using R es len by (auto simp: loop_result_def tx simp del: txs_simps)
      with True x J' tr show ?thesis by auto
    next
      case False
      then have "tx_run R (nat (j + 1)) (txs (es @ es'))"
        "t + to_u64 res = tx_sum (txs (es @ es'))"
        using R es len tx_run_snoc [of R "nat j" "txs es" d res]
        by (simp_all add: tx del: txs_simps)
      with False x J' tr len(3) show ?thesis by (auto simp del: txs_simps)
    qed
  qed
next
  case (3 t v)
  moreover have "nat (max 0 n) = nat n" by simp
  ultimately show ?case by (auto simp: loop_result_def)
qed

section \<open>Receiving\<close>

text \<open>
  The same for the receiving calls.  A call that fails with \<open>EAGAIN\<close> counts as a try, not as a
  packet; \<open>rx_step\<close> is one iteration of a receive loop, seen through the byte total and the
  number of tries the loop's variables hold.
\<close>

fun is_rx :: "sysreq \<Rightarrow> bool" where
  "is_rx (Rq_read _ _) = True"
| "is_rx (Rq_recv _ _ _) = True"
| "is_rx (Rq_recvfrom _ _ _) = True"
| "is_rx (Rq_recvmsg _ _ _) = True"
| "is_rx (Rq_recvmmsg _ _ _ _ _) = True"
| "is_rx _ = False"

definition rxs :: "(sysreq \<times> sysres) list \<Rightarrow> (sysreq \<times> sysres) list" where
  "rxs es = filter (is_rx \<circ> fst) es"

lemma rxs_simps [simp]:
  "rxs [] = []" "rxs (es @ es') = rxs es @ rxs es'"
  "rxs ((rq, r) # es) = (if is_rx rq then (rq, r) # rxs es else rxs es)"
  by (simp_all add: rxs_def)

definition rx_ok :: "sysres \<Rightarrow> bool" where
  "rx_ok r \<longleftrightarrow> 0 \<le> r_ret r"

definition rx_again :: "sysres \<Rightarrow> bool" where
  "rx_again r \<longleftrightarrow> r_ret r < 0 \<and> r_errno r = EAGAIN"

definition rx_run :: "(sysreq \<Rightarrow> bool) \<Rightarrow> nat \<Rightarrow> (sysreq \<times> sysres) list \<Rightarrow> bool" where
  "rx_run R n rx \<longleftrightarrow> length rx = n \<and> (\<forall>(rq, r) \<in> set rx. R rq \<and> (rx_ok r \<or> rx_again r))"

definition n_ok :: "(sysreq \<times> sysres) list \<Rightarrow> nat" where
  "n_ok rx = length (filter (rx_ok \<circ> snd) rx)"

definition rx_sum :: "(sysreq \<times> sysres) list \<Rightarrow> u64" where
  "rx_sum rx = (\<Sum>e \<leftarrow> filter (rx_ok \<circ> snd) rx. to_u64 (r_ret (snd e)))"

lemma rx_snoc [simp]:
  "rx_run R (Suc n) (rx @ [(rq, r)]) \<longleftrightarrow> rx_run R n rx \<and> R rq \<and> (rx_ok r \<or> rx_again r)"
  "n_ok (rx @ [(rq, r)]) = n_ok rx + of_bool (rx_ok r)"
  "rx_sum (rx @ [(rq, r)]) = (if rx_ok r then rx_sum rx + to_u64 (r_ret r) else rx_sum rx)"
  by (auto simp: rx_run_def n_ok_def rx_sum_def)

lemma rx_Nil [simp]: "rx_run R 0 []" "n_ok [] = 0" "rx_sum [] = 0"
  by (simp_all add: rx_run_def n_ok_def rx_sum_def)

definition rx_failed :: "(sysreq \<times> sysres) list \<Rightarrow> bool" where
  "rx_failed rx \<longleftrightarrow> (\<exists>e \<in> set rx. \<not> rx_ok (snd e) \<and> \<not> rx_again (snd e))"

lemma rx_failed_simps [simp]:
  "\<not> rx_failed []" "rx_failed (e # rx) \<longleftrightarrow> \<not> rx_ok (snd e) \<and> \<not> rx_again (snd e) \<or> rx_failed rx"
  "rx_failed (rx @ rx') \<longleftrightarrow> rx_failed rx \<or> rx_failed rx'"
  by (auto simp: rx_failed_def)

lemma n_ok_le: "n_ok rx \<le> length rx"
  by (simp add: n_ok_def)

definition rx_step ::
  "(sysreq \<Rightarrow> bool) \<Rightarrow> ('a \<Rightarrow> u64) \<Rightarrow> ('a \<Rightarrow> u64) \<Rightarrow> 'a \<Rightarrow> ('k, 'm) world_scheme
   \<Rightarrow> int + 'a \<Rightarrow> ('k, 'm) world_scheme \<Rightarrow> bool" where
  "rx_step R tot again a v x v' \<longleftrightarrow> (\<exists>es rq r. trace v' = trace v @ es \<and> rxs es = [(rq, r)] \<and> R rq \<and>
     (case x of
        Inl res \<Rightarrow> \<not> rx_ok r \<and> \<not> rx_again r \<and> res = r_ret r
      | Inr a' \<Rightarrow> if rx_ok r then tot a' = tot a + to_u64 (r_ret r) \<and> again a' = again a
                  else rx_again r \<and> tot a' = tot a \<and> again a' = again a + 1))"

lemma wp_rx_loop:
  assumes start: "J 0 a0 w" "tot a0 = 0"
    and body: "\<And>i a v. 0 \<le> i \<Longrightarrow> i < n \<Longrightarrow> J (nat i) a v \<Longrightarrow>
      wp (body i a) (\<lambda>x v'. rx_step R tot again a v x v' \<and>
        (case x of Inl res \<Rightarrow> JE v' | Inr a' \<Rightarrow> J (Suc (nat i)) a' v')) E v"
  shows "wp (for_break 0 n body a0) (\<lambda>x v. \<exists>es. trace v = trace w @ es \<and>
      (case x of
         Inl res \<Rightarrow> JE v \<and> rx_failed (rxs es)
       | Inr a \<Rightarrow> J (nat n) a v \<and> rx_run R (nat n) (rxs es) \<and> tot a = rx_sum (rxs es)
           \<and> again a = again a0 + of_nat (nat n - n_ok (rxs es)))) E w"
proof (rule wp_for_break [where I = "\<lambda>j a v. J (nat j) a v \<and>
      (\<exists>es. trace v = trace w @ es \<and> rx_run R (nat j) (rxs es) \<and> tot a = rx_sum (rxs es)
         \<and> again a = again a0 + of_nat (nat j - n_ok (rxs es)))"], goal_cases)
  case 1
  from start show ?case by simp
next
  case (2 j a v)
  then obtain es where es: "trace v = trace w @ es" "rx_run R (nat j) (rxs es)"
    "tot a = rx_sum (rxs es)" "again a = again a0 + of_nat (nat j - n_ok (rxs es))"
    and J: "J (nat j) a v" by blast
  have nj: "nat (j + 1) = Suc (nat j)" using 2 by simp
  have le: "n_ok (rxs es) \<le> nat j" using es(2) n_ok_le [of "rxs es"] by (simp add: rx_run_def)
  from body [OF 2(1,2) J] show ?case
  proof (rule wp_conseq, goal_cases)
    case (1 x v')
    then obtain es' rq r where tr: "trace v' = trace w @ (es @ es')"
      and rx: "rxs (es @ es') = rxs es @ [(rq, r)]" and R: "R rq"
      and x: "case x of Inl res \<Rightarrow> \<not> rx_ok r \<and> \<not> rx_again r \<and> res = r_ret r
        | Inr a' \<Rightarrow> if rx_ok r then tot a' = tot a + to_u64 (r_ret r) \<and> again a' = again a
             else rx_again r \<and> tot a' = tot a \<and> again a' = again a + 1"
      and JJ: "case x of Inl res \<Rightarrow> JE v' | Inr a' \<Rightarrow> J (Suc (nat j)) a' v'"
      using es(1) by (auto simp: rx_step_def)
    show ?case
    proof (cases x)
      case (Inl res)
      with x JJ tr rx show ?thesis by (auto simp del: rxs_simps intro!: exI [of _ "es @ es'"])
    next
      case (Inr a')
      have "Suc (nat j) - n_ok (rxs es) = Suc (nat j - n_ok (rxs es))" using le by simp
      with Inr x JJ tr rx R es nj show ?thesis
        by (auto simp del: rxs_simps simp: Suc_diff_le le split: if_splits intro!: exI [of _ "es @ es'"])
    qed
  qed simp
next
  case (3 a v)
  moreover have "nat (max 0 n) = nat n" by simp
  ultimately show ?case by auto
qed

end
