(* ===== verification/UdpFlood_Props.thy ===== *)
theory UdpFlood_Props
  imports UdpFlood Traffic
begin

text \<open>
  The correctness of the sender: what \<open>fill_buf\<close> leaves in the buffer, the contract
  \<open>flood_sender\<close> of a send loop, proved for the loops of \<open>udp_flood.c\<close>, and what a measured run
  of such a loop transmits and reports.
\<close>

section \<open>fill_buf\<close>

lemma wp_fill_loop:
  fixes w :: "('a, 'b) world_scheme"
  assumes "heap w b = Some bs" "0 \<le> a" "a + len \<le> int (length bs)" "0 \<le> len"
    "len + 16 \<le> INT_MAX" "l = 16 * int k"
    and "Q () (set_block b (Some (overwrite bs (nat (a + l)) (drop (nat l) (pgh.fill hdr (nat len))))) w)"
  shows "wp (fill_loop (Ptr b a) len hdr l) Q E w"
  using assms
proof (induction "nat (len - l)" arbitrary: l k bs w rule: less_induct)
  case less
  show ?case
  proof (cases "l < len")
    case False
    then have "drop (nat l) (pgh.fill hdr (nat len)) = []" by (simp add: pgh.length_fill)
    with less.prems False show ?thesis
      by (subst fill_loop.simps) (simp add: wp_simps set_block_same)
  next
    case True
    have l: "nat l = k * 16" "0 \<le> l" using less.prems(6) by simp_all
    have al: "nat (a + l) = nat a + nat l" using less.prems(2) l by simp
    have i32: "is_i32 (l + 16)"
      using True less.prems(4,5) l by (simp add: is_i32_def INT_MIN_def)
    have lt: "to_u64 (len - l) < to_u64 16 \<longleftrightarrow> len - l < 16"
      using True less.prems(5) l by (intro to_u64_less_iff) (simp_all add: INT_MAX_def)
    show ?thesis
    proof (cases "len - l < 16")
      case False
      let ?c = "hdr_bytes hdr"
      let ?bs' = "overwrite bs (nat (a + l)) ?c"
      have chunk: "drop (nat l) (pgh.fill hdr (nat len)) = ?c @ drop (nat (l + 16)) (pgh.fill hdr (nat len))"
        using pgh.fill_Suc_chunk [of k "nat len" hdr] False l less.prems(4)
        by (simp add: nat_add_distrib)
      have fit: "nat (a + l) + 16 \<le> length bs"
        using False less.prems(2,3) l by linarith
      have "overwrite ?bs' (nat (a + (l + 16))) (drop (nat (l + 16)) (pgh.fill hdr (nat len)))
          = overwrite bs (nat (a + l)) (drop (nat l) (pgh.fill hdr (nat len)))"
        using less.prems(2,3) l False
        by (subst chunk, subst overwrite_adjacent [symmetric])
           (auto simp: pgh.length_fill nat_add_distrib ac_simps)
      then have "wp (fill_loop (Ptr b a) len hdr (l + 16)) Q E (set_block b (Some ?bs') w)"
        using less.prems fit True
        by (intro less.hyps [of "l + 16" _ ?bs' "Suc k"]) simp_all
      then show ?thesis
        using True False lt i32 less.prems fit l
        by (subst fill_loop.simps) (simp add: wp_simps nat_add_distrib)
    next
      case last: True
      have "drop (nat l) (pgh.fill hdr (nat len)) = take (nat (len - l)) (hdr_bytes hdr)"
        using pgh.fill_tail [of k "nat len" hdr] True last l
        by (simp add: nat_diff_distrib)
      then have "Q () (set_block b (Some (overwrite bs (nat (a + l)) (take (nat (len - l)) (hdr_bytes hdr)))) w)"
        using less.prems(7) by simp
      moreover have "fill_loop (Ptr b a) len hdr (l + 16) = (ret () :: ('a, 'b, unit) cprog)"
        using last by (subst fill_loop.simps) simp
      ultimately show ?thesis
        using True last lt i32 less.prems l
        by (subst fill_loop.simps) (simp add: wp_simps)
    qed
  qed
qed

lemma sequence_fields [simp]:
  "sequence (after_call K rq w) = sequence w" "sequence (say m w) = sequence w"
  "sequence (set_block b x w) = sequence w" "sequence (new_block bs w) = sequence w"
  by (simp_all add: after_call_def say_def set_block_def new_block_def)

lemma sequence_upd_fields [simp]:
  "kern (w\<lparr>sequence := s\<rparr>) = kern w" "trace (w\<lparr>sequence := s\<rparr>) = trace w"
  "heap (w\<lparr>sequence := s\<rparr>) = heap w" "next_blk (w\<lparr>sequence := s\<rparr>) = next_blk w"
  by simp_all

lemma wp_fill_buf:
  assumes "heap w b = Some bs" "0 \<le> a" "a + len \<le> int (length bs)" "0 \<le> len"
    "len + 16 \<le> INT_MAX"
    and off: "fl_pktgen_hdr p = 0 \<Longrightarrow> Q () w"
    and on: "\<And>h w'. fl_pktgen_hdr p \<noteq> 0 \<Longrightarrow>
       h = fill_hdr (r_time (reply K (Rq_clock_gettime CLOCK_REALTIME_COARSE) w)) (sequence w) \<Longrightarrow>
       w' = set_block b (Some (overwrite bs (nat a) (pgh.fill h (nat len))))
              ((after_call K (Rq_clock_gettime CLOCK_REALTIME_COARSE) w)\<lparr>sequence := sequence w + 1\<rparr>) \<Longrightarrow>
       Q () w'"
  shows "wp (fill_buf K p (Ptr b a) len) Q E w"
  using assms
  by (auto simp: fill_buf_def wp_simps intro!: wp_fill_loop [where k = 0])

definition flood_pre :: "flood_params \<Rightarrow> ('k, 'm) world_scheme \<Rightarrow> bool" where
  "flood_pre p w \<longleftrightarrow> 0 \<le> fl_msg_sz p \<and> fl_msg_sz p + 16 \<le> INT_MAX \<and>
     ss_family (fl_dest_addr p) \<in> {AF_INET, AF_INET6} \<and> wf_heap w"

text \<open>
  The payload of the \<open>i\<close>-th packet: zeros, or the header with the next sequence number, repeated
  to fill the packet.
\<close>

definition payload :: "bool \<Rightarrow> flood_params \<Rightarrow> u32 \<Rightarrow> nat \<Rightarrow> bytes \<Rightarrow> bool" where
  "payload hdr p s i d \<longleftrightarrow>
     (if hdr then \<exists>ts. d = pgh.fill (fill_hdr ts (s + of_nat i)) (nat (fl_msg_sz p))
      else d = replicate (nat (fl_msg_sz p)) 0)"

definition sent :: "(bytes \<Rightarrow> sysreq) \<Rightarrow> bool \<Rightarrow> flood_params \<Rightarrow> u32 \<Rightarrow> nat \<Rightarrow> sysreq \<Rightarrow> bool" where
  "sent mk hdr p s i rq \<longleftrightarrow> (\<exists>d. rq = mk d \<and> payload hdr p s i d)"

definition flood_post ::
  "bool \<Rightarrow> (bytes \<Rightarrow> sysreq) \<Rightarrow> flood_params \<Rightarrow> time_bench_record \<Rightarrow> ('k, 'm) flood_world_scheme
   \<Rightarrow> int \<Rightarrow> time_bench_record \<Rightarrow> ('k, 'm) flood_world_scheme \<Rightarrow> bool" where
  "flood_post hdr mk p r w res r' w' \<longleftrightarrow> heap w' = heap w \<and> wf_heap w' \<and>
     (\<exists>es x. trace w' = trace w @ es
       \<and> loop_result (sent mk hdr p (sequence w)) (fl_count p) (txs es) x
       \<and> (res, r') = flood_result (fl_count p) r x)"

lemma flood_postI:
  assumes "heap w' = heap w" "wf_heap w'" "trace w' = trace w @ es0 @ es" "txs es0 = []"
    "loop_result (sent mk hdr p (sequence w)) (fl_count p) (txs es) x"
    "(res, r') = flood_result (fl_count p) r x"
  shows "flood_post hdr mk p r w res r' w'"
  using assms unfolding flood_post_def
  by (intro conjI exI [of _ "es0 @ es"] exI [of _ x]) simp_all

lemma wp_print_stats:
  assumes "\<And>w'. heap w' = heap w \<Longrightarrow> trace w' = trace w \<Longrightarrow> next_blk w' = next_blk w \<Longrightarrow>
      kern w' = kern w \<Longrightarrow> world.more w' = world.more w \<Longrightarrow> verbose w' = verbose w \<Longrightarrow> Q () w'"
  shows "wp (time_bench_print_stats r c) Q E w"
  unfolding time_bench_print_stats_def
  by (simp add: wp_simps) (auto intro!: assms simp: say_def)

text \<open>What \<open>time_function\<close> does once the send loop has returned.\<close>

lemma wp_flood_tail:
  assumes y: "loop_result R n tx y" and r: "(res, r') = flood_result n r y"
    and n: "0 < n" "n \<le> INT_MAX"
  shows "wp (bnd (time_bench_stop K r') (\<lambda>rec3.
     if res < 0 then
       bnd (eprintf ''ERROR: failed to send packets'' []) (\<lambda>_.
       bnd (syscall K (Rq_close fd)) (\<lambda>_.
       exit_with EXIT_FAIL_SEND))
     else
       bnd (time_bench_calc_stats (rec3\<lparr>packets := to_u64 res\<rparr>)) (\<lambda>rec4.
       bnd (time_bench_print_stats rec4 c) (\<lambda>_.
       ret rec4))))
    (\<lambda>r w'. packets r = to_u64 n \<and> bytes_cnt r = tx_sum tx \<and> tx_run R (nat n) tx \<and>
       (\<exists>a b. trace w' = trace w @ [(Rq_rdtsc, a), (Rq_clock_gettime CLOCK_MONOTONIC, b)]))
    (\<lambda>c w'. c = EXIT_FAIL_TIME \<or> c = EXIT_FAIL_SEND \<and> tx_failed tx \<and>
       (\<exists>a b d. trace w' = trace w @
          [(Rq_rdtsc, a), (Rq_clock_gettime CLOCK_MONOTONIC, b), (Rq_close fd, d)])) w"
proof (cases y)
  case (Inl f)
  with y r have "res = f" "f < 0" "tx_failed tx"
    by (auto simp: loop_result_def flood_result_def)
  then show ?thesis by (simp add: time_bench_stop_def wp_simps Let_def)
next
  case (Inr t)
  with y r n have f: "res = n" "bytes_cnt r' = tx_sum tx" "tx_run R (nat n) tx"
    by (auto simp: loop_result_def flood_result_def)
  have "to_u64 n \<noteq> 0" using n uint_to_u64 [of n] by (auto simp: INT_MAX_def)
  with f n show ?thesis
    by (auto simp: time_bench_stop_def wp_calc_stats wp_simps Let_def intro!: wp_print_stats)
qed

locale flood_sender =
  fixes func :: "('k, 'm) flood_fun"
    and mk :: "int \<Rightarrow> flood_params \<Rightarrow> bytes \<Rightarrow> sysreq"
    and hdr :: "flood_params \<Rightarrow> bool"
  assumes sends: "flood_pre p w \<Longrightarrow>
      wp (func K fd p r) (\<lambda>(res, r') w'. flood_post (hdr p) (mk fd p) p r w res r' w')
        (\<lambda>c w'. c = EXIT_FAIL_MEM) w"
begin

lemma time_function_sends:
  assumes pre: "flood_pre p w" and cnt: "0 < fl_count p" "fl_count p \<le> INT_MAX"
  shows "wp (flood_time_function K fd p func)
    (\<lambda>r w'. \<exists>es. trace w' = trace w @ es
       \<and> tx_run (sent (mk fd p) (hdr p) p (sequence w)) (nat (fl_count p)) (txs es)
       \<and> packets r = to_u64 (fl_count p) \<and> bytes_cnt r = tx_sum (txs es))
    (\<lambda>c w'. c = EXIT_FAIL_MEM \<or> c = EXIT_FAIL_TIME \<or>
       c = EXIT_FAIL_SEND \<and> (\<exists>es. trace w' = trace w @ es \<and> es \<noteq> []
         \<and> fst (last es) = Rq_close fd \<and> tx_failed (txs es))) w"
    (is "wp _ ?Q ?E w")
proof -
  let ?w1 = "after_call K Rq_rdtsc (after_call K (Rq_clock_gettime CLOCK_MONOTONIC) w)"
  have pre1: "flood_pre p ?w1" using pre by (simp add: flood_pre_def wf_heap_def)
  have tail: "wp (bnd (time_bench_stop K r') (\<lambda>rec3.
     if res < 0 then
       bnd (eprintf ''ERROR: failed to send packets'' []) (\<lambda>_.
       bnd (syscall K (Rq_close fd)) (\<lambda>_.
       exit_with EXIT_FAIL_SEND))
     else
       bnd (time_bench_calc_stats (rec3\<lparr>packets := to_u64 res\<rparr>)) (\<lambda>rec4.
       bnd (time_bench_print_stats rec4 (fl_c p)) (\<lambda>_.
       ret rec4)))) ?Q ?E w'"
    if "flood_post (hdr p) (mk fd p) p r ?w1 res r' w'" for r res r' w'
  proof -
    from that obtain es y where es: "trace w' = trace ?w1 @ es"
      and y: "loop_result (sent (mk fd p) (hdr p) p (sequence w)) (fl_count p) (txs es) y"
      and r: "(res, r') = flood_result (fl_count p) r y"
      by (auto simp: flood_post_def)
    show ?thesis
      by (rule wp_conseq [OF wp_flood_tail [OF y r cnt]])
         (auto simp: es)
  qed
  show ?thesis
    unfolding flood_time_function_def time_bench_start_def
    by (simp add: wp_bnd wp_rdtsc wp_gettime wp_ret Let_def, intro impI)
       (rule wp_conseq [OF sends [OF pre1]], auto simp: wp_case_prod tail simp flip: wp_bnd)
qed

end

section \<open>The send loops keep the contract\<close>

text \<open>Between two iterations: the payload buffer is the one new block, and its content.\<close>

definition buf_inv ::
  "bool \<Rightarrow> flood_params \<Rightarrow> ('k, 'm) flood_world_scheme \<Rightarrow> nat \<Rightarrow> nat \<Rightarrow> ('k, 'm) flood_world_scheme \<Rightarrow> bool" where
  "buf_inv hdr p w b j v \<longleftrightarrow> next_blk v = next_blk w \<and>
     (\<exists>bs. heap v = (heap w)(b \<mapsto> bs) \<and> length bs = nat (fl_msg_sz p)
        \<and> (if hdr then sequence v = sequence w + of_nat j else bs = replicate (nat (fl_msg_sz p)) 0))"

lemma msg_sz_u64: "0 \<le> n \<Longrightarrow> n + 16 \<le> INT_MAX \<Longrightarrow> uint (to_u64 n) = n"
  by (simp add: uint_to_u64 INT_MAX_def)

lemma wp_transmit:
  assumes "heap v = (heap w)(b \<mapsto> d)" "length d = nat (fl_msg_sz p)" "next_blk v = next_blk w"
    "if hdr then sequence v = sequence w + of_nat (Suc j) else d = replicate (nat (fl_msg_sz p)) 0"
    "payload hdr p (sequence w) j d" "is_tx (mk d)" "0 \<le> fl_msg_sz p"
  shows "wp (bnd (load (Ptr b 0) (fl_msg_sz p)) (\<lambda>data.
      bnd (syscall K (mk data)) (\<lambda>res.
      if r_ret res < 0 then send_failed m cnt (r_ret res)
      else ret (Inr (t + to_u64 (r_ret res))))))
    (\<lambda>x v'. buf_inv hdr p w b (Suc j) v' \<and> tx_step (sent mk hdr p (sequence w)) j t v x v') E v"
  using assms
  by (auto simp: wp_simps send_failed_def buf_inv_def sent_def tx_step_def)

lemma wp_fill_transmit:
  assumes sz: "0 \<le> fl_msg_sz p" "fl_msg_sz p + 16 \<le> INT_MAX"
    and hdr: "hdr \<longrightarrow> fl_pktgen_hdr p \<noteq> 0" and tx: "\<And>d. is_tx (mk d)"
    and inv: "buf_inv hdr p w b j v"
  shows "wp (bnd (if hdr then fill_buf K p (Ptr b 0) (fl_msg_sz p) else ret ()) (\<lambda>_.
      bnd (load (Ptr b 0) (fl_msg_sz p)) (\<lambda>data.
      bnd (syscall K (mk data)) (\<lambda>res.
      if r_ret res < 0 then send_failed m cnt (r_ret res)
      else ret (Inr (t + to_u64 (r_ret res)))))))
    (\<lambda>x v'. buf_inv hdr p w b (Suc j) v' \<and> tx_step (sent mk hdr p (sequence w)) j t v x v') E v"
proof (cases hdr)
  case False
  with inv have "heap v = (heap w)(b \<mapsto> replicate (nat (fl_msg_sz p)) 0)" "next_blk v = next_blk w"
    by (simp_all add: buf_inv_def)
  with False sz tx show ?thesis
    by (simp only: if_False bnd_ret) (rule wp_transmit, auto simp: payload_def)
next
  case True
  with inv obtain bs where bs: "heap v = (heap w)(b \<mapsto> bs)" "length bs = nat (fl_msg_sz p)"
    and s: "sequence v = sequence w + of_nat j" and n: "next_blk v = next_blk w"
    by (auto simp: buf_inv_def)
  have "wp (fill_buf K p (Ptr b 0) (fl_msg_sz p)) (\<lambda>_ v'. \<exists>d es. heap v' = (heap w)(b \<mapsto> d)
      \<and> length d = nat (fl_msg_sz p) \<and> next_blk v' = next_blk w
      \<and> sequence v' = sequence w + of_nat (Suc j)
      \<and> payload True p (sequence w) j d \<and> trace v' = trace v @ es \<and> txs es = []) E v"
    by (rule wp_fill_buf [of v b bs])
       (use hdr True sz bs s n in \<open>auto simp: pgh.length_fill payload_def overwrite_all\<close>)
  then show ?thesis unfolding wp_bnd [of _ "\<lambda>_. bnd _ _"] eqTrueI [OF True] if_True
  proof (rule wp_conseq, goal_cases)
    case (1 u v')
    then obtain d es where d: "heap v' = (heap w)(b \<mapsto> d)" "length d = nat (fl_msg_sz p)"
      "next_blk v' = next_blk w" "sequence v' = sequence w + of_nat (Suc j)"
      "payload True p (sequence w) j d" and es: "trace v' = trace v @ es" "txs es = []" by blast
    show ?case
      by (rule wp_conseq [OF wp_transmit [where hdr = True and mk = mk and d = d and v = v' and w = w]])
         (use d es tx sz in \<open>auto intro: tx_step_later [OF es]\<close>)
  qed
qed

text \<open>A whole loop, on a buffer that was just allocated, and the release of the buffer.\<close>

lemma wp_flood_loop:
  fixes v w :: "('k, 'm) flood_world_scheme"
  assumes pre: "flood_pre p w" and hdr: "hdr \<longrightarrow> fl_pktgen_hdr p \<noteq> 0" and tx: "\<And>d. is_tx (mk d)"
    and heap: "heap v = (heap w)(b \<mapsto> replicate (nat (fl_msg_sz p)) 0)"
    and same: "next_blk v = next_blk w" "sequence v = sequence w"
  shows "wp (for_break 0 (fl_count p) (\<lambda>cnt t.
      bnd (if hdr then fill_buf K p (Ptr b 0) (fl_msg_sz p) else ret ()) (\<lambda>_.
      bnd (load (Ptr b 0) (fl_msg_sz p)) (\<lambda>data.
      bnd (syscall K (mk data)) (\<lambda>res.
      if r_ret res < 0 then send_failed m cnt (r_ret res)
      else ret (Inr (t + to_u64 (r_ret res))))))) 0)
    (\<lambda>x v'. next_blk v' = next_blk w \<and> (\<exists>bs. heap v' = (heap w)(b \<mapsto> bs)) \<and>
       (\<exists>es. trace v' = trace v @ es \<and>
          loop_result (sent mk hdr p (sequence w)) (fl_count p) (txs es) x)) E v"
proof (rule wp_conseq [where E = E], rule wp_tx_loop [where J = "buf_inv hdr p w b"
        and R = "sent mk hdr p (sequence w)"], goal_cases)
  case 1
  from heap same show ?case
    unfolding buf_inv_def by (intro conjI exI [of _ "replicate (nat (fl_msg_sz p)) 0"]) auto
next
  case (2 cnt t v)
  from pre have "0 \<le> fl_msg_sz p" "fl_msg_sz p + 16 \<le> INT_MAX" by (simp_all add: flood_pre_def)
  then show ?case by (rule wp_fill_transmit [OF _ _ hdr tx 2(3)])
qed (auto simp: buf_inv_def)

definition addr_len_of :: "sockaddr_storage \<Rightarrow> int" where
  "addr_len_of a = (if ss_family a = AF_INET then sizeof_sockaddr_in else sizeof_sockaddr_in6)"

lemma sockaddr_len_ok:
  "ss_family a \<in> {AF_INET, AF_INET6} \<Longrightarrow> sockaddr_len a = ret (addr_len_of a)"
  by (auto simp: sockaddr_len_def addr_len_of_def)

text \<open>A loop between the allocation of its buffer and the release of it keeps the contract.\<close>

lemma wp_with_buffer:
  assumes pre: "flood_pre p w" and hdr: "hdr \<longrightarrow> fl_pktgen_hdr p \<noteq> 0" and tx: "\<And>d. is_tx (mk d)"
    and fill: "\<And>buf. fill buf = (if hdr then fill_buf K p buf (fl_msg_sz p) else ret ())"
  shows "wp (bnd (malloc_payload_buffer K (fl_msg_sz p)) (\<lambda>msg_buf.
      bnd (for_break 0 (fl_count p) (\<lambda>cnt t.
        bnd (fill msg_buf) (\<lambda>_.
        bnd (load msg_buf (uint (to_u64 (fl_msg_sz p)))) (\<lambda>data.
        bnd (syscall K (mk data)) (\<lambda>res.
        if r_ret res < 0 then send_failed m cnt (r_ret res)
        else ret (Inr (t + to_u64 (r_ret res))))))) 0) (\<lambda>x.
      bnd (free msg_buf) (\<lambda>_.
      ret (flood_result (fl_count p) r x)))))
    (\<lambda>(res, r') w'. flood_post hdr mk p r w res r' w') (\<lambda>c w'. c = EXIT_FAIL_MEM) w"
proof -
  from pre have sz: "0 \<le> fl_msg_sz p" "fl_msg_sz p + 16 \<le> INT_MAX" and wf: "wf_heap w"
    by (simp_all add: flood_pre_def)
  then have u: "uint (to_u64 (fl_msg_sz p)) = fl_msg_sz p" by (rule_tac msg_sz_u64)
  then have un: "unat (to_u64 (fl_msg_sz p)) = nat (fl_msg_sz p)" by (simp add: unat_eq_nat_uint)
  show ?thesis
    unfolding wp_bnd [of "malloc_payload_buffer _ _"] u fill
  proof (rule wp_malloc_payload_buffer, goal_cases)
    case (2 w1 rr)
    let ?b = "next_blk w"
    let ?w = "w1\<lparr>heap := heap w\<rparr>"
    have s: "sequence w1 = sequence w" using 2 by (cases w; cases w1) simp
    have pre1: "flood_pre p ?w" using pre 2 by (auto simp: flood_pre_def wf_heap_def)
    show ?case
      unfolding wp_bnd [of "for_break _ _ _ _"]
      by (rule wp_conseq [OF wp_flood_loop [OF pre1 hdr tx, where b = ?b and v = w1]])
         (use 2 s un wf in \<open>auto simp: wp_simps flood_post_def fun_upd_idem wf_heap_def
            intro!: exI [of _ "(_, rr) # _"]\<close>)
  qed simp
qed

interpretation fl_sendto: flood_sender flood_with_sendto
  "\<lambda>fd p d. Rq_sendto fd d 0 (fl_dest_addr p) (addr_len_of (fl_dest_addr p))" "\<lambda>p. fl_pktgen_hdr p \<noteq> 0"
proof
  fix p :: flood_params and w :: "('a, 'b) flood_world_scheme" and K fd r
  assume pre: "flood_pre p w"
  then have a: "ss_family (fl_dest_addr p) \<in> {AF_INET, AF_INET6}"
    by (simp add: flood_pre_def)
  show "wp (flood_with_sendto K fd p r)
     (\<lambda>(res, r') w'. flood_post (fl_pktgen_hdr p \<noteq> 0)
        (\<lambda>d. Rq_sendto fd d 0 (fl_dest_addr p) (addr_len_of (fl_dest_addr p))) p r w res r' w')
     (\<lambda>c w'. c = EXIT_FAIL_MEM) w"
    unfolding flood_with_sendto_def
    by (simp only: sockaddr_len_ok [OF a] bnd_ret) (rule wp_with_buffer [OF pre], simp_all add: fill_buf_def)
qed

interpretation fl_send: flood_sender flood_with_send "\<lambda>fd p d. Rq_send fd d 0" "\<lambda>p. False"
proof
  fix p :: flood_params and w :: "('a, 'b) flood_world_scheme" and K fd r
  assume pre: "flood_pre p w"
  show "wp (flood_with_send K fd p r) (\<lambda>(res, r') w'. flood_post False (\<lambda>d. Rq_send fd d 0) p r w res r' w')
     (\<lambda>c w'. c = EXIT_FAIL_MEM) w"
    using wp_with_buffer [OF pre, of False "\<lambda>d. Rq_send fd d 0" "\<lambda>_. ret ()" K "''- send''" r]
    by (simp add: flood_with_send_def)
qed

interpretation fl_write: flood_sender flood_with_write "\<lambda>fd p d. Rq_write fd d" "\<lambda>p. fl_pktgen_hdr p \<noteq> 0"
proof
  fix p :: flood_params and w :: "('a, 'b) flood_world_scheme" and K fd r
  assume pre: "flood_pre p w"
  show "wp (flood_with_write K fd p r)
     (\<lambda>(res, r') w'. flood_post (fl_pktgen_hdr p \<noteq> 0) (\<lambda>d. Rq_write fd d) p r w res r' w')
     (\<lambda>c w'. c = EXIT_FAIL_MEM) w"
    unfolding flood_with_write_def
    by (rule wp_with_buffer [OF pre]) (simp_all add: fill_buf_def)
qed

text \<open>\<open>sendmsg\<close> with a vector of one element reads the payload buffer.\<close>

lemma gather_single: "gather [v] = load (iov_base v) (uint (iov_len v))"
  by (simp del: ret_run)

lemma setup_iov_single:
  assumes "heap w b = Some bs" "0 \<le> k" "16 * k + 16 \<le> int (length bs)" "Q [\<lparr>iov_base = buf, iov_len = len\<rparr>] w"
  shows "wp (setup_iov (Ptr b 0) k buf incr len 1) Q E w"
proof -
  have "ptr_add buf 0 = buf" by (cases buf) simp_all
  with assms show ?thesis
    by (simp add: setup_iov_def for_loop.simps [of 0] for_loop.simps [of 1] wp_simps)
qed

lemma uint_msg_sz_u32: "0 \<le> n \<Longrightarrow> n + 16 \<le> INT_MAX \<Longrightarrow> uint (word_of_int n :: u32) = n"
  by (simp add: uint_word_of_int INT_MAX_def)

lemma world_more_sequence: "world.more w = world.more v \<Longrightarrow> sequence w = sequence v"
  by (cases w; cases v) simp

lemma wp_sendmsg_loop:
  assumes pre: "flood_pre p w" and tx: "\<And>d. is_tx (mk d)"
    and heap: "heap v = (heap w)(b \<mapsto> replicate (nat (fl_msg_sz p)) 0, b1 \<mapsto> x1, b2 \<mapsto> x2)"
    and b: "distinct [b, b1, b2]" "heap w b = None" "heap w b1 = None" "heap w b2 = None"
    and same: "\<forall>i \<ge> next_blk v. heap v i = None" "sequence v = sequence w"
    and tr: "trace v = trace w @ es0" "txs es0 = []"
  shows "wp (bnd (for_break 0 (fl_count p) (\<lambda>cnt t.
        bnd (fill_buf K p (Ptr b 0) (fl_msg_sz p)) (\<lambda>_.
        bnd (load (Ptr b 0) (fl_msg_sz p)) (\<lambda>data.
        bnd (syscall K (mk data)) (\<lambda>res.
        if r_ret res < 0 then send_failed m cnt (r_ret res)
        else ret (Inr (t + to_u64 (r_ret res))))))) 0) (\<lambda>x.
      bnd (free (Ptr b2 0)) (\<lambda>_.
      bnd (free (Ptr b1 0)) (\<lambda>_.
      bnd (free (Ptr b 0)) (\<lambda>_.
      ret (flood_result (fl_count p) r x))))))
    (\<lambda>(res, r') w'. flood_post (fl_pktgen_hdr p \<noteq> 0) mk p r w res r' w') E v"
proof -
  let ?w = "v\<lparr>heap := (heap v)(b := None)\<rparr>"
  let ?hdr = "fl_pktgen_hdr p \<noteq> 0"
  have pre1: "flood_pre p ?w" using pre same by (auto simp: flood_pre_def wf_heap_def)
  have fill: "fill_buf K p (Ptr b 0) (fl_msg_sz p)
      = (if ?hdr then fill_buf K p (Ptr b 0) (fl_msg_sz p) else ret ())"
    by (simp add: fill_buf_def)
  have wf: "heap w i = None" if "next_blk v \<le> i" for i
  proof -
    have "heap v i = None" using same(1) that by blast
    then show ?thesis by (simp add: heap fun_upd_apply split: if_splits)
  qed
  have freed: "(heap w)(b2 := None, b1 := None, b := None) = heap w"
    using b by (auto simp: fun_eq_iff)
  have hv: "(heap v)(b := y) = (heap w)(b1 \<mapsto> x1, b2 \<mapsto> x2, b := y)" for y
    using b unfolding heap by (auto simp: fun_eq_iff)
  have vb: "heap v = (heap w)(b1 \<mapsto> x1, b2 \<mapsto> x2, b \<mapsto> replicate (nat (fl_msg_sz p)) 0)"
    using b unfolding heap by (auto simp: fun_eq_iff)
  show ?thesis
    unfolding wp_bnd [of "for_break _ _ _ _"]
    by (subst fill, rule wp_conseq [OF wp_flood_loop [OF pre1 _ tx, where b = b and v = v and hdr = ?hdr]])
       (use same tr b in \<open>auto simp: wp_simps wf_heap_def wf hv freed vb [symmetric]
         intro!: flood_postI [of _ _ es0]\<close>)
qed

interpretation fl_sendmsg: flood_sender flood_with_sendmsg
  "\<lambda>fd p d. Rq_sendmsg fd (fl_dest_addr p) (addr_len_of (fl_dest_addr p)) d 0" "\<lambda>p. fl_pktgen_hdr p \<noteq> 0"
proof
  fix p :: flood_params and w :: "('a, 'b) flood_world_scheme" and K fd r
  assume pre: "flood_pre p w"
  then have a: "ss_family (fl_dest_addr p) \<in> {AF_INET, AF_INET6}" and wf: "wf_heap w"
    and sz: "0 \<le> fl_msg_sz p" "fl_msg_sz p + 16 \<le> INT_MAX"
    by (simp_all add: flood_pre_def)
  have un: "unat (to_u64 (fl_msg_sz p)) = nat (fl_msg_sz p)"
    using msg_sz_u64 [OF sz] by (simp add: unat_eq_nat_uint)
  show "wp (flood_with_sendmsg K fd p r)
     (\<lambda>(res, r') w'. flood_post (fl_pktgen_hdr p \<noteq> 0)
        (\<lambda>d. Rq_sendmsg fd (fl_dest_addr p) (addr_len_of (fl_dest_addr p)) d 0) p r w res r' w')
     (\<lambda>c w'. c = EXIT_FAIL_MEM) w"
    unfolding flood_with_sendmsg_def Let_def sockaddr_len_ok [OF a] bnd_ret
  proof (rule wp_alloc_message, goal_cases)
    case (2 b w3 r1 r2 r3)
    have s: "sequence w3 = sequence w" using 2(4) by (rule world_more_sequence)
    have h: "heap w3 = (heap w)(b \<mapsto> replicate (nat (fl_msg_sz p)) 0,
        Suc b \<mapsto> replicate 56 0, Suc (Suc b) \<mapsto> replicate 16 0)"
      using 2(2) un by (simp add: iovec_memsz_def)
    have wf3: "\<forall>i \<ge> next_blk w3. heap w3 i = None"
      using wf 2(1,3) unfolding h by (auto simp: wf_heap_def)
    show ?case
      unfolding wp_bnd [of "setup_iov _ _ _ _ _ _"]
    proof (rule setup_iov_single [where bs = "replicate 16 0"], goal_cases)
      case 4
      show ?case
        unfolding gather_single iovec.simps iov_part_def div_by_1 uint_u32_u64 uint_msg_sz_u32 [OF sz]
        by (rule wp_sendmsg_loop [OF pre _ h _ _ _ _ wf3 s 2(5)])
           (use wf 2(1) in \<open>simp_all add: wf_heap_def\<close>)
    qed (use sz h in simp_all)
  qed simp
qed

section \<open>Properties\<close>

text \<open>A process of \<open>udp_flood\<close> at its start, and a kernel on which every call succeeds.\<close>

definition flood_boot :: "'k \<Rightarrow> 'k flood_world" where
  "flood_boot k = \<lparr>kern = k, errno = 0, verbose = 0, heap = Map.empty, next_blk = 0, trace = [],
     out = [], sequence = 0\<rparr>"

definition obliging :: "unit kernel" where
  "obliging rq k = (sysres_of 1 0, k)"

definition loopback :: sockaddr_storage where
  "loopback = sockaddr_zero\<lparr>ss_family := AF_INET, sin_addr := [127, 0, 0, 1], sin_port := htons 6666\<rparr>"

lemma flood_boot_pre:
  "0 \<le> fl_msg_sz p \<Longrightarrow> fl_msg_sz p + 16 \<le> INT_MAX \<Longrightarrow> ss_family (fl_dest_addr p) \<in> {AF_INET, AF_INET6} \<Longrightarrow>
   flood_pre p (flood_boot k)"
  by (simp add: flood_pre_def flood_boot_def wf_heap_def)

text \<open>
  C14.  \<open>fill_buf\<close> writes the header over the whole packet and nothing else.  With
  \<open>--pktgen-header\<close>, on a place of \<open>len\<close> bytes inside a block, it returns; every whole
  16-byte slot of the packet then decodes to one header with the magic number in network
  order, the current value of the static counter and the time the clock gave, the rest of the
  packet is the beginning of that header again, the bytes around the packet are unchanged,
  and the counter has gone up by one.
\<close>

theorem fill_buf_fills_packet:
  assumes "fl_pktgen_hdr p \<noteq> 0" "heap w b = Some bs" "0 \<le> len" "len + 16 \<le> INT_MAX"
    and "a + nat len \<le> length bs"
  shows "\<exists>w' bs' ts. fill_buf K p (Ptr b (int a)) len w = (Done (), w')
    \<and> new_events w w' = [(Rq_clock_gettime CLOCK_REALTIME_COARSE, ts)]
    \<and> heap w' = (heap w)(b \<mapsto> bs') \<and> length bs' = length bs
    \<and> take a bs' = take a bs \<and> drop (a + nat len) bs' = drop (a + nat len) bs
    \<and> (\<forall>k < nat len div 16. hdr_of (take 16 (drop (a + k * 16) bs')) = fill_hdr (r_time ts) (sequence w))
    \<and> take (nat len mod 16) (drop (a + nat len div 16 * 16) bs')
        = take (nat len mod 16) (hdr_bytes (fill_hdr (r_time ts) (sequence w)))
    \<and> sequence w' = sequence w + 1"
proof -
  let ?n = "nat len"
  let ?ts = "reply K (Rq_clock_gettime CLOCK_REALTIME_COARSE) w"
  let ?h = "fill_hdr (r_time ?ts) (sequence w)"
  let ?bs = "overwrite bs a (pgh.fill ?h ?n)"
  have fit: "a + length (pgh.fill ?h ?n) \<le> length bs" using assms by (simp add: pgh.length_fill)
  have chunk: "take m (drop (a + k) ?bs) = take m (drop k (pgh.fill ?h ?n))" if "k + m \<le> ?n" for k m
    using fit that by (simp add: overwrite_def pgh.length_fill)
  have slots: "hdr_of (take 16 (drop (a + k * 16) ?bs)) = ?h" if "k < ?n div 16" for k
  proof -
    have "k * 16 + 16 \<le> ?n" using that by linarith
    then show ?thesis using pgh.fill_decode [of k ?n ?h] by (simp add: chunk)
  qed
  have tail: "take (?n mod 16) (drop (a + ?n div 16 * 16) ?bs) = take (?n mod 16) (hdr_bytes ?h)"
  proof -
    have "?n div 16 * 16 + ?n mod 16 = ?n" by simp
    then show ?thesis
      using pgh.fill_tail [of "?n div 16" ?n ?h] dividend_less_div_times [of 16 ?n]
      by (subst chunk) (simp_all add: minus_div_mult_eq_mod)
  qed
  have around: "take a ?bs = take a bs" "drop (a + ?n) ?bs = drop (a + ?n) bs" "length ?bs = length bs"
    using fit by (simp_all add: overwrite_def pgh.length_fill)
  have "wp (fill_buf K p (Ptr b (int a)) len) (\<lambda>u w'.
      new_events w w' = [(Rq_clock_gettime CLOCK_REALTIME_COARSE, ?ts)] \<and> heap w' = (heap w)(b \<mapsto> ?bs)
      \<and> sequence w' = sequence w + 1) (\<lambda>_ _. False) w"
    using assms by (intro wp_fill_buf [of w b bs]) auto
  then show ?thesis
    by (rule wp_cases) (use slots tail around in \<open>auto intro!: exI [of _ ?ts]\<close>)
qed

theorem fill_buf_fills_packet_witness:
  "\<exists>w' bs' ts. fill_buf obliging (flood_init_params\<lparr>fl_pktgen_hdr := 1\<rparr>) (Ptr 0 (int 3)) 18
       ((flood_boot ())\<lparr>heap := [0 \<mapsto> replicate 30 7]\<rparr>) = (Done (), w')
    \<and> heap w' = [0 \<mapsto> bs'] \<and> take 3 bs' = replicate 3 7
    \<and> hdr_of (take 16 (drop 3 bs')) = fill_hdr ts 0 \<and> sequence w' = 1"
  using fill_buf_fills_packet [of "flood_init_params\<lparr>fl_pktgen_hdr := 1\<rparr>"
      "(flood_boot ())\<lparr>heap := [0 \<mapsto> replicate 30 7]\<rparr>" 0 "replicate 30 7" 18 3 obliging]
  by (auto simp: flood_boot_def INT_MAX_def)

text \<open>The functions that write the header, each with the request it sends a payload with.\<close>

definition header_senders ::
  "(('k, 'm) flood_fun \<times> (int \<Rightarrow> flood_params \<Rightarrow> bytes \<Rightarrow> sysreq)) list" where
  "header_senders =
     [(flood_with_sendto, \<lambda>fd p d. Rq_sendto fd d 0 (fl_dest_addr p) (addr_len_of (fl_dest_addr p))),
      (flood_with_write, \<lambda>fd p d. Rq_write fd d),
      (flood_with_sendmsg, \<lambda>fd p d. Rq_sendmsg fd (fl_dest_addr p) (addr_len_of (fl_dest_addr p)) d 0)]"

text \<open>
  C4.  A measured test with \<open>sendto\<close>, \<open>write\<close> or \<open>sendmsg\<close> transmits exactly what was asked for.
  From any state with a well-formed heap and on any kernel, \<open>time_function\<close> ends without undefined
  behaviour.  When it returns, exactly \<open>--count\<close> transmissions were made, all with the one call,
  socket and destination, none of them failed, the \<open>i\<close>-th carries the payload with
  sequence number \<open>sequence + i\<close> (or zeros without the header), and the record's packets and bytes
  are that count and the sum of the results.  It exits only for lack of memory, for a failing
  clock, or, after closing the socket, with \<open>EXIT_FAIL_SEND\<close> when a transmission did fail.
\<close>

theorem flood_test_transmits:
  fixes func :: "('k, 'm) flood_fun"
  assumes "(func, mk) \<in> set header_senders"
    and "flood_pre p w" "0 < fl_count p" "fl_count p \<le> INT_MAX"
  shows "wp (flood_time_function K fd p func)
    (\<lambda>r w'. \<exists>es. trace w' = trace w @ es
       \<and> tx_run (sent (mk fd p) (fl_pktgen_hdr p \<noteq> 0) p (sequence w)) (nat (fl_count p)) (txs es)
       \<and> packets r = to_u64 (fl_count p) \<and> bytes_cnt r = tx_sum (txs es))
    (\<lambda>c w'. c = EXIT_FAIL_MEM \<or> c = EXIT_FAIL_TIME \<or>
       c = EXIT_FAIL_SEND \<and> (\<exists>es. trace w' = trace w @ es \<and> es \<noteq> []
         \<and> fst (last es) = Rq_close fd \<and> tx_failed (txs es))) w"
  using assms fl_sendto.time_function_sends [of p w K fd] fl_write.time_function_sends [of p w K fd]
    fl_sendmsg.time_function_sends [of p w K fd]
  by (auto simp: header_senders_def)

definition flood_test_params :: flood_params where
  "flood_test_params = flood_init_params\<lparr>fl_pktgen_hdr := 1, fl_count := 2, fl_dest_addr := loopback\<rparr>"

theorem flood_test_transmits_witness:
  "wp (flood_time_function obliging 3 flood_test_params flood_with_write)
    (\<lambda>r w'. length (txs (trace w')) = 2 \<and> packets r = 2) (\<lambda>c w'. c \<in> {1, 3, 103}) (flood_boot ())"
  by (rule wp_conseq [OF flood_test_transmits [of flood_with_write "\<lambda>fd p d. Rq_write fd d"
         flood_test_params "flood_boot ()" obliging 3]])
     (auto simp: header_senders_def flood_test_params_def flood_init_params_def loopback_def
       sockaddr_zero_def flood_pre_def flood_boot_def wf_heap_def INT_MAX_def tx_run_def c_consts
       to_u64_def)

text \<open>
  C23.  \<open>--send\<close> never writes the header.  The test with \<open>send\<close> transmits \<open>--count\<close> packets of
  zeros whether or not \<open>--pktgen-header\<close> is given.
\<close>

theorem flood_send_ignores_header:
  assumes "flood_pre p w" "0 < fl_count p" "fl_count p \<le> INT_MAX"
  shows "wp (flood_time_function K fd p flood_with_send)
    (\<lambda>r w'. \<exists>es. trace w' = trace w @ es
       \<and> map fst (txs es) = replicate (nat (fl_count p)) (Rq_send fd (replicate (nat (fl_msg_sz p)) 0) 0)
       \<and> packets r = to_u64 (fl_count p) \<and> bytes_cnt r = tx_sum (txs es))
    (\<lambda>c w'. c = EXIT_FAIL_MEM \<or> c = EXIT_FAIL_TIME \<or> c = EXIT_FAIL_SEND) w"
proof (rule wp_conseq [OF fl_send.time_function_sends [OF assms]], goal_cases)
  case (1 r w')
  then obtain es where es: "trace w' = trace w @ es"
    and run: "tx_run (sent (\<lambda>d. Rq_send fd d 0) False p (sequence w)) (nat (fl_count p)) (txs es)"
    and rec: "packets r = to_u64 (fl_count p)" "bytes_cnt r = tx_sum (txs es)" by blast
  from run have "map fst (txs es)
      = replicate (nat (fl_count p)) (Rq_send fd (replicate (nat (fl_msg_sz p)) 0) 0)"
    by (auto simp: tx_run_def sent_def payload_def list_eq_iff_nth_eq)
  with es rec show ?case by blast
qed auto

theorem flood_send_ignores_header_witness:
  "wp (flood_time_function obliging 3 flood_test_params flood_with_send)
    (\<lambda>r w'. map fst (txs (trace w')) = replicate 2 (Rq_send 3 (replicate 18 0) 0))
    (\<lambda>c w'. c \<in> {1, 3, 103}) (flood_boot ())"
  by (rule wp_conseq [OF flood_send_ignores_header [of flood_test_params "flood_boot ()" obliging 3]])
     (auto simp: flood_test_params_def flood_init_params_def loopback_def
       sockaddr_zero_def flood_pre_def flood_boot_def wf_heap_def INT_MAX_def c_consts)

end
