(* ===== verification/UdpSink.thy ===== *)
theory UdpSink
  imports CommonSocket
begin

text \<open>
  \<open>src/src/udp_sink.c\<close>: the receiver.  Each \<open>sink_with_*\<close> function receives \<open>--count\<close> packets with
  one system call, \<open>__check_pkt\<close> checks the pktgen header of a packet against the previous one,
  \<open>time_function\<close> measures repeated runs and \<open>main\<close> runs the selected tests.  The model's state is
  the process together with the static variable \<open>last\<close> of \<open>__check_pkt\<close>.
\<close>

section \<open>Data\<close>

definition RUN_RECVMSG :: int where [c_consts]: "RUN_RECVMSG = 0x1"
definition RUN_RECVMMSG :: int where [c_consts]: "RUN_RECVMMSG = 0x2"
definition RUN_RECVFROM :: int where [c_consts]: "RUN_RECVFROM = 0x4"
definition RUN_READ :: int where [c_consts]: "RUN_READ = 0x8"
definition RUN_RECV :: int where [c_consts]: "RUN_RECV = 0x10"
definition sink_RUN_ALL :: int where [c_consts]:
  "sink_RUN_ALL = RUN_RECVMSG OR RUN_RECVMMSG OR RUN_RECVFROM OR RUN_READ OR RUN_RECV"

definition SO_ATTACH_REUSEPORT_CBPF :: int where [c_consts]: "SO_ATTACH_REUSEPORT_CBPF = 51"
definition SO_REUSEPORT :: int where [c_consts]: "SO_REUSEPORT = 15"

text \<open>
  The parameters, with the statistics they also hold; the three counters are of type
  \<open>long long\<close> and only ever incremented, once or twice per packet.
\<close>

record sink_params =
  sk_c :: params_common
  lite :: int
  iov_elems :: int
  batch :: int
  count :: int
  repeat :: int
  waitforone :: int
  dontwait :: int
  bad_addr :: int
  recv_ttl :: int
  recv_pktinfo :: int
  sk_timeout :: int
  timeout :: int
  check :: int
  sender_addr :: sockaddr_storage
  so_reuseport :: int
  use_bpf :: int
  buf_sz :: int
  run_flag :: int
  run_flag_curr :: int
  ooo :: int
  bad_magic :: int
  bad_repeat :: int

record 'k sink_world = "'k world" +
  last_hdr :: pktgen_hdr

type_synonym ('k, 'm, 'a) sprog = "(('k, 'm) sink_world_scheme, 'a) prog"

definition sink_long_options :: "long_opt list" where
  "sink_long_options = map (\<lambda>(n, a, v). \<lparr>opt_name = n, opt_has_arg = a, opt_flag = None, opt_val = v\<rparr>)
     [(''read'', no_argument, of_char (CHR ''T'')),
      (''recvfrom'', no_argument, of_char (CHR ''t'')),
      (''recvmsg'', no_argument, of_char (CHR ''u'')),
      (''recvmmsg'', no_argument, of_char (CHR ''U'')),
      (''recv'', no_argument, 176),
      (''help'', no_argument, of_char (CHR ''h'')),
      (''ipv4'', no_argument, of_char (CHR ''4'')),
      (''ipv6'', no_argument, of_char (CHR ''6'')),
      (''reuse-port'', no_argument, of_char (CHR ''s'')),
      (''use-bpf'', no_argument, 0),
      (''waitforone'', no_argument, of_char (CHR ''O'')),
      (''timeout'', required_argument, of_char (CHR ''i'')),
      (''sk-timeout'', required_argument, of_char (CHR ''I'')),
      (''check-pktgen'', optional_argument, 0),
      (''nr-iovec'', required_argument, 0),
      (''check-sender'', required_argument, of_char (CHR ''S'')),
      (''lite'', no_argument, of_char (CHR ''L'')),
      (''dontwait'', no_argument, of_char (CHR ''d'')),
      (''use-bad-ptr'', required_argument, of_char (CHR ''B'')),
      (''recv-ttl'', no_argument, 0),
      (''recv-pktinfo'', no_argument, 0),
      (''batch'', required_argument, of_char (CHR ''b'')),
      (''count'', required_argument, of_char (CHR ''c'')),
      (''port'', required_argument, of_char (CHR ''l'')),
      (''payload'', required_argument, of_char (CHR ''m'')),
      (''repeat'', required_argument, of_char (CHR ''r'')),
      (''verbose'', optional_argument, of_char (CHR ''v'')),
      (''connect'', optional_argument, of_char (CHR ''C''))]"

definition sink_DEFAULT_COUNT :: int where [c_consts]: "sink_DEFAULT_COUNT = 1000000"

definition sink_usage :: "string \<Rightarrow> ('k, 'm, int) cprog" where
  "sink_usage argv0 =
     bnd (printf ''DOCUMENTATION: This tool is a UDP sink that measures the incoming packet rate, it expects a continuous flow of UDP packets (up to --count per test). Default it cycles through different ways/function-calls to receive packets.  What function-call to invoke can also be specified as a command line option (see below)'' []) (\<lambda>_.
     bnd (printf '' Default receives %d packets per test, adjust via --count'' [PI sink_DEFAULT_COUNT]) (\<lambda>_.
     bnd (printf '' Usage: %s (options-see-below)'' [PS argv0]) (\<lambda>_.
     bnd (printf '' Listing options:'' []) (\<lambda>_.
     bnd (list_options '' --%-12s'' sink_long_options) (\<lambda>_.
     bnd (printf '' Multiple tests can be selected: default: all tests -u -U -t -T: run any combination of recvmsg/recvmmsg/recvfrom/read'' []) (\<lambda>_.
     bnd (printf ''Hint: Following options takes an optional argument: verbose=N and check-pktgen=N Notice must be specified with an equal sign (due to strange choice of getopt_long)'' []) (\<lambda>_.
     ret EXIT_FAIL_OPTION)))))))"

section \<open>__check_pkt\<close>

text \<open>The local variables of the loop.\<close>

record ck_vars =
  ck_offset :: int
  ck_i :: int
  ck_hdr :: int
  ck_len :: int
  ck_cur_len :: int
  ck_current :: pktgen_hdr

definition iov_at :: "iovec list \<Rightarrow> int \<Rightarrow> ('s, iovec) prog" where
  "iov_at iov i = (if 0 \<le> i \<and> i < int (length iov) then ret (iov ! nat i) else ub Out_of_bounds)"

text \<open>\<open>cur_len = len < iov[i].iov_len ? len : iov[i].iov_len\<close>, compared as \<open>size_t\<close>.\<close>

definition bucket_len :: "int \<Rightarrow> iovec \<Rightarrow> int" where
  "bucket_len len v = u64_to_int (if to_u64 len < iov_len v then to_u64 len else iov_len v)"

text \<open>
  The bytes of the next header, from one bucket or from two.  \<open>None\<close>: the second part would be in
  a bucket that does not exist.
\<close>

definition header_at ::
  "iovec list \<Rightarrow> int \<Rightarrow> int \<Rightarrow> int \<Rightarrow> int \<Rightarrow> ('k, 'm, bytes option) cprog" where
  "header_at iov nr i offset first_chunk =
     bnd (iov_at iov i) (\<lambda>v.
     if to_u64 first_chunk < to_u64 sizeof_pktgen_hdr then
       bnd (load (ptr_add (iov_base v) offset) first_chunk) (\<lambda>part1.
       let second_chunk = sizeof_pktgen_hdr - first_chunk in
       if nr \<le> i + 1 then ret None
       else
         bnd (iov_at iov (i + 1)) (\<lambda>v'.
         bnd (load (iov_base v') second_chunk) (\<lambda>part2.
         ret (Some (part1 @ part2)))))
     else
       bnd (load (ptr_add (iov_base v) offset) sizeof_pktgen_hdr) (\<lambda>bs.
       ret (Some bs)))"

text \<open>The order of two headers: by time, then by sequence number unless it is about to wrap.\<close>

definition out_of_order :: "pktgen_hdr \<Rightarrow> pktgen_hdr \<Rightarrow> bool" where
  "out_of_order lst pgh \<longleftrightarrow>
     tv_sec32 pgh < tv_sec32 lst \<or>
     (tv_sec32 pgh = tv_sec32 lst \<and> tv_usec32 pgh < tv_usec32 lst) \<or>
     (tv_sec32 pgh = tv_sec32 lst \<and> tv_usec32 pgh = tv_usec32 lst \<and>
      seq_num pgh < seq_num lst \<and> seq_num lst < 3 * 1000 * 1000 * 1000)"

text \<open>The checks of the first header of a packet.\<close>

definition check_first :: "pktgen_hdr \<Rightarrow> pktgen_hdr \<Rightarrow> sink_params \<Rightarrow> sink_params" where
  "check_first lst pgh p0 =
     (let p1 = (if ntohl (pgh_magic pgh) \<noteq> PKTGEN_MAGIC then p0\<lparr>bad_magic := bad_magic p0 + 1\<rparr> else p0);
          p2 = (if pgh_magic lst \<noteq> 0 \<and> out_of_order lst pgh then p1\<lparr>ooo := ooo p1 + 1\<rparr> else p1)
      in if 2 < check p2 \<and> pgh_magic lst \<noteq> 0 \<and> seq_num pgh \<noteq> seq_num lst + 1
         then p2\<lparr>ooo := ooo p2 + 1\<rparr> else p2)"

text \<open>The move to the next chunk, into the next bucket where the current one is used up.\<close>

definition check_next ::
  "iovec list \<Rightarrow> int \<Rightarrow> ck_vars \<Rightarrow> ('k, 'm, ck_vars + ck_vars) cprog" where
  "check_next iov nr s =
     bnd (chk_i32 (ck_offset s + sizeof_pktgen_hdr)) (\<lambda>offset.
     bnd (iov_at iov (ck_i s)) (\<lambda>v.
     let s1 = s\<lparr>ck_hdr := ck_hdr s + 1, ck_offset := offset\<rparr> in
     if iov_len v \<le> to_u64 offset then
       (let s2 = s1\<lparr>ck_offset := u64_to_int (to_u64 offset - iov_len v), ck_i := ck_i s + 1\<rparr> in
        if nr \<le> ck_i s2 then ret (Inl s2)
        else
        bnd (iov_at iov (ck_i s2)) (\<lambda>v'.
        let cur_len = bucket_len (ck_len s) v' in
        bnd (chk_i32 (ck_len s - cur_len)) (\<lambda>len.
        ret (Inr (s2\<lparr>ck_cur_len := cur_len, ck_len := len\<rparr>)))))
     else ret (Inr s1)))"

text \<open>One round of the loop: \<open>Inl\<close> where it breaks, \<open>Inr\<close> where it goes on.\<close>

definition check_iter ::
  "iovec list \<Rightarrow> int \<Rightarrow> sink_params \<Rightarrow> ck_vars
   \<Rightarrow> ('k, 'm, (sink_params \<times> ck_vars) + (sink_params \<times> ck_vars)) sprog" where
  "check_iter iov nr p s =
     bnd (chk_i32 (ck_cur_len s - ck_offset s)) (\<lambda>first_chunk.
     bnd (chk_i32 (first_chunk + ck_len s)) (\<lambda>rest.
     if to_u64 rest < to_u64 sizeof_pktgen_hdr then ret (Inl (p, s))
     else
     bnd (header_at iov nr (ck_i s) (ck_offset s) first_chunk) (\<lambda>h.
     case h of
       None \<Rightarrow> ret (Inl (p, s))
     | Some bs \<Rightarrow>
        (let pgh = hdr_of bs;
             move = (\<lambda>p' s'. bnd (check_next iov nr s') (\<lambda>x.
                      ret (case x of Inl s'' \<Rightarrow> Inl (p', s'') | Inr s'' \<Rightarrow> Inr (p', s''))))
         in
         if ck_hdr s = 0 then
           bnd (gets last_hdr) (\<lambda>lst.
           let p' = check_first lst pgh p in
           bnd (modify (\<lambda>w. w\<lparr>last_hdr := pgh\<rparr>)) (\<lambda>_.
           if check p' < 2 then ret (Inl (p', s))
           else move p' (s\<lparr>ck_current := pgh\<rparr>)))
         else if hdr_bytes (ck_current s) \<noteq> bs then move (p\<lparr>bad_repeat := bad_repeat p + 1\<rparr>) s
         else move p s))))"

text \<open>
  The loop.  It may run for ever on arbitrary vectors, so it carries fuel; \<open>__check_pkt\<close> starts it
  with one unit per byte of the packet and one more.
\<close>

fun check_loop ::
  "nat \<Rightarrow> iovec list \<Rightarrow> int \<Rightarrow> sink_params \<Rightarrow> ck_vars \<Rightarrow> ('k, 'm, sink_params \<times> ck_vars) sprog" where
  "check_loop 0 iov nr p s = out_of_fuel"
| "check_loop (Suc n) iov nr p s =
     bnd (check_iter iov nr p s) (\<lambda>x.
     case x of
       Inl y \<Rightarrow> ret y
     | Inr (p', s') \<Rightarrow> check_loop n iov nr p' s')"

definition check_verdict :: "sink_params \<Rightarrow> string" where
  "check_verdict p = (if ooo p \<noteq> 0 then ''OoO''
     else if bad_repeat p \<noteq> 0 then ''bad repeated hdr'' else ''bad magic'')"

definition check_pkt_full ::
  "iovec list \<Rightarrow> int \<Rightarrow> int \<Rightarrow> sink_params \<Rightarrow> ('k, 'm, sink_params) sprog" where
  "check_pkt_full iov nr l p =
     bnd (iov_at iov 0) (\<lambda>v.
     let cur_len = bucket_len l v in
     bnd (chk_i32 (l - cur_len)) (\<lambda>len.
     bnd (check_loop (nat l + 1) iov nr p
            \<lparr>ck_offset = 0, ck_i = 0, ck_hdr = 0, ck_len = len, ck_cur_len = cur_len,
             ck_current = hdr_zero\<rparr>) (\<lambda>(p', s).
     if 2 < check p' \<and> (ooo p' \<noteq> 0 \<or> bad_repeat p' \<noteq> 0 \<or> bad_magic p' \<noteq> 0) then
       bnd (printf ''%s with packet len %d iov nr %d'' [PS (check_verdict p'), PI l, PI nr]) (\<lambda>_.
       exit_with EXIT_FAIL_RECV)
     else
       bnd (when_do (pgh_magic (ck_current s) \<noteq> 0)
              (modify (\<lambda>w. w\<lparr>last_hdr := ck_current s\<rparr>))) (\<lambda>_.
       ret p'))))"

definition check_pkt ::
  "iovec list \<Rightarrow> int \<Rightarrow> int \<Rightarrow> sink_params \<Rightarrow> ('k, 'm, sink_params) sprog" where
  "check_pkt iov nr len p = (if check p = 0 then ret p else check_pkt_full iov nr len p)"

definition print_check_result :: "sink_params \<Rightarrow> ('k, 'm, unit) cprog" where
  "print_check_result p =
     when_do (check p \<noteq> 0 \<and> run_flag_curr p AND (RUN_RECVMMSG OR RUN_RECVMSG) \<noteq> 0)
       (printf '' - Failed pktgen checks OoO %lld wrong magic %lld bad repeat %lld''
          [PI (ooo p), PI (bad_magic p), PI (bad_repeat p)])"

section \<open>The receive loops\<close>

text \<open>
  A receiving call on one buffer: the kernel writes at most the number of bytes it was offered.
\<close>

definition recv_into :: "'k kernel \<Rightarrow> sysreq \<Rightarrow> ptr \<Rightarrow> u64 \<Rightarrow> ('k, 'm, int) cprog" where
  "recv_into K rq buffer n =
     bnd (syscall K rq) (\<lambda>r.
     if r_ret r < 0 then ret (r_ret r)
     else
       bnd (store buffer (take (unat n) (r_data r))) (\<lambda>_.
       ret (r_ret r)))"

text \<open>
  The result of a receiving call inside the loops: \<open>EAGAIN\<close> is counted and the loop goes on with
  the next iteration, another error leaves it.
\<close>

definition try_again_or_fail ::
  "time_bench_record \<Rightarrow> int \<Rightarrow> (time_bench_record \<Rightarrow> 'a) \<Rightarrow> ('k, 'm, int + 'a) cprog" where
  "try_again_or_fail r res cont =
     bnd (gets errno) (\<lambda>e.
     if e = EAGAIN then ret (Inr (cont (r\<lparr>try_again := try_again r + 1\<rparr>)))
     else ret (Inl res))"

definition sink_error :: "string \<Rightarrow> string \<Rightarrow> int \<Rightarrow> ('k, 'm, unit) cprog" where
  "sink_error fct msg res =
     bnd (gets errno) (\<lambda>e.
     bnd (eprintf ''ERROR: %s() failed (%d) errno(%d) '' [PS fct, PI res, PI e]) (\<lambda>_.
     perror msg))"

definition sink_flags :: "sink_params \<Rightarrow> int" where
  "sink_flags p = (if dontwait p \<noteq> 0 then MSG_DONTWAIT else 0)"

text \<open>The report of a test; the average payload divides by the number of iterations.\<close>

definition report_payload :: "u64 \<Rightarrow> int \<Rightarrow> ('k, 'm, unit) cprog" where
  "report_payload tot i =
     bnd (gets verbose) (\<lambda>v.
     if 0 < v then
       (if i = 0 then ub Div_by_zero
        else printf '' - read %lu bytes in %d packets = %lu bytes payload''
               [PI (uint tot), PI i, PI (uint (tot div to_u64 i))])
     else ret ())"

definition report_read :: "u64 \<Rightarrow> int \<Rightarrow> ('k, 'm, unit) cprog" where
  "report_read tot i =
     bnd (gets verbose) (\<lambda>v.
     when_do (0 < v) (printf '' - read %lu bytes in %d packets'' [PI (uint tot), PI i]))"

definition sink_with_read ::
  "'k kernel \<Rightarrow> int \<Rightarrow> sink_params \<Rightarrow> time_bench_record
   \<Rightarrow> ('k, 'm, int \<times> sink_params \<times> time_bench_record) sprog" where
  "sink_with_read K sockfd p r0 =
     bnd (malloc_payload_buffer K (buf_sz p)) (\<lambda>buffer.
     bnd (for_break 0 (count p) (\<lambda>i (tot, r).
            bnd (recv_into K (Rq_read sockfd (uint (to_u64 (buf_sz p)))) buffer (to_u64 (buf_sz p))) (\<lambda>res.
            if res < 0 then try_again_or_fail r res (\<lambda>r'. (tot, r'))
            else ret (Inr (tot + to_u64 res, r)))) (0, r0)) (\<lambda>x.
     case x of
       Inr (tot, r) \<Rightarrow>
         (let i = max 0 (count p); r' = r\<lparr>bytes_cnt := tot\<rparr> in
          bnd (report_read tot i) (\<lambda>_.
          bnd (free buffer) (\<lambda>_.
          ret (u64_to_int (to_u64 i - try_again r'), p, r'))))
     | Inl res \<Rightarrow>
         bnd (sink_error ''sink_with_read'' ''- read'' res) (\<lambda>_.
         bnd (free buffer) (\<lambda>_.
         bnd (syscall K (Rq_close sockfd)) (\<lambda>_.
         exit_with EXIT_FAIL_SOCK)))))"

definition sink_with_recvfrom ::
  "'k kernel \<Rightarrow> int \<Rightarrow> sink_params \<Rightarrow> time_bench_record
   \<Rightarrow> ('k, 'm, int \<times> sink_params \<times> time_bench_record) sprog" where
  "sink_with_recvfrom K sockfd p r0 =
     bnd (malloc_payload_buffer K (buf_sz p)) (\<lambda>buffer.
     bnd (for_break 0 (count p) (\<lambda>i (tot, r).
            bnd (recv_into K (Rq_recvfrom sockfd (uint (to_u64 (buf_sz p))) (sink_flags p)) buffer
                   (to_u64 (buf_sz p))) (\<lambda>res.
            if res < 0 then try_again_or_fail r res (\<lambda>r'. (tot, r'))
            else ret (Inr (tot + to_u64 res, r)))) (0, r0)) (\<lambda>x.
     case x of
       Inr (tot, r) \<Rightarrow>
         (let i = max 0 (count p); r' = r\<lparr>bytes_cnt := tot\<rparr> in
          bnd (report_payload tot i) (\<lambda>_.
          bnd (free buffer) (\<lambda>_.
          ret (u64_to_int (to_u64 i - try_again r'), p, r'))))
     | Inl res \<Rightarrow>
         bnd (sink_error ''sink_with_recvfrom'' ''- recvfrom'' res) (\<lambda>_.
         bnd (free buffer) (\<lambda>_.
         bnd (syscall K (Rq_close sockfd)) (\<lambda>_.
         exit_with EXIT_FAIL_SOCK)))))"

definition sink_with_recv ::
  "'k kernel \<Rightarrow> int \<Rightarrow> sink_params \<Rightarrow> time_bench_record
   \<Rightarrow> ('k, 'm, int \<times> sink_params \<times> time_bench_record) sprog" where
  "sink_with_recv K sockfd p r0 =
     bnd (malloc_payload_buffer K (buf_sz p)) (\<lambda>buffer.
     bnd (for_break 0 (count p) (\<lambda>i (tot, r).
            bnd (recv_into K (Rq_recv sockfd (uint (to_u64 (buf_sz p))) (sink_flags p)) buffer
                   (to_u64 (buf_sz p))) (\<lambda>res.
            if res < 0 then try_again_or_fail r res (\<lambda>r'. (tot, r'))
            else ret (Inr (tot + to_u64 res, r)))) (0, r0)) (\<lambda>x.
     case x of
       Inr (tot, r) \<Rightarrow>
         (let i = max 0 (count p); r' = r\<lparr>bytes_cnt := tot\<rparr> in
          bnd (report_payload tot i) (\<lambda>_.
          bnd (free buffer) (\<lambda>_.
          ret (u64_to_int (to_u64 i - try_again r'), p, r'))))
     | Inl res \<Rightarrow>
         bnd (sink_error ''sink_with_recv'' ''- recv'' res) (\<lambda>_.
         bnd (free buffer) (\<lambda>_.
         bnd (syscall K (Rq_close sockfd)) (\<lambda>_.
         exit_with EXIT_FAIL_SOCK)))))"

subsection \<open>Names and ancillary data\<close>

definition setup_msg_name :: "msghdr \<Rightarrow> sockaddr_storage \<Rightarrow> int \<Rightarrow> msghdr" where
  "setup_msg_name mh addr family =
     (if family = 0 then mh\<lparr>msg_name := None, msg_namelen := 0\<rparr>
      else mh\<lparr>msg_name := Some addr, msg_namelen := sizeof_sockaddr_storage\<rparr>)"

definition ntop_str :: "'k kernel \<Rightarrow> int \<Rightarrow> bytes \<Rightarrow> ('k, 'm, string) cprog" where
  "ntop_str K family addr =
     bnd (syscall K (Rq_inet_ntop family addr)) (\<lambda>r.
     ret (case r_text r of None \<Rightarrow> ''(null)'' | Some s \<Rightarrow> s))"

definition check_msg_name :: "'k kernel \<Rightarrow> msghdr \<Rightarrow> sockaddr_storage \<Rightarrow> ('k, 'm, unit) cprog" where
  "check_msg_name K mh sender =
     (if ss_family sender = 0 then ret ()
      else
        case msg_name mh of
          None \<Rightarrow> ub Out_of_bounds
        | Some name \<Rightarrow>
            (let v4 = (ss_family sender = AF_INET);
                 addr_in = (if v4 then sin_addr name else sin6_addr name);
                 addr_snd = (if v4 then sin_addr sender else sin6_addr sender);
                 alen = (if v4 then sizeof_sockaddr_in else sizeof_sockaddr_in6)
             in
             if alen \<noteq> msg_namelen mh then
               bnd (printf ''sender address len %d does not match expected one %d''
                      [PI (msg_namelen mh), PI alen]) (\<lambda>_.
               exit_with EXIT_FAIL_SOCK)
             else if addr_snd \<noteq> addr_in then
               bnd (ntop_str K (ss_family sender) addr_in) (\<lambda>in_str.
               bnd (ntop_str K (ss_family sender) addr_snd) (\<lambda>snd_str.
               bnd (printf ''sender address %s does not match expected one %s''
                      [PS in_str, PS snd_str]) (\<lambda>_.
               exit_with EXIT_FAIL_SOCK)))
             else ret ()))"

text \<open>The walk over the control messages: the last packet info and the last TTL it finds.\<close>

definition CMSG_DLEN :: "cmsg \<Rightarrow> u64" where
  "CMSG_DLEN c = to_u64 (cmsg_len c) - to_u64 sizeof_cmsghdr"

fun scan_cmsg :: "cmsg list \<Rightarrow> bytes option \<Rightarrow> int \<Rightarrow> bytes option \<times> int" where
  "scan_cmsg [] found_pktinfo found_ttl = (found_pktinfo, found_ttl)"
| "scan_cmsg (c # cs) found_pktinfo found_ttl =
     (if cmsg_level c = IPPROTO_IP \<and> cmsg_type c = IP_PKTINFO \<and> CMSG_DLEN c = to_u64 sizeof_in_pktinfo
      then scan_cmsg cs (Some (cmsg_data c)) found_ttl
      else if cmsg_level c = IPPROTO_IP \<and> cmsg_type c = IP_TTL \<and> CMSG_DLEN c = 4
      then scan_cmsg cs found_pktinfo (sint (un_le32 (take 4 (cmsg_data c))))
      else scan_cmsg cs found_pktinfo found_ttl)"

definition pktinfo_args :: "bytes option \<Rightarrow> parg list" where
  "pktinfo_args f = (case f of
       None \<Rightarrow> [PI 0, PI 0, PI 0]
     | Some d \<Rightarrow> [PI (sint (un_le32 (take 4 d))), PI (uint (un_le32 (take 4 (drop 4 d)))),
                  PI (uint (un_le32 (take 4 (drop 8 d))))])"

definition check_cmsg :: "msghdr \<Rightarrow> sink_params \<Rightarrow> int \<Rightarrow> ('k, 'm, unit) cprog" where
  "check_cmsg mh p max_len =
     (if recv_ttl p = 0 \<and> recv_pktinfo p = 0 then
        (if msg_controllen mh \<noteq> 0 then
           bnd (printf ''found unrequested cmsg data, len %zd'' [PI (msg_controllen mh)]) (\<lambda>_.
           exit_with EXIT_FAIL_SOCK)
         else ret ())
      else if to_u64 max_len < to_u64 (msg_controllen mh) then
        bnd (printf ''bad msg len %zd max %d'' [PI (msg_controllen mh), PI max_len]) (\<lambda>_.
        exit_with EXIT_FAIL_SOCK)
      else
        (let (found_pktinfo, found_ttl) =
               scan_cmsg (case msg_control mh of None \<Rightarrow> [] | Some cs \<Rightarrow> cs) None 0
         in
         if recv_ttl p XOR of_bool (found_ttl \<noteq> 0) \<noteq> 0 then
           bnd (printf ''ttl cmsg missmatch, requested %d found %d'' [PI (recv_ttl p), PI found_ttl]) (\<lambda>_.
           exit_with EXIT_FAIL_SOCK)
         else if recv_pktinfo p XOR of_bool (found_pktinfo \<noteq> None) \<noteq> 0 then
           bnd (printf ''pktinfo cmsg missmatch, requested %d found %p:%d:%x:%x''
                  (PI (recv_pktinfo p) # pktinfo_args found_pktinfo)) (\<lambda>_.
           exit_with EXIT_FAIL_SOCK)
         else
           bnd (gets verbose) (\<lambda>v.
           if v = 0 then ret ()
           else
             bnd (when_do (found_pktinfo \<noteq> None)
                    (printf ''pktinfo: %d:%x:%x'' (pktinfo_args found_pktinfo))) (\<lambda>_.
             when_do (found_ttl \<noteq> 0) (printf ''ttl: %d'' [PI found_ttl])))))"

subsection \<open>recvmsg\<close>

text \<open>
  The I/O vector: the first element is written always, the others for \<open>--nr-iovec\<close> above one.
\<close>

definition recvmsg_iov :: "ptr \<Rightarrow> ptr \<Rightarrow> sink_params \<Rightarrow> ('k, 'm, iovec list) cprog" where
  "recvmsg_iov arr buffer p =
     bnd (touch arr 16) (\<lambda>_.
     if iov_elems p = 0 then ub Div_by_zero
     else
     bnd (chk_i32 (cdiv (buf_sz p) (iov_elems p))) (\<lambda>size.
     for_loop 1 (iov_elems p) (\<lambda>i iovs.
       bnd (touch (ptr_add arr (16 * i)) 16) (\<lambda>_.
       ret (iovs @ [\<lparr>iov_base = ptr_add buffer (uint (to_u64 i * to_u64 size)), iov_len = to_u64 size\<rparr>])))
       [\<lparr>iov_base = buffer, iov_len = to_u64 size\<rparr>]))"

definition want_cmsg :: "sink_params \<Rightarrow> bool" where
  "want_cmsg p \<longleftrightarrow> recv_ttl p \<noteq> 0 \<or> recv_pktinfo p \<noteq> 0"

definition sink_msghdr :: "sink_params \<Rightarrow> iovec list \<Rightarrow> msghdr" where
  "sink_msghdr p iovs =
     (setup_msg_name msghdr_zero sockaddr_zero (ss_family (sender_addr p)))
       \<lparr>msg_iov := iovs, msg_iovlen := iov_elems p,
        msg_control := (if want_cmsg p then Some [] else None),
        msg_controllen := (if want_cmsg p then 512 else 0)\<rparr>"

definition sink_with_recvmsg ::
  "'k kernel \<Rightarrow> int \<Rightarrow> sink_params \<Rightarrow> time_bench_record
   \<Rightarrow> ('k, 'm, int \<times> sink_params \<times> time_bench_record) sprog" where
  "sink_with_recvmsg K sockfd p0 r0 =
     bnd (malloc_payload_buffer K (buf_sz p0)) (\<lambda>buffer.
     bnd (malloc_msghdr K) (\<lambda>hdr_arr.
     bnd (malloc_iovec K (word_of_int (iov_elems p0))) (\<lambda>iov_arr.
     bnd (recvmsg_iov iov_arr buffer p0) (\<lambda>iovs.
     bnd (for_break 0 (count p0) (\<lambda>i (tot, r, p, m).
            bnd (recvmsg K sockfd m (sink_flags p)) (\<lambda>(res, m').
            if res < 0 then try_again_or_fail r res (\<lambda>r'. (tot, r', p, m'))
            else
              bnd (check_pkt (msg_iov m') (iov_elems p) res p) (\<lambda>p'.
              bnd (check_msg_name K m' (sender_addr p')) (\<lambda>_.
              bnd (check_cmsg m' p' 512) (\<lambda>_.
              ret (Inr (tot + to_u64 res, r, p', m'))))))) (0, r0, p0, sink_msghdr p0 iovs)) (\<lambda>x.
     case x of
       Inr (tot, r, p, m) \<Rightarrow>
         (let i = max 0 (count p); r' = r\<lparr>bytes_cnt := tot\<rparr> in
          bnd (report_payload tot i) (\<lambda>_.
          bnd (free iov_arr) (\<lambda>_.
          bnd (free hdr_arr) (\<lambda>_.
          bnd (free buffer) (\<lambda>_.
          ret (u64_to_int (to_u64 i - try_again r'), p, r'))))))
     | Inl res \<Rightarrow>
         bnd (sink_error ''sink_with_recvmsg'' ''- recvmsg'' res) (\<lambda>_.
         bnd (free buffer) (\<lambda>_.
         bnd (syscall K (Rq_close sockfd)) (\<lambda>_.
         exit_with EXIT_FAIL_SOCK))))))))"

subsection \<open>recvmmsg\<close>

record mm_vars =
  mm_cnt :: int
  mm_total :: u64
  mm_batches :: int
  mm_r :: time_bench_record
  mm_p :: sink_params
  mm_hdr :: "mmsghdr list"

text \<open>The messages of one batch.\<close>

definition recvMmsg_batch :: "'k kernel \<Rightarrow> int \<Rightarrow> mm_vars \<Rightarrow> ('k, 'm, mm_vars) sprog" where
  "recvMmsg_batch K res s0 =
     for_loop 0 res (\<lambda>pkt s.
       if int (length (mm_hdr s)) \<le> pkt then ub Out_of_bounds
       else
       (let m = mm_hdr s ! nat pkt in
        bnd (check_pkt (msg_iov (msg_hdr m)) (to_i32 (msg_iovlen (msg_hdr m))) (sint (msg_len m)) (mm_p s)) (\<lambda>p'.
        bnd (check_msg_name K (msg_hdr m) (sender_addr p')) (\<lambda>_.
        bnd (check_cmsg (msg_hdr m) p' 512) (\<lambda>_.
        ret (s\<lparr>mm_total := mm_total s + ucast (msg_len m), mm_p := p'\<rparr>)))))) s0"

text \<open>
  The receive loop: it goes on until \<open>--count\<close> packets have come, so on a silent socket it does not
  end; \<open>fuel\<close> bounds the number of \<open>recvmmsg\<close> calls.
\<close>

fun recvMmsg_loop ::
  "nat \<Rightarrow> 'k kernel \<Rightarrow> int \<Rightarrow> int \<Rightarrow> timespec option \<Rightarrow> mm_vars \<Rightarrow> ('k, 'm, int + mm_vars) sprog" where
  "recvMmsg_loop 0 K sockfd flags ts s =
     (if mm_cnt s < count (mm_p s) then out_of_fuel else ret (Inr s))"
| "recvMmsg_loop (Suc n) K sockfd flags ts s =
     (if mm_cnt s < count (mm_p s) then
        bnd (recvmmsg K sockfd (mm_hdr s) (batch (mm_p s)) flags ts) (\<lambda>(res, ms).
        if res < 0 then
          bnd (try_again_or_fail (mm_r s) res (\<lambda>r'. s\<lparr>mm_r := r', mm_hdr := ms\<rparr>)) (\<lambda>x.
          case x of Inl e \<Rightarrow> ret (Inl e) | Inr s' \<Rightarrow> recvMmsg_loop n K sockfd flags ts s')
        else
          bnd (chk_i32 (mm_batches s + 1)) (\<lambda>batches.
          bnd (recvMmsg_batch K res (s\<lparr>mm_hdr := ms, mm_batches := batches\<rparr>)) (\<lambda>s'.
          bnd (chk_i32 (mm_cnt s' + res)) (\<lambda>cnt.
          recvMmsg_loop n K sockfd flags ts (s'\<lparr>mm_cnt := cnt\<rparr>)))))
      else ret (Inr s))"

definition recvMmsg_setup ::
  "'k kernel \<Rightarrow> ptr \<Rightarrow> ptr \<Rightarrow> sink_params \<Rightarrow> ('k, 'm, mmsghdr list) cprog" where
  "recvMmsg_setup K mmsg_arr iov_arr p =
     for_loop 0 (batch p) (\<lambda>pkt ms.
       if iov_elems p = 0 then ub Div_by_zero
       else
       bnd (chk_i32 (cdiv (buf_sz p) (iov_elems p))) (\<lambda>size.
       bnd (if bad_addr p \<noteq> 0 \<and> pkt = bad_addr p - 1 then ret NULL
            else malloc K (to_u64 (buf_sz p))) (\<lambda>buf.
       bnd (for_loop 0 (iov_elems p) (\<lambda>i iovs.
              bnd (touch (ptr_add iov_arr (16 * (pkt * iov_elems p + i))) 16) (\<lambda>_.
              bnd (chk_i32 (size * i)) (\<lambda>d.
              ret (iovs @ [\<lparr>iov_base = ptr_add buf d, iov_len = to_u64 size\<rparr>])))) []) (\<lambda>iovs.
       bnd (touch (ptr_add mmsg_arr (64 * pkt)) 64) (\<lambda>_.
       ret (ms @ [\<lparr>msg_hdr = sink_msghdr p iovs, msg_len = 0\<rparr>])))))) []"

definition recvMmsg_report :: "sink_params \<Rightarrow> u64 \<Rightarrow> u64 \<Rightarrow> int \<Rightarrow> ('k, 'm, unit) cprog" where
  "recvMmsg_report p tot pkts batches =
     bnd (gets verbose) (\<lambda>v.
     when_do (0 < v)
       (bnd (printf '' - read %lu bytes in %lu packets= %lu bytes payload''
               [PI (uint tot), PI (uint pkts),
                PI (if pkts \<noteq> 0 then uint (tot div pkts) else 0)]) (\<lambda>_.
        bnd (when_do (waitforone p \<noteq> 0) (printf ''= %ld avg batch len''
               [PI (if batches \<noteq> 0 then sint (pkts div to_u64 batches) else 0)])) (\<lambda>_.
        printf '' (loop %d)'' [PI batches]))))"

definition free_buffers :: "int \<Rightarrow> mmsghdr list \<Rightarrow> ('k, 'm, unit) cprog" where
  "free_buffers n ms =
     for_loop 0 n (\<lambda>pkt _.
       if int (length ms) \<le> pkt then ub Out_of_bounds
       else case msg_iov (msg_hdr (ms ! nat pkt)) of
         [] \<Rightarrow> ub Out_of_bounds
       | v # _ \<Rightarrow> free (iov_base v)) ()"

definition sink_with_recvMmsg ::
  "nat \<Rightarrow> 'k kernel \<Rightarrow> int \<Rightarrow> sink_params \<Rightarrow> time_bench_record
   \<Rightarrow> ('k, 'm, int \<times> sink_params \<times> time_bench_record) sprog" where
  "sink_with_recvMmsg fuel K sockfd p r0 =
     bnd (malloc_payload_buffer K (buf_sz p)) (\<lambda>buffer.
     if batch p \<le> 0 then ub Out_of_bounds
     else
     bnd (malloc_mmsghdr K (word_of_int (batch p))) (\<lambda>mmsg_arr.
     bnd (chk_i32 (iov_elems p * batch p)) (\<lambda>elems.
     bnd (malloc_iovec K (word_of_int elems)) (\<lambda>iov_arr.
     bnd (recvMmsg_setup K mmsg_arr iov_arr p) (\<lambda>mmsg_hdr.
     let ts = (if 0 \<le> timeout p then Some (TimeSpec (timeout p) 0) else None);
         flags = sink_flags p OR (if waitforone p \<noteq> 0 then MSG_WAITFORONE else 0)
     in
     bnd (recvMmsg_loop fuel K sockfd flags ts
            \<lparr>mm_cnt = 0, mm_total = 0, mm_batches = 0, mm_r = r0, mm_p = p, mm_hdr = mmsg_hdr\<rparr>) (\<lambda>x.
     case x of
       Inr s \<Rightarrow>
         (let packets = to_u64 (mm_cnt s) - try_again (mm_r s);
              r = (mm_r s)\<lparr>bytes_cnt := mm_total s\<rparr>
          in
          bnd (recvMmsg_report (mm_p s) (mm_total s) packets (mm_batches s)) (\<lambda>_.
          bnd (free_buffers (batch (mm_p s)) (mm_hdr s)) (\<lambda>_.
          bnd (free iov_arr) (\<lambda>_.
          bnd (free mmsg_arr) (\<lambda>_.
          bnd (free buffer) (\<lambda>_.
          ret (u64_to_int packets, mm_p s, r)))))))
     | Inl res \<Rightarrow>
         bnd (sink_error ''sink_with_recvMmsg'' ''- recvmsg'' res) (\<lambda>_.
         bnd (free iov_arr) (\<lambda>_.
         bnd (free mmsg_arr) (\<lambda>_.
         bnd (free buffer) (\<lambda>_.
         bnd (syscall K (Rq_close sockfd)) (\<lambda>_.
         exit_with EXIT_FAIL_SOCK)))))))))))"

section \<open>Measuring\<close>

definition init_stats :: "sink_params \<Rightarrow> int \<Rightarrow> sink_params" where
  "init_stats params testrun =
     params\<lparr>ooo := 0, bad_magic := 0, bad_repeat := 0, run_flag_curr := testrun\<rparr>"

type_synonym ('k, 'm) sink_fun =
  "'k kernel \<Rightarrow> int \<Rightarrow> sink_params \<Rightarrow> time_bench_record
   \<Rightarrow> ('k, 'm, int \<times> sink_params \<times> time_bench_record) sprog"

definition TMPMAX :: int where [c_consts]: "TMPMAX = 4096"

definition socket_error :: "'k kernel \<Rightarrow> int \<Rightarrow> int \<Rightarrow> ('k, 'm, 'a) cprog" where
  "socket_error K sockfd res =
     bnd (gets errno) (\<lambda>e.
     bnd (eprintf ''ERROR: %s() failed (%d) errno(%d) '' [PS ''time_function'', PI res, PI e]) (\<lambda>_.
     bnd (syscall K (Rq_close sockfd)) (\<lambda>_.
     exit_with EXIT_FAIL_SOCK)))"

text \<open>The wait for the first packet: its sender, whose address decides how to go on.\<close>

definition wait_first :: "'k kernel \<Rightarrow> int \<Rightarrow> sink_params \<Rightarrow> ('k, 'm, unit) cprog" where
  "wait_first K sockfd p =
     bnd (gets verbose) (\<lambda>v.
     bnd (when_do (v \<noteq> 0) (printf '' - Waiting on first packet (of expected flood)'' [])) (\<lambda>_.
     bnd (syscall K (Rq_recvfrom_name sockfd TMPMAX 0 sizeof_sockaddr_storage)) (\<lambda>r.
     if r_ret r < 0 then
       bnd (perror ''- read'') (\<lambda>_.
       socket_error K sockfd (r_ret r))
     else
     (let src = rx_name (first_msg r); addrlen = rx_namelen (first_msg r) in
      if ss_family src \<noteq> AF_INET \<and> ss_family src \<noteq> AF_INET6 then
        bnd (gets errno) (\<lambda>e.
        bnd (eprintf ''ERROR: %s() unsupported sa_family(%d) from socket errno(%d)''
               [PS ''time_function'', PI (ss_family src), PI e]) (\<lambda>_.
        bnd (syscall K (Rq_close sockfd)) (\<lambda>_.
        exit_with EXIT_FAIL_RECV)))
      else
      bnd (syscall K (Rq_inet_ntop (ss_family src)
             (if ss_family src = AF_INET then sin_addr src else sin6_addr src))) (\<lambda>t.
      case r_text t of
        None \<Rightarrow>
          bnd (perror ''- inet_ntop'') (\<lambda>_.
          socket_error K sockfd (r_ret r))
      | Some from_ip \<Rightarrow>
          bnd (when_do (v \<noteq> 0 \<and> connect (sk_c p) = 0)
                 (printf ''  * Got first packet from IP:port %s:%d''
                    [PS from_ip, PI (uint (htons (sin_port src)))])) (\<lambda>_.
          when_do (connect (sk_c p) \<noteq> 0)
            (bnd (when_do (v \<noteq> 0) (printf ''  * Connect UDP sock to src IP:port %s:%d''
                    [PS from_ip, PI (uint (htons (sin_port src)))])) (\<lambda>_.
             bnd (Connect K sockfd src addrlen) (\<lambda>_.
             when_do (v \<noteq> 0) (printf ''  * Got first packet (starting timing)'' []))))))))))"

text \<open>One of the repeated runs.\<close>

definition sink_run ::
  "'k kernel \<Rightarrow> int \<Rightarrow> string \<Rightarrow> ('k, 'm) sink_fun \<Rightarrow> int \<Rightarrow> time_bench_record \<times> sink_params
   \<Rightarrow> ('k, 'm, time_bench_record \<times> sink_params) sprog" where
  "sink_run K sockfd name func j = (\<lambda>(rec0, p).
     bnd (gets verbose) (\<lambda>v.
     bnd (if v \<noteq> 0 then
            printf '' Test run: %d (expecting to receive %d pkts)'' [PI j, PI (count p)]
          else
            (let b = (if run_flag_curr p AND RUN_RECVMMSG \<noteq> 0 then batch p else 0) in
             bnd (print_header name b) (\<lambda>_.
             printf ''run: %2d'' [PI j]))) (\<lambda>_.
     bnd (time_bench_record_setting K rec0) (\<lambda>rec1.
     bnd (time_bench_start K rec1) (\<lambda>rec2.
     bnd (func K sockfd p rec2) (\<lambda>(cnt_recv, p', rec3).
     bnd (time_bench_stop K rec3) (\<lambda>rec4.
     if cnt_recv < 0 then
       bnd (eprintf ''ERROR: failed to recv packets'' []) (\<lambda>_.
       bnd (syscall K (Rq_close sockfd)) (\<lambda>_.
       exit_with EXIT_FAIL_RECV))
     else
       bnd (time_bench_calc_stats (rec4\<lparr>packets := to_u64 cnt_recv\<rparr>)) (\<lambda>rec5.
       bnd (time_bench_print_stats rec5 (sk_c p')) (\<lambda>_.
       bnd (print_check_result p') (\<lambda>_.
       ret (rec5, init_stats p' (run_flag_curr p'))))))))))))"

definition sink_time_function ::
  "'k kernel \<Rightarrow> int \<Rightarrow> sink_params \<Rightarrow> string \<Rightarrow> ('k, 'm) sink_fun \<Rightarrow> ('k, 'm, sink_params) sprog" where
  "sink_time_function K sockfd p name func =
     bnd (wait_first K sockfd p) (\<lambda>_.
     bnd (for_loop 0 (repeat p) (sink_run K sockfd name func) (time_bench_zero, p)) (\<lambda>(rec, p').
     ret p'))"

definition enable_bpf :: "'k kernel \<Rightarrow> int \<Rightarrow> ('k, 'm, int) cprog" where
  "enable_bpf K sockfd =
     bnd (syscall K (Rq_setsockopt sockfd SOL_SOCKET SO_ATTACH_REUSEPORT_CBPF
            (OptFilter [(0x20, 0, 0, - 0x1000 + 36), (0x16, 0, 0, 0)]))) (\<lambda>r.
     if r_ret r \<noteq> 0 then ret (- 1) else ret 0)"

section \<open>main\<close>

definition sink_init_params :: sink_params where
  "sink_init_params = \<lparr>sk_c = \<lparr>connect = 0\<rparr>, lite = 0, iov_elems = 1, batch = 32, count = 1000000,
     repeat = 1, waitforone = 0, dontwait = 0, bad_addr = 0, recv_ttl = 0, recv_pktinfo = 0,
     sk_timeout = - 1, timeout = - 1, check = 0, sender_addr = sockaddr_zero, so_reuseport = 0,
     use_bpf = 0, buf_sz = 4096, run_flag = 0, run_flag_curr = 0, ooo = 0, bad_magic = 0,
     bad_repeat = 0\<rparr>"

record sink_cfg =
  sc_p :: sink_params
  sc_port :: u16
  sc_family :: int

definition sink_cfg0 :: sink_cfg where
  "sink_cfg0 = \<lparr>sc_p = sink_init_params, sc_port = 6666, sc_family = AF_INET\<rparr>"

text \<open>Options without a short version are told apart by the name at \<open>longindex\<close>.\<close>

definition sink_long_option :: "optres \<Rightarrow> sink_params \<Rightarrow> ('s, sink_params) prog" where
  "sink_long_option x p =
     (if length sink_long_options \<le> o_longindex x then ub Out_of_bounds
      else
      (let n = opt_name (sink_long_options ! o_longindex x) in
       if n = ''check-pktgen'' then
         ret (p\<lparr>check := (case o_arg x of None \<Rightarrow> 1 | Some a \<Rightarrow> atoi a)\<rparr>)
       else if n = ''nr-iovec'' then bnd (atoi_arg (o_arg x)) (\<lambda>k. ret (p\<lparr>iov_elems := k\<rparr>))
       else if n = ''recv-pktinfo'' then ret (p\<lparr>recv_pktinfo := 1\<rparr>)
       else if n = ''use-bpf'' then ret (p\<lparr>use_bpf := 1\<rparr>)
       else if n = ''recv-ttl'' then ret (p\<lparr>recv_ttl := 1\<rparr>)
       else ret p))"

definition sink_option :: "'k kernel \<Rightarrow> optres \<Rightarrow> sink_cfg \<Rightarrow> ('k, 'm, sink_cfg) cprog" where
  "sink_option K x g =
     (let p = sc_p g;
          setp = (\<lambda>f. bnd (atoi_arg (o_arg x)) (\<lambda>n. ret (g\<lparr>sc_p := f n\<rparr>)))
      in
      if o_c x = 0 then bnd (sink_long_option x p) (\<lambda>p'. ret (g\<lparr>sc_p := p'\<rparr>))
      else if opt_is x (CHR ''c'') then setp (\<lambda>n. p\<lparr>count := n\<rparr>)
      else if opt_is x (CHR ''r'') then setp (\<lambda>n. p\<lparr>repeat := n\<rparr>)
      else if opt_is x (CHR ''b'') then setp (\<lambda>n. p\<lparr>batch := n\<rparr>)
      else if opt_is x (CHR ''l'') then bnd (atoi_arg (o_arg x)) (\<lambda>n. ret (g\<lparr>sc_port := word_of_int n\<rparr>))
      else if opt_is x (CHR ''4'') then ret (g\<lparr>sc_family := AF_INET\<rparr>)
      else if opt_is x (CHR ''6'') then ret (g\<lparr>sc_family := AF_INET6\<rparr>)
      else if opt_is x (CHR ''O'') then ret (g\<lparr>sc_p := p\<lparr>waitforone := 1\<rparr>\<rparr>)
      else if opt_is x (CHR ''i'') then setp (\<lambda>n. p\<lparr>timeout := n\<rparr>)
      else if opt_is x (CHR ''I'') then setp (\<lambda>n. p\<lparr>sk_timeout := n\<rparr>)
      else if opt_is x (CHR ''L'') then ret (g\<lparr>sc_p := p\<lparr>lite := 1\<rparr>\<rparr>)
      else if opt_is x (CHR ''d'') then ret (g\<lparr>sc_p := p\<lparr>dontwait := 1\<rparr>\<rparr>)
      else if opt_is x (CHR ''B'') then setp (\<lambda>n. p\<lparr>bad_addr := n\<rparr>)
      else if opt_is x (CHR ''C'') then ret (g\<lparr>sc_p := p\<lparr>sk_c := \<lparr>connect = 1\<rparr>\<rparr>\<rparr>)
      else if opt_is x (CHR ''s'') then ret (g\<lparr>sc_p := p\<lparr>so_reuseport := 1\<rparr>\<rparr>)
      else if opt_is x (CHR ''S'') then
        (case o_arg x of
           None \<Rightarrow> ub Out_of_bounds
         | Some a \<Rightarrow> bnd (setup_sockaddr K (sc_family g) (sender_addr p) a 0) (\<lambda>sa.
             ret (g\<lparr>sc_p := p\<lparr>sender_addr := sa\<rparr>\<rparr>)))
      else if opt_is x (CHR ''v'') then bnd (set_verbose (o_arg x)) (\<lambda>_. ret g)
      else if opt_is x (CHR ''u'') then ret (g\<lparr>sc_p := p\<lparr>run_flag := run_flag p OR RUN_RECVMSG\<rparr>\<rparr>)
      else if opt_is x (CHR ''U'') then ret (g\<lparr>sc_p := p\<lparr>run_flag := run_flag p OR RUN_RECVMMSG\<rparr>\<rparr>)
      else if opt_is x (CHR ''t'') then ret (g\<lparr>sc_p := p\<lparr>run_flag := run_flag p OR RUN_RECVFROM\<rparr>\<rparr>)
      else if opt_is x (CHR ''T'') then ret (g\<lparr>sc_p := p\<lparr>run_flag := run_flag p OR RUN_READ\<rparr>\<rparr>)
      else if o_c x = 176 then ret (g\<lparr>sc_p := p\<lparr>run_flag := run_flag p OR RUN_RECV\<rparr>\<rparr>)
      else ret g)"

fun sink_parse ::
  "'k kernel \<Rightarrow> string \<Rightarrow> optres list \<Rightarrow> sink_cfg \<Rightarrow> ('k, 'm, int + sink_cfg) cprog" where
  "sink_parse K argv0 [] g = ret (Inr g)"
| "sink_parse K argv0 (x # xs) g =
     bnd (sink_option K x g) (\<lambda>g'.
     if opt_is x (CHR ''h'') \<or> opt_is x (CHR ''?'') then
       bnd (sink_usage argv0) (\<lambda>c. ret (Inl c))
     else sink_parse K argv0 xs g')"

text \<open>The socket options \<open>main\<close> sets without the wrapper: a report, and the exit.\<close>

definition sink_sockopt ::
  "'k kernel \<Rightarrow> bool \<Rightarrow> int \<Rightarrow> int \<Rightarrow> int \<Rightarrow> optval \<Rightarrow> string \<Rightarrow> string \<Rightarrow> ('k, 'm, unit) cprog" where
  "sink_sockopt K wanted fd level optname val msg err =
     when_do wanted
       (bnd (syscall K (Rq_setsockopt fd level optname val)) (\<lambda>r.
        when_do (r_ret r < 0)
          (bnd (when_do (msg \<noteq> []) (printf msg [])) (\<lambda>_.
           bnd (perror err) (\<lambda>_.
           exit_with EXIT_FAIL_SOCKOPT)))))"

definition sink_run_test ::
  "'k kernel \<Rightarrow> int \<Rightarrow> int \<Rightarrow> string \<Rightarrow> ('k, 'm) sink_fun \<Rightarrow> sink_params \<Rightarrow> ('k, 'm, sink_params) sprog" where
  "sink_run_test K sockfd flag name func p =
     (if run_flag p AND flag \<noteq> 0
      then sink_time_function K sockfd (init_stats p flag) name func
      else ret p)"

definition sink_main ::
  "nat \<Rightarrow> 'k kernel \<Rightarrow> string \<Rightarrow> optres list \<Rightarrow> ('k, 'm, int) sprog" where
  "sink_main fuel K argv0 opts =
     bnd (sink_parse K argv0 opts sink_cfg0) (\<lambda>x.
     case x of Inl c \<Rightarrow> ret c | Inr g \<Rightarrow>
     bnd (gets verbose) (\<lambda>v.
     bnd (when_do (0 < v) (printf ''Listen port %d'' [PI (uint (sc_port g))])) (\<lambda>_.
     let p = (if run_flag (sc_p g) = 0 then (sc_p g)\<lparr>run_flag := sink_RUN_ALL\<rparr> else sc_p g) in
     bnd (Socket K (sc_family g) SOCK_DGRAM (if lite p \<noteq> 0 then IPPROTO_UDPLITE else IPPROTO_UDP)) (\<lambda>sockfd.
     bnd (sink_sockopt K (so_reuseport p \<noteq> 0) sockfd SOL_SOCKET SO_REUSEPORT (OptInt (so_reuseport p))
            ''ERROR: No support for SO_REUSEPORT'' ''- setsockopt(SO_REUSEPORT)'') (\<lambda>_.
     bnd (when_do (use_bpf p \<noteq> 0)
            (bnd (enable_bpf K sockfd) (\<lambda>e.
             when_do (e \<noteq> 0)
               (bnd (printf ''ERROR: No support for SO_ATTACH_REUSEPORT_CBPF'' []) (\<lambda>_.
                bnd (perror ''- setsockopt(SO_ATTACH_REUSEPORT_CBPF)'') (\<lambda>_.
                exit_with EXIT_FAIL_SOCKOPT)))))) (\<lambda>_.
     bnd (sink_sockopt K (recv_pktinfo p \<noteq> 0) sockfd SOL_IP IP_PKTINFO (OptInt 1)
            ''ERROR: No support for IP_PKTINFO'' ''- setsockopt(IP_PKTINFO)'') (\<lambda>_.
     bnd (sink_sockopt K (recv_ttl p \<noteq> 0) sockfd SOL_IP IP_RECVTTL (OptInt 1)
            ''ERROR: No support for IP_RECVTTL'' ''- setsockopt(IP_RECVTTL)'') (\<lambda>_.
     bnd (Bind K sockfd (sockaddr_zero\<lparr>ss_family := sc_family g, sin_port := htons (sc_port g)\<rparr>)) (\<lambda>_.
     bnd (sink_sockopt K (0 \<le> sk_timeout p) sockfd SOL_SOCKET SO_RCVTIMEO (OptTimeval (sk_timeout p) 0)
            '''' ''- setsockopt(SO_RCVTIMEO)'') (\<lambda>_.
     bnd (when_do (v = 0) (printf ''%-10s %-8s %-8s ns/pkt pps cycles payload'' [PS '''', PS ''run'', PS ''count''])) (\<lambda>_.
     bnd (sink_run_test K sockfd RUN_RECVMMSG ''recvMmsg'' (sink_with_recvMmsg fuel) p) (\<lambda>p.
     bnd (sink_run_test K sockfd RUN_RECVMSG ''recvmsg'' sink_with_recvmsg p) (\<lambda>p.
     bnd (sink_run_test K sockfd RUN_READ ''read'' sink_with_read p) (\<lambda>p.
     bnd (sink_run_test K sockfd RUN_RECVFROM ''recvfrom'' sink_with_recvfrom p) (\<lambda>p.
     bnd (sink_run_test K sockfd RUN_RECV ''recv'' sink_with_recv p) (\<lambda>p.
     bnd (syscall K (Rq_close sockfd)) (\<lambda>_.
     ret 0)))))))))))))))))"

end
