(* ===== verification/UdpSink_Check.thy ===== *)
theory UdpSink_Check
  imports UdpSink
begin

text \<open>
  The correctness of \<open>__check_pkt\<close>: on the I/O vectors the receive loops build, the walk over the
  buckets reads inside the packet only, ends, and amounts to a check of the packet's list of
  16-byte headers, whatever the size of the buckets.
\<close>

section \<open>The buckets of a packet\<close>

text \<open>
  The vectors the receive loops set up: \<open>nr\<close> buckets of \<open>sz\<close> bytes, one after the other in one
  block; a packet of \<open>l\<close> bytes lies in them from the beginning.
\<close>

definition buckets :: "nat \<Rightarrow> nat \<Rightarrow> nat \<Rightarrow> nat \<Rightarrow> iovec list" where
  "buckets b a sz nr =
     map (\<lambda>i. \<lparr>iov_base = Ptr b (int (a + i * sz)), iov_len = of_nat sz\<rparr>) [0..<nr]"

definition packet_at :: "('k, 'm) world_scheme \<Rightarrow> nat \<Rightarrow> nat \<Rightarrow> nat \<Rightarrow> nat \<Rightarrow> bytes \<Rightarrow> bool" where
  "packet_at w b a sz nr pkt \<longleftrightarrow> 0 < sz \<and> 0 < nr \<and> int (nr * sz) + 16 \<le> INT_MAX \<and>
     length pkt \<le> nr * sz \<and>
     (\<exists>bs. heap w b = Some bs \<and> a + nr * sz \<le> length bs \<and> take (length pkt) (drop a bs) = pkt)"

definition hdr_chunk :: "bytes \<Rightarrow> nat \<Rightarrow> bytes" where
  "hdr_chunk pkt k = take 16 (drop (k * 16) pkt)"

definition pkt_hdrs :: "bytes \<Rightarrow> pktgen_hdr list" where
  "pkt_hdrs pkt = map (hdr_of \<circ> hdr_chunk pkt) [0..<length pkt div 16]"

text \<open>What a packet's check amounts to.\<close>

definition check_spec :: "pktgen_hdr \<Rightarrow> bytes \<Rightarrow> sink_params \<Rightarrow> sink_params" where
  "check_spec lst pkt p = (case pkt_hdrs pkt of
       [] \<Rightarrow> p
     | h # hs \<Rightarrow> (let p' = check_first lst h p in
         if check p < 2 then p'
         else p'\<lparr>bad_repeat := bad_repeat p' + int (length (filter (\<lambda>g. g \<noteq> h) hs))\<rparr>))"

definition last_spec :: "pktgen_hdr \<Rightarrow> bytes \<Rightarrow> pktgen_hdr" where
  "last_spec lst pkt = (case pkt_hdrs pkt of [] \<Rightarrow> lst | h # _ \<Rightarrow> h)"

text \<open>The loop's variables once \<open>k\<close> headers are done and bucket \<open>i\<close> is the current one.\<close>

definition ck_at :: "nat \<Rightarrow> nat \<Rightarrow> nat \<Rightarrow> nat \<Rightarrow> ck_vars \<Rightarrow> bool" where
  "ck_at l sz k i s \<longleftrightarrow> ck_hdr s = int k \<and> ck_i s = int i \<and> i * sz \<le> k * 16 \<and> k * 16 \<le> l \<and>
     ck_offset s = int (k * 16 - i * sz) \<and> ck_cur_len s = int (min sz (l - i * sz)) \<and>
     ck_len s = int (l - i * sz - min sz (l - i * sz))"

lemma iov_at_buckets: "i < nr \<Longrightarrow> iov_at (buckets b a sz nr) (int i)
    = ret \<lparr>iov_base = Ptr b (int (a + i * sz)), iov_len = of_nat sz\<rparr>"
  by (simp add: iov_at_def buckets_def)

lemma bucket_len_min:
  assumes "int l \<le> INT_MAX" "int sz \<le> INT_MAX"
  shows "bucket_len (int l) \<lparr>iov_base = q, iov_len = of_nat sz\<rparr> = int (min sz l)"
proof -
  have "is_i32 (int l)" "is_i32 (int sz)" using assms by (simp_all add: is_i32_def INT_MIN_def)
  moreover have "(of_nat l :: u64) < of_nat sz \<longleftrightarrow> l < sz"
    using assms by (intro of_nat_less_u64) (simp_all add: INT_MAX_def)
  ultimately show ?thesis
    using u64_to_int_to_u64 [of "int l"] u64_to_int_to_u64 [of "int sz"]
    by (simp add: bucket_len_def to_u64_of_nat)
qed

lemma wp_check_next:
  fixes w :: "('a, 'b) world_scheme"
  assumes at: "ck_at l sz k i s" and i: "i < nr" and k: "k * 16 + 16 \<le> l"
    and l: "l \<le> nr * sz" "0 < sz" "int (nr * sz) + 16 \<le> INT_MAX"
    and brk: "\<And>s'. ck_current s' = ck_current s \<Longrightarrow> l div 16 = Suc k \<Longrightarrow> Q (Inl s') w"
    and cont: "\<And>s' i'. ck_current s' = ck_current s \<Longrightarrow> ck_at l sz (Suc k) i' s' \<Longrightarrow> i' < nr \<Longrightarrow> Q (Inr s') w"
  shows "wp (check_next (buckets b a sz nr) (int nr) s) Q E w"
proof -
  define o1 r where "o1 = k * 16 - i * sz + 16" and "r = l - Suc i * sz"
  have le: "i * sz \<le> k * 16" "i * sz \<le> l" using at k by (simp_all add: ck_at_def)
  have "sz \<le> nr * sz" using i by (cases nr) simp_all
  moreover have "o1 \<le> l" "r \<le> l" using k by (simp_all add: o1_def r_def)
  ultimately have "int o1 \<le> int (nr * sz)" "int sz \<le> int (nr * sz)" "int l \<le> int (nr * sz)"
    "int r \<le> int (nr * sz)" using l(1) by (simp_all only: of_nat_le_iff)
  then have bnds: "int o1 \<le> INT_MAX" "int sz \<le> INT_MAX" "int l \<le> INT_MAX" "int r \<le> INT_MAX"
    using l(3) by linarith+
  have st: "ck_i s = int i" "ck_hdr s = int k" "ck_offset s + 16 = int o1" "ck_len s = int r"
    using at by (simp_all add: ck_at_def o1_def r_def)
  have cmp: "(of_nat sz :: u64) \<le> of_nat o1 \<longleftrightarrow> sz \<le> o1"
    using of_nat_less_u64 [of o1 sz] bnds by (simp add: INT_MAX_def linorder_not_less [symmetric])
  note run = check_next_def wp_simps iov_at_buckets Let_def st cmp to_u64_of_nat is_i32_nat bnds i
  show ?thesis
  proof (cases "sz \<le> o1")
    case False
    then show ?thesis
      using at k le by (simp add: run) (rule cont [of _ i], auto simp: ck_at_def o1_def i)
  next
    case True
    have nx: "Suc i * sz \<le> Suc k * 16" "Suc i * sz \<le> l" using True k le by (simp_all add: o1_def)
    have off: "u64_to_int (of_nat o1 - of_nat sz) = int (o1 - sz)"
    proof -
      have "(of_nat o1 - of_nat sz :: u64) = to_u64 (int (o1 - sz))"
        using True unfolding to_u64_of_nat by (simp add: of_nat_diff)
      moreover have "is_i32 (int (o1 - sz))" using bnds by (intro is_i32_nat) simp
      ultimately show ?thesis by (simp only: u64_to_int_to_u64)
    qed
    show ?thesis
    proof (cases "Suc i < nr")
      case False
      then have nr: "nr = Suc i" using i by simp
      then have "l = Suc k * 16" using nx l(1) k by simp
      then show ?thesis using True nr by (simp add: run) (rule brk, simp_all)
    next
      case more: True
      have "is_i32 (int (r - min sz r))" using bnds(4) by (intro is_i32_nat) simp
      then have i32: "is_i32 (int r - int (min sz r))" by (simp add: of_nat_diff)
      have iv: "iov_at (buckets b a sz nr) (int i + 1)
          = (ret \<lparr>iov_base = Ptr b (int (a + Suc i * sz)), iov_len = of_nat sz\<rparr> :: ('a, 'b, iovec) cprog)"
        using iov_at_buckets [OF more, of b a sz] by (simp add: add.commute)
      have at': "ck_at l sz (Suc k) (Suc i) (s\<lparr>ck_hdr := int k + 1, ck_offset := int o1 - int sz,
          ck_i := int i + 1, ck_cur_len := int (min sz r), ck_len := int r - int (min sz r)\<rparr>)"
        using nx k True le by (simp add: ck_at_def o1_def r_def)
      show ?thesis
        using True more i32 cont [OF _ at' more]
        by (simp add: run iv off of_nat_diff bucket_len_min [OF bnds(4,2)] del: int_plus)
    qed
  qed
qed

text \<open>Reading inside the packet, wherever the pointer into its block comes from.\<close>

lemma wp_load_packet:
  assumes pk: "packet_at w b a sz nr pkt" and "j + n \<le> length pkt"
    and "Q (take n (drop j pkt)) w"
  shows "wp (load (Ptr b (int (a + j))) (int n)) Q E w"
proof -
  from pk obtain bs where bs: "heap w b = Some bs" "a + nr * sz \<le> length bs"
    "take (length pkt) (drop a bs) = pkt" and l: "length pkt \<le> nr * sz"
    by (auto simp: packet_at_def)
  have "take n (drop j pkt) = take n (drop (a + j) bs)"
    using assms(2) by (subst bs(3) [symmetric]) (simp add: drop_take ac_simps)
  then show ?thesis
    using bs l assms(2,3) by (simp add: wp_simps nat_int_add)
qed

lemma wp_header_at:
  fixes w :: "('a, 'b) world_scheme"
  assumes pk: "packet_at w b a sz nr pkt" and at: "ck_at (length pkt) sz k i s" and i: "i < nr"
    and k: "k * 16 + 16 \<le> length pkt" and Q: "Q (Some (hdr_chunk pkt k)) w"
  shows "wp (header_at (buckets b a sz nr) (int nr) (ck_i s) (ck_offset s)
      (ck_cur_len s - ck_offset s)) Q E w"
proof -
  let ?l = "length pkt"
  define f where "f = ck_cur_len s - ck_offset s"
  have st: "ck_i s = int i" "ck_offset s = int (k * 16 - i * sz)" "i * sz \<le> k * 16"
    and cur: "ck_cur_len s = int (min sz (?l - i * sz))"
    using at by (simp_all add: ck_at_def)
  have pos: "int (a + i * sz) + int (k * 16 - i * sz) = int (a + k * 16)" using st(3) by simp
  have lim: "?l \<le> nr * sz" "int (nr * sz) + 16 \<le> INT_MAX" using pk by (simp_all add: packet_at_def)
  show ?thesis
  proof (cases "0 \<le> f \<and> f < 16")
    case False
    have "\<bar>f\<bar> < 2 ^ 63"
    proof -
      have "min sz (?l - i * sz) \<le> ?l" "k * 16 - i * sz \<le> ?l" using k by simp_all
      then have "\<bar>f\<bar> \<le> int ?l" unfolding f_def cur st(2) by linarith
      moreover have "int ?l \<le> int (nr * sz)" using lim(1) by (simp only: of_nat_le_iff)
      ultimately show ?thesis using lim(2) by (simp add: INT_MAX_def)
    qed
    then have u: "\<not> to_u64 f < to_u64 16" using False by (subst to_u64_less_small) auto
    have sixteen: "16 = int 16" by simp
    show ?thesis
      unfolding f_def [symmetric] unfolding header_at_def st(1,2) iov_at_buckets [OF i] bnd_ret iovec.simps
        ptr_add.simps pos if_not_P [OF u] wp_bnd
      by (subst sixteen, rule wp_load_packet [OF pk])
         (use Q k in \<open>simp_all add: hdr_chunk_def wp_simps\<close>)
  next
    case True
    define n where "n = nat f"
    have n: "f = int n" "n < 16" using True by (auto simp: n_def)
    have full: "min sz (?l - i * sz) = sz" "i * sz + sz < ?l"
    proof -
      have "\<not> ?l - i * sz \<le> sz"
      proof
        assume "?l - i * sz \<le> sz"
        then have "f = int (?l - i * sz) - int (k * 16 - i * sz)" unfolding f_def cur st(2) by simp
        also have "\<dots> = int ?l - int (k * 16)" using st(3) k by (simp add: of_nat_diff)
        finally show False using n k by simp
      qed
      then show "min sz (?l - i * sz) = sz" "i * sz + sz < ?l" by simp_all
    qed
    have nn: "k * 16 + n = i * sz + sz"
    proof -
      have "int sz - int (k * 16 - i * sz) = int n" using n(1) full(1) unfolding f_def cur st(2) by simp
      then show ?thesis using st(3) by linarith
    qed
    have "Suc i * sz < nr * sz" using full(2) lim(1) by simp
    then have nx: "Suc i < nr" by (simp only: mult_less_cancel2)
    have split: "hdr_chunk pkt k = take n (drop (k * 16) pkt) @ take (16 - n) (drop (i * sz + sz) pkt)"
      unfolding nn [symmetric] hdr_chunk_def
      using n(2) take_add [of n "16 - n" "drop (k * 16) pkt"] by (simp add: add.commute)
    have iv: "iov_at (buckets b a sz nr) (int i + 1)
        = (ret \<lparr>iov_base = Ptr b (int (a + (i * sz + sz))), iov_len = of_nat sz\<rparr> :: ('a, 'b, iovec) cprog)"
      using iov_at_buckets [OF nx, of b a sz] by (simp add: ac_simps)
    have u: "to_u64 (int n) < to_u64 16" using n by (subst to_u64_less_iff) auto
    have sub: "16 - int n = int (16 - n)" using n(2) by simp
    have nr: "\<not> int nr \<le> int i + 1" using nx by simp
    show ?thesis
      unfolding f_def [symmetric] unfolding header_at_def st(1,2) iov_at_buckets [OF i] iv bnd_ret iovec.simps
        ptr_add.simps pos Let_def n(1) sub if_P [OF u] if_not_P [OF nr] wp_bnd wp_ret
      by (rule wp_load_packet [OF pk], use n(2) k in simp)
         (rule wp_load_packet [OF pk], use n(2) nn k Q split in simp_all)
  qed
qed

lemma packet_at_last [simp]: "packet_at (w\<lparr>last_hdr := h\<rparr>) b a sz nr pkt = packet_at w b a sz nr pkt"
  by (simp add: packet_at_def)

lemma ck_at_bounds:
  assumes pk: "packet_at w b a sz nr pkt" and at: "ck_at (length pkt) sz k i s"
  shows "is_i32 (ck_cur_len s - ck_offset s)" "is_i32 (int (length pkt - k * 16))"
    "ck_cur_len s - ck_offset s + ck_len s = int (length pkt - k * 16)"
    "to_u64 (int (length pkt - k * 16)) < to_u64 16 \<longleftrightarrow> length pkt < k * 16 + 16"
proof -
  let ?l = "length pkt"
  have lim: "?l \<le> nr * sz" "int (nr * sz) + 16 \<le> INT_MAX" using pk by (simp_all add: packet_at_def)
  have "int ?l \<le> int (nr * sz)" using lim(1) by (simp only: of_nat_le_iff)
  then have l: "int ?l \<le> INT_MAX" using lim(2) by linarith
  have st: "ck_offset s = int (k * 16 - i * sz)" "i * sz \<le> k * 16" "k * 16 \<le> ?l"
    "ck_cur_len s = int (min sz (?l - i * sz))" "ck_len s = int (?l - i * sz - min sz (?l - i * sz))"
    using at by (simp_all add: ck_at_def)
  have "min sz (?l - i * sz) \<le> ?l" "k * 16 - i * sz \<le> ?l" using st by simp_all
  then show "is_i32 (ck_cur_len s - ck_offset s)"
    using l unfolding st(1,4) is_i32_def INT_MIN_def INT_MAX_def by linarith
  show "is_i32 (int (?l - k * 16))" using l by (intro is_i32_nat) simp
  have "min sz (?l - i * sz) \<le> ?l - i * sz" by simp
  then show "ck_cur_len s - ck_offset s + ck_len s = int (?l - k * 16)"
    using st(2,3) unfolding st(1,4,5) by linarith
  show "to_u64 (int (?l - k * 16)) < to_u64 16 \<longleftrightarrow> ?l < k * 16 + 16"
    using l st(3) by (subst to_u64_less_iff) (auto simp: INT_MAX_def)
qed

lemma wp_check_iter:
  assumes pk: "packet_at w b a sz nr pkt" and at: "ck_at (length pkt) sz k i s" and i: "i < nr"
    and fin: "length pkt < k * 16 + 16 \<Longrightarrow> Q (Inl (p, s)) w"
    and one: "\<And>p' h. k * 16 + 16 \<le> length pkt \<Longrightarrow> k = 0 \<Longrightarrow> h = hdr_of (hdr_chunk pkt 0) \<Longrightarrow>
      p' = check_first (last_hdr w) h p \<Longrightarrow> check p' < 2 \<Longrightarrow> Q (Inl (p', s)) (w\<lparr>last_hdr := h\<rparr>)"
    and brk: "\<And>p' s' w' h. k * 16 + 16 \<le> length pkt \<Longrightarrow> length pkt div 16 = Suc k \<Longrightarrow>
      h = hdr_of (hdr_chunk pkt k) \<Longrightarrow>
      (p', w', ck_current s') = (if k = 0 then (check_first (last_hdr w) h p, w\<lparr>last_hdr := h\<rparr>, h)
        else (p\<lparr>bad_repeat := bad_repeat p + of_bool (ck_current s \<noteq> h)\<rparr>, w, ck_current s)) \<Longrightarrow>
      (k = 0 \<longrightarrow> \<not> check p' < 2) \<Longrightarrow> Q (Inl (p', s')) w'"
    and cont: "\<And>p' s' w' h i'. k * 16 + 16 \<le> length pkt \<Longrightarrow> ck_at (length pkt) sz (Suc k) i' s' \<Longrightarrow>
      i' < nr \<Longrightarrow> h = hdr_of (hdr_chunk pkt k) \<Longrightarrow>
      (p', w', ck_current s') = (if k = 0 then (check_first (last_hdr w) h p, w\<lparr>last_hdr := h\<rparr>, h)
        else (p\<lparr>bad_repeat := bad_repeat p + of_bool (ck_current s \<noteq> h)\<rparr>, w, ck_current s)) \<Longrightarrow>
      (k = 0 \<longrightarrow> \<not> check p' < 2) \<Longrightarrow> Q (Inr (p', s')) w'"
  shows "wp (check_iter (buckets b a sz nr) (int nr) p s) Q E w"
proof (cases "length pkt < k * 16 + 16")
  case True
  with fin show ?thesis
    by (simp only: check_iter_def wp_simps ck_at_bounds [OF pk at] if_True simp_thms)
next
  case False
  then have k: "k * 16 + 16 \<le> length pkt" by simp
  have lim: "length pkt \<le> nr * sz" "0 < sz" "int (nr * sz) + 16 \<le> INT_MAX"
    using pk by (simp_all add: packet_at_def)
  have ch: "length (hdr_chunk pkt k) = 16" using k by (simp add: hdr_chunk_def)
  have cmp: "hdr_bytes c = hdr_chunk pkt k \<longleftrightarrow> c = hdr_of (hdr_chunk pkt k)" for c
    using pgh.enc_dec [OF ch] by (metis pgh.dec_enc)
  have hk: "ck_hdr s = int k" using at by (simp add: ck_at_def)
  note nxt = wp_check_next [OF _ i k lim]
  have at': "ck_at (length pkt) sz k i (s\<lparr>ck_current := c\<rparr>)" for c
    using at by (simp add: ck_at_def)
  let ?h = "hdr_of (hdr_chunk pkt k)"
  show ?thesis
    unfolding check_iter_def wp_bnd [of "chk_i32 _"] wp_chk wp_if if_not_P
  proof (simp only: False if_False simp_thms ck_at_bounds [OF pk at] wp_bnd,
      rule wp_header_at [OF pk at i k], goal_cases)
    case 1
    consider "k = 0" "check (check_first (last_hdr w) ?h p) < 2"
      | "k = 0" "\<not> check (check_first (last_hdr w) ?h p) < 2" | "0 < k" by blast
    then show ?case
    proof cases
      case 1
      then show ?thesis using k one [of ?h] by (simp add: Let_def wp_simps hk)
    next
      case 2
      then show ?thesis
        using k by (auto simp: Let_def wp_simps hk intro!: nxt [OF at'] brk [of ?h] cont [of _ _ ?h])
    next
      case 3
      then show ?thesis
        using k by (auto simp: Let_def wp_simps hk cmp intro!: nxt [OF at] brk [of ?h] cont [of _ _ ?h])
    qed
  qed
qed

text \<open>The repetitions: every header after the first is compared with it.\<close>

definition bad_from :: "bytes \<Rightarrow> pktgen_hdr \<Rightarrow> nat \<Rightarrow> nat" where
  "bad_from pkt h k = length (filter (\<lambda>g. g \<noteq> h) (drop k (pkt_hdrs pkt)))"

lemma bad_from_step:
  "k * 16 + 16 \<le> length pkt \<Longrightarrow>
   bad_from pkt h k = of_bool (h \<noteq> hdr_of (hdr_chunk pkt k)) + bad_from pkt h (Suc k)"
proof -
  assume "k * 16 + 16 \<le> length pkt"
  then have "k < length (pkt_hdrs pkt)" by (simp add: pkt_hdrs_def)
  moreover from this have "pkt_hdrs pkt ! k = hdr_of (hdr_chunk pkt k)" by (simp add: pkt_hdrs_def)
  ultimately show ?thesis by (simp add: bad_from_def Cons_nth_drop_Suc [symmetric])
qed

lemma bad_from_end: "length pkt < k * 16 + 16 \<Longrightarrow> bad_from pkt h k = 0"
  by (simp add: bad_from_def pkt_hdrs_def)

lemma wp_check_loop_rest:
  assumes "packet_at w b a sz nr pkt" "ck_at (length pkt) sz k i s" "i < nr" "0 < k"
    "length pkt div 16 < n + k"
    and "\<And>s'. ck_current s' = ck_current s \<Longrightarrow>
      Q (p\<lparr>bad_repeat := bad_repeat p + int (bad_from pkt (ck_current s) k)\<rparr>, s') w"
  shows "wp (check_loop n (buckets b a sz nr) (int nr) p s) Q E w"
  using assms
proof (induction n arbitrary: k i s p)
  case 0
  then have "k * 16 \<le> length pkt" by (simp add: ck_at_def)
  with 0 show ?case by simp
next
  case (Suc n)
  show ?case
    unfolding check_loop.simps wp_bnd
  proof (rule wp_check_iter [OF Suc.prems(1-3)], goal_cases)
    case 1
    then show ?case using Suc.prems(6) [of s] by (simp add: wp_simps bad_from_end)
  next
    case (2 p' h)
    then show ?case using Suc.prems(4) by simp
  next
    case (3 p' s' w' h)
    then have "bad_from pkt (ck_current s) (Suc k) = 0" by (intro bad_from_end) simp
    then show ?case
      using 3 Suc.prems(4) Suc.prems(6) [of s'] by (simp add: wp_simps bad_from_step)
  next
    case (4 p' s' w' h i')
    have "wp (check_loop n (buckets b a sz nr) (int nr) p' s') Q E w"
      by (rule Suc.IH [OF Suc.prems(1) 4(2,3)])
         (use 4 Suc.prems(4-6) in \<open>auto simp: bad_from_step ac_simps\<close>)
    then show ?case using 4 Suc.prems(4) by simp
  qed
qed

lemma check_first_fields [simp]: "check (check_first lst h p) = check p"
  by (simp add: check_first_def Let_def)

definition checks_failed :: "sink_params \<Rightarrow> bool" where
  "checks_failed p \<longleftrightarrow> ooo p \<noteq> 0 \<or> bad_repeat p \<noteq> 0 \<or> bad_magic p \<noteq> 0"

lemma pkt_hdrs_short: "length pkt < 16 \<Longrightarrow> pkt_hdrs pkt = []"
  by (simp add: pkt_hdrs_def)

lemma pkt_hdrs_Cons: "16 \<le> length pkt \<Longrightarrow>
    pkt_hdrs pkt = hdr_of (hdr_chunk pkt 0) # drop 1 (pkt_hdrs pkt)"
proof -
  assume "16 \<le> length pkt"
  then have "0 < length pkt div 16" by (simp add: div_greater_zero_iff)
  then have "[0..<length pkt div 16] = 0 # [1..<length pkt div 16]" by (simp add: upt_conv_Cons)
  then show ?thesis by (simp add: pkt_hdrs_def)
qed

lemma spec_short: "length pkt < 16 \<Longrightarrow> check_spec lst pkt p = p \<and> last_spec lst pkt = lst"
  by (simp add: check_spec_def last_spec_def pkt_hdrs_short)

lemma spec_long:
  assumes "16 \<le> length pkt" "h = hdr_of (hdr_chunk pkt 0)"
  shows "last_spec lst pkt = h"
    "check_spec lst pkt p = (if check p < 2 then check_first lst h p
       else (check_first lst h p)\<lparr>bad_repeat := bad_repeat (check_first lst h p) + int (bad_from pkt h 1)\<rparr>)"
  using assms by (subst check_spec_def last_spec_def, subst pkt_hdrs_Cons, simp, simp add: bad_from_def Let_def)+

lemma wp_check_loop:
  assumes pk: "packet_at w b a sz nr pkt" and at: "ck_at (length pkt) sz 0 0 s"
    and n: "length pkt div 16 < n" and cur: "ck_current s = hdr_zero"
    and Q: "\<And>s'. ck_current s' = hdr_zero \<or> ck_current s' = last_spec (last_hdr w) pkt \<Longrightarrow>
      Q (check_spec (last_hdr w) pkt p, s') (w\<lparr>last_hdr := last_spec (last_hdr w) pkt\<rparr>)"
  shows "wp (check_loop n (buckets b a sz nr) (int nr) p s) Q E w"
proof -
  obtain m where m: "n = Suc m" using n by (cases n) simp_all
  have nr: "0 < nr" using pk by (simp add: packet_at_def)
  show ?thesis
    unfolding m check_loop.simps wp_bnd
  proof (rule wp_check_iter [OF pk at nr], goal_cases)
    case 1
    then show ?case using Q [of s] cur by (simp add: wp_simps spec_short)
  next
    case (2 p' h)
    then show ?case using Q [of s] cur spec_long [of pkt h "last_hdr w"] by (simp add: wp_simps)
  next
    case (3 p' s' w' h)
    then have "bad_from pkt h 1 = 0" by (intro bad_from_end) simp
    then show ?case using 3 Q [of s'] spec_long [of pkt h "last_hdr w"] by (auto simp: wp_simps)
  next
    case (4 p' s' w' h i')
    have w': "packet_at w' b a sz nr pkt" "w' = w\<lparr>last_hdr := h\<rparr>" using 4 pk by simp_all
    have "wp (check_loop m (buckets b a sz nr) (int nr) p' s') Q E w'"
      by (rule wp_check_loop_rest [OF w'(1) 4(2,3)])
         (use 4 n m Q spec_long [of pkt h "last_hdr w"] w'(2) in auto)
    then show ?case by simp
  qed
qed

lemma wp_check_pkt_full:
  assumes pk: "packet_at w b a sz nr pkt"
    and ok: "\<not> (2 < check p \<and> checks_failed (check_spec (last_hdr w) pkt p)) \<Longrightarrow>
      Q (check_spec (last_hdr w) pkt p) (w\<lparr>last_hdr := last_spec (last_hdr w) pkt\<rparr>)"
    and bad: "\<And>m. 2 < check p \<Longrightarrow> checks_failed (check_spec (last_hdr w) pkt p) \<Longrightarrow>
      E EXIT_FAIL_RECV (say m (w\<lparr>last_hdr := last_spec (last_hdr w) pkt\<rparr>))"
  shows "wp (check_pkt_full (buckets b a sz nr) (int nr) (int (length pkt)) p) Q E w"
proof -
  let ?l = "length pkt"
  have lim: "?l \<le> nr * sz" "int (nr * sz) + 16 \<le> INT_MAX" "0 < nr" using pk by (simp_all add: packet_at_def)
  have "sz \<le> nr * sz" using lim(3) by simp
  then have "int ?l \<le> int (nr * sz)" "int sz \<le> int (nr * sz)" using lim(1) by (simp_all only: of_nat_le_iff)
  then have b: "int ?l \<le> INT_MAX" "int sz \<le> INT_MAX" using lim(2) by linarith+
  have i32: "is_i32 (int ?l - int (min sz ?l))"
  proof -
    have "is_i32 (int (?l - min sz ?l))" using b(1) by (intro is_i32_nat) simp
    then show ?thesis by (simp add: of_nat_diff)
  qed
  have iv: "iov_at (buckets b a sz nr) 0
      = (ret \<lparr>iov_base = Ptr b (int a), iov_len = of_nat sz\<rparr> :: ('a, 'b) sink_world_scheme \<Rightarrow> _)"
    using iov_at_buckets [OF lim(3), of b a sz] by simp
  have chk: "check (check_spec (last_hdr w) pkt p) = check p"
    by (simp add: check_spec_def Let_def split: list.split)
  have eq: "w\<lparr>last_hdr := h, last_hdr := h\<rparr> = w\<lparr>last_hdr := h\<rparr>" for h by simp
  show ?thesis
    unfolding check_pkt_full_def iv bnd_ret Let_def bucket_len_min [OF b] wp_bnd [of "chk_i32 _"] wp_chk
      wp_bnd [of "check_loop _ _ _ _ _"]
    by (intro conjI i32 wp_check_loop [OF pk])
       (use ok bad chk in \<open>auto simp: ck_at_def hdr_zero_def wp_simps checks_failed_def\<close>)
qed

section \<open>Properties\<close>

text \<open>A process of \<open>udp_sink\<close> at its start.\<close>

definition sink_boot :: "'k \<Rightarrow> 'k sink_world" where
  "sink_boot k = \<lparr>kern = k, errno = 0, verbose = 0, heap = Map.empty, next_blk = 0, trace = [],
     out = [], last_hdr = hdr_zero\<rparr>"

text \<open>
  C2.  \<open>__check_pkt\<close> is safe, ends, and checks the packet's headers.  For a packet that lies in
  \<open>nr\<close> consecutive buckets of any size \<open>sz\<close>, also one that splits headers or is smaller than a
  header, the walk with its \<open>int\<close> and \<open>size_t\<close> arithmetic reads only inside the block, overflows
  nowhere and ends within its fuel.  Its effect is the one of \<open>check_spec\<close> on the list of the
  packet's 16-byte headers: it returns the updated counters and remembers the first header, or,
  at level 3 with a counter that is not zero, exits with \<open>EXIT_FAIL_RECV\<close> and changes nothing else.
\<close>

theorem check_pkt_refines:
  assumes "packet_at w b a sz nr pkt"
  shows "wp (check_pkt_full (buckets b a sz nr) (int nr) (int (length pkt)) p)
    (\<lambda>p' w'. p' = check_spec (last_hdr w) pkt p \<and> \<not> (2 < check p \<and> checks_failed p')
       \<and> w' = w\<lparr>last_hdr := last_spec (last_hdr w) pkt\<rparr>)
    (\<lambda>c w'. c = EXIT_FAIL_RECV \<and> 2 < check p \<and> checks_failed (check_spec (last_hdr w) pkt p)
       \<and> (\<exists>m. w' = say m (w\<lparr>last_hdr := last_spec (last_hdr w) pkt\<rparr>))) w"
  by (rule wp_check_pkt_full [OF assms]) auto

theorem check_pkt_refines_witness:
  "wp (check_pkt_full (buckets 0 3 7 5) (int 5) (int (length (replicate 33 (0::u8))))
       (sink_init_params\<lparr>check := 2\<rparr>))
    (\<lambda>p' w'. bad_magic p' = 1 \<and> bad_repeat p' = 0) (\<lambda>c w'. False)
    ((sink_boot ())\<lparr>heap := [0 \<mapsto> replicate 40 0]\<rparr>)"
proof -
  have "packet_at ((sink_boot ())\<lparr>heap := [0 \<mapsto> replicate 40 0]\<rparr>) 0 3 7 5 (replicate 33 0)"
    by (simp add: packet_at_def INT_MAX_def)
  note * = check_pkt_refines [OF this, of "sink_init_params\<lparr>check := 2\<rparr>"]
  have h: "pkt_hdrs (replicate 33 0) = [hdr_zero, hdr_zero]"
    by code_simp
  have m: "ntohl 0 \<noteq> PKTGEN_MAGIC" by code_simp
  show ?thesis
    by (rule wp_conseq [OF *])
       (use m in \<open>auto simp: check_spec_def h check_first_def Let_def hdr_zero_def
          sink_init_params_def sink_boot_def\<close>)
qed

text \<open>The counters of a packet's check, one by one.\<close>

lemma check_first_counters:
  "bad_magic (check_first lst h p) = bad_magic p + of_bool (ntohl (pgh_magic h) \<noteq> PKTGEN_MAGIC)"
  "ooo (check_first lst h p) = ooo p + of_bool (pgh_magic lst \<noteq> 0 \<and> out_of_order lst h)
     + of_bool (2 < check p \<and> pgh_magic lst \<noteq> 0 \<and> seq_num h \<noteq> seq_num lst + 1)"
  "bad_repeat (check_first lst h p) = bad_repeat p"
  by (simp_all add: check_first_def Let_def)

lemma check_spec_counters:
  assumes "pkt_hdrs pkt = h # hs"
  shows "bad_magic (check_spec lst pkt p) = bad_magic (check_first lst h p)"
    "ooo (check_spec lst pkt p) = ooo (check_first lst h p)"
    "bad_repeat (check_spec lst pkt p)
       = bad_repeat p + (if check p < 2 then 0 else int (length (filter (\<lambda>g. g \<noteq> h) hs)))"
  by (simp_all add: check_spec_def assms Let_def check_first_counters)

definition clean :: "int \<Rightarrow> pktgen_hdr \<Rightarrow> bytes \<Rightarrow> bool" where
  "clean level lst pkt \<longleftrightarrow> (case pkt_hdrs pkt of [] \<Rightarrow> True | h # hs \<Rightarrow>
     ntohl (pgh_magic h) = PKTGEN_MAGIC
     \<and> (pgh_magic lst \<noteq> 0 \<longrightarrow> \<not> out_of_order lst h \<and> (2 < level \<longrightarrow> seq_num h = seq_num lst + 1))
     \<and> (2 \<le> level \<longrightarrow> (\<forall>g \<in> set hs. g = h)))"

lemma filter_none_iff: "int (length (filter P xs)) = 0 \<longleftrightarrow> (\<forall>x \<in> set xs. \<not> P x)"
  by (simp add: filter_empty_conv)

lemma checks_failed_iff:
  assumes p: "ooo p = 0" "bad_magic p = 0" "bad_repeat p = 0"
  shows "checks_failed (check_spec lst pkt p) \<longleftrightarrow> \<not> clean (check p) lst pkt"
proof (cases "pkt_hdrs pkt")
  case Nil
  with p show ?thesis by (simp add: check_spec_def checks_failed_def clean_def)
next
  case (Cons h hs)
  show ?thesis
    unfolding checks_failed_def clean_def Cons check_spec_counters [OF Cons] check_first_counters
    using p filter_none_iff [of "\<lambda>g. g \<noteq> h" hs] by (auto simp: of_bool_def)
qed

text \<open>
  C13.  The checker counts exactly the packets that are not clean.  With all counters at zero, the
  check of a packet leaves them at zero if and only if the packet is clean: it holds no header, or
  its first header has the magic number, is not out of order with the header remembered, follows
  it directly (level 3), and all its other headers are copies of it (level 2 and above).  At
  level 3 a packet that is not clean ends the process with \<open>EXIT_FAIL_RECV\<close>, and no other does.
\<close>

theorem check_pkt_detects:
  assumes pk: "packet_at w b a sz nr pkt" and p: "ooo p = 0" "bad_magic p = 0" "bad_repeat p = 0"
  shows "wp (check_pkt_full (buckets b a sz nr) (int nr) (int (length pkt)) p)
    (\<lambda>p' w'. (ooo p' = 0 \<and> bad_magic p' = 0 \<and> bad_repeat p' = 0 \<longleftrightarrow> clean (check p) (last_hdr w) pkt)
       \<and> (2 < check p \<longrightarrow> clean (check p) (last_hdr w) pkt))
    (\<lambda>c w'. c = EXIT_FAIL_RECV \<and> 2 < check p \<and> \<not> clean (check p) (last_hdr w) pkt) w"
  using checks_failed_iff [OF p, of "last_hdr w" pkt]
  by (intro wp_check_pkt_full [OF pk]) (auto simp: checks_failed_def)

theorem check_pkt_detects_witness:
  "wp (check_pkt_full (buckets 0 0 10 2) (int 2) (int (length (replicate 16 (1::u8))))
       (sink_init_params\<lparr>check := 3\<rparr>))
    (\<lambda>p' w'. False) (\<lambda>c w'. c = 104) ((sink_boot ())\<lparr>heap := [0 \<mapsto> replicate 20 1]\<rparr>)"
proof -
  have pk: "packet_at ((sink_boot ())\<lparr>heap := [0 \<mapsto> replicate 20 1]\<rparr>) 0 0 10 2 (replicate 16 1)"
    by (simp add: packet_at_def INT_MAX_def)
  have "\<not> clean 3 hdr_zero (replicate 16 1)"
    by code_simp
  then show ?thesis
    by (intro wp_conseq [OF check_pkt_detects [OF pk, of "sink_init_params\<lparr>check := 3\<rparr>"]])
       (auto simp: sink_init_params_def sink_boot_def EXIT_FAIL_RECV_def)
qed

text \<open>
  C22.  The number and the size of the buckets do not matter.  The same packet in two different
  vectors, checked by processes that remember the same header, gives the same result: both return
  the same counters and remember the same header, or both exit with the same status.
\<close>

theorem check_pkt_bucket_independent:
  fixes w :: "('k, 'm) sink_world_scheme" and v :: "('l, 'n) sink_world_scheme"
  assumes pw: "packet_at w b a sz nr pkt" and pv: "packet_at v b' a' sz' nr' pkt"
    and same: "last_hdr v = last_hdr w"
  shows "\<exists>w' v' x. check_pkt_full (buckets b a sz nr) (int nr) (int (length pkt)) p w = (x, w')
    \<and> check_pkt_full (buckets b' a' sz' nr') (int nr') (int (length pkt)) p v = (x, v')
    \<and> last_hdr v' = last_hdr w' \<and> (\<exists>p'. x \<in> {Done p', Exit EXIT_FAIL_RECV})"
proof -
  have ex: "\<exists>u'. check_pkt_full (buckets b a sz nr) (int nr) (int (length pkt)) p u
      = (if 2 < check p \<and> checks_failed (check_spec (last_hdr u) pkt p) then Exit EXIT_FAIL_RECV
         else Done (check_spec (last_hdr u) pkt p), u') \<and> last_hdr u' = last_spec (last_hdr u) pkt"
    if "packet_at u b a sz nr pkt" for u :: "('x, 'y) sink_world_scheme" and b a sz nr
  proof -
    let ?m = "check_pkt_full (buckets b a sz nr) (int nr) (int (length pkt)) p"
    have "wp ?m
      (\<lambda>p' w'. p' = check_spec (last_hdr u) pkt p \<and> \<not> (2 < check p \<and> checks_failed p')
         \<and> last_hdr w' = last_spec (last_hdr u) pkt)
      (\<lambda>c w'. c = EXIT_FAIL_RECV \<and> 2 < check p \<and> checks_failed (check_spec (last_hdr u) pkt p)
         \<and> last_hdr w' = last_spec (last_hdr u) pkt) u"
      by (rule wp_check_pkt_full [OF that]) (auto simp: say_def)
    then show ?thesis by (rule wp_cases) auto
  qed
  from ex [OF pw] ex [OF pv] same show ?thesis by (auto split: if_splits)
qed

theorem check_pkt_bucket_independent_witness:
  "\<exists>w' v' x. check_pkt_full (buckets 0 0 40 1) (int 1) (int (length (replicate 40 (9::u8))))
       sink_init_params ((sink_boot ())\<lparr>heap := [0 \<mapsto> replicate 40 9]\<rparr>) = (x, w')
    \<and> check_pkt_full (buckets 0 2 5 8) (int 8) (int (length (replicate 40 (9::u8))))
       sink_init_params ((sink_boot ())\<lparr>heap := [0 \<mapsto> replicate 42 9]\<rparr>) = (x, v')
    \<and> last_hdr v' = last_hdr w' \<and> (\<exists>p'. x \<in> {Done p', Exit EXIT_FAIL_RECV})"
  by (rule check_pkt_bucket_independent) (simp_all add: packet_at_def INT_MAX_def sink_boot_def)

end
