(* ===== verification/UdpSink_Props.thy ===== *)
theory UdpSink_Props
  imports UdpSink_Check Traffic
begin

text \<open>
  The correctness of the receive loops: the contract \<open>counting_receiver\<close> of a loop that makes
  \<open>--count\<close> receiving calls, proved for the loops of \<open>udp_sink.c\<close> that keep it, and what a measured
  run of such a loop reports.
\<close>

section \<open>The contract\<close>

definition sink_pre :: "sink_params \<Rightarrow> ('k, 'm) world_scheme \<Rightarrow> bool" where
  "sink_pre p w \<longleftrightarrow> 0 < count p \<and> count p \<le> INT_MAX \<and> 0 \<le> buf_sz p \<and> buf_sz p + 16 \<le> INT_MAX \<and> wf_heap w"

text \<open>
  What a receive loop reports: as many calls as asked for, each of them a success or \<open>EAGAIN\<close>, the
  successes counted by the result and their bytes by the record.
\<close>

definition sink_post ::
  "sysreq \<Rightarrow> sink_params \<Rightarrow> ('k, 'm) sink_world_scheme \<Rightarrow> int \<Rightarrow> time_bench_record
   \<Rightarrow> ('k, 'm) sink_world_scheme \<Rightarrow> bool" where
  "sink_post rq p w res r' w' \<longleftrightarrow> heap w' = heap w \<and> wf_heap w' \<and>
     (\<exists>es. trace w' = trace w @ es \<and> rx_run (\<lambda>q. q = rq) (nat (count p)) (rxs es)
        \<and> res = int (n_ok (rxs es)) \<and> bytes_cnt r' = rx_sum (rxs es)
        \<and> try_again r' = of_nat (nat (count p) - n_ok (rxs es)))"

text \<open>The exits of a receive loop: no memory, or an error the socket is closed after.\<close>

definition sink_exit :: "int \<Rightarrow> ('k, 'm) world_scheme \<Rightarrow> int \<Rightarrow> ('k, 'm) world_scheme \<Rightarrow> bool" where
  "sink_exit fd w c w' \<longleftrightarrow> c = EXIT_FAIL_MEM \<or> c = EXIT_FAIL_SOCK \<and>
     (\<exists>es. trace w' = trace w @ es \<and> es \<noteq> [] \<and> fst (last es) = Rq_close fd
        \<and> rx_failed (rxs es))"

section \<open>One buffer\<close>

lemma last_hdr_fields [simp]:
  "last_hdr (after_call K rq w) = last_hdr w" "last_hdr (say m w) = last_hdr w"
  "last_hdr (set_block b x w) = last_hdr w" "last_hdr (new_block bs w) = last_hdr w"
  by (simp_all add: after_call_def say_def set_block_def new_block_def)

text \<open>Between two iterations: the payload buffer is the one new block.\<close>

definition rxbuf_inv :: "nat \<Rightarrow> ('k, 'm) world_scheme \<Rightarrow> nat \<Rightarrow> ('k, 'm) world_scheme \<Rightarrow> bool" where
  "rxbuf_inv n w b v \<longleftrightarrow> next_blk v = next_blk w \<and> (\<exists>bs. heap v = (heap w)(b \<mapsto> bs) \<and> length bs = n)"

lemma wp_recv_step:
  assumes inv: "rxbuf_inv (unat sz) w b v" and rq: "is_rx rq"
  shows "wp (bnd (recv_into K rq (Ptr b 0) sz) (\<lambda>res.
      if res < 0 then try_again_or_fail r res (\<lambda>r'. (tot, r'))
      else ret (Inr (tot + to_u64 res, r))))
    (\<lambda>x v'. rx_step (\<lambda>q. q = rq) fst (\<lambda>a. try_again (snd a)) (tot, r) v x v' \<and>
       (case x of Inl res \<Rightarrow> rxbuf_inv (unat sz) w b v' | Inr a \<Rightarrow> rxbuf_inv (unat sz) w b v')) E v"
  using assms
  by (auto simp: recv_into_def try_again_or_fail_def wp_simps rxbuf_inv_def rx_step_def rx_ok_def
      rx_again_def) (intro exI conjI, rule refl, simp)

lemma u64_diff_ok:
  assumes "k \<le> n" "int n \<le> INT_MAX"
  shows "u64_to_int (of_nat n - of_nat (n - k)) = int k"
proof -
  have "(of_nat n - of_nat (n - k) :: u64) = to_u64 (int k)"
    using assms(1) by (simp add: of_nat_diff to_u64_of_nat)
  moreover have "is_i32 (int k)" using assms by (intro is_i32_nat) simp
  ultimately show ?thesis by (simp only: u64_to_int_to_u64)
qed

text \<open>The whole loop on a buffer that was just allocated, up to the branch that follows it.\<close>

lemma wp_recv_loop:
  fixes w v :: "('k, 'm) world_scheme"
  assumes heap: "heap v = (heap w)(b \<mapsto> bs)" "length bs = unat sz" "next_blk v = next_blk w"
    and rq: "is_rx rq"
  shows "wp (for_break 0 n (\<lambda>i (tot, r).
      bnd (recv_into K rq (Ptr b 0) sz) (\<lambda>res.
      if res < 0 then try_again_or_fail r res (\<lambda>r'. (tot, r'))
      else ret (Inr (tot + to_u64 res, r)))) (0, r0))
    (\<lambda>x v'. rxbuf_inv (unat sz) w b v' \<and> (\<exists>es. trace v' = trace v @ es \<and>
      (case x of
         Inl res \<Rightarrow> rx_failed (rxs es)
       | Inr (tot, r) \<Rightarrow> rx_run (\<lambda>q. q = rq) (nat n) (rxs es) \<and> tot = rx_sum (rxs es)
           \<and> try_again r = try_again r0 + of_nat (nat n - n_ok (rxs es))))) E v"
proof (rule wp_conseq [where E = E], rule wp_rx_loop [where J = "\<lambda>i a. rxbuf_inv (unat sz) w b"
      and JE = "rxbuf_inv (unat sz) w b" and tot = fst and again = "\<lambda>a. try_again (snd a)"
      and R = "\<lambda>q. q = rq"], goal_cases)
  case 1
  from heap show ?case by (auto simp: rxbuf_inv_def)
next
  case (3 i a v)
  then show ?case
    by (cases a) (simp only: prod.case, rule wp_recv_step [OF _ rq], simp)
next
  case (4 x v')
  then show ?case by (cases x) auto
qed simp_all

lemma wp_report_payload:
  assumes "i \<noteq> 0" and "\<And>w'. heap w' = heap w \<Longrightarrow> trace w' = trace w \<Longrightarrow> next_blk w' = next_blk w \<Longrightarrow>
      world.more w' = world.more w \<Longrightarrow> Q () w'"
  shows "wp (report_payload tot i) Q E w"
  using assms by (auto simp: report_payload_def wp_simps say_def)

lemma wp_report_read:
  assumes "\<And>w'. heap w' = heap w \<Longrightarrow> trace w' = trace w \<Longrightarrow> next_blk w' = next_blk w \<Longrightarrow> Q () w'"
  shows "wp (report_read tot i) Q E w"
  using assms by (auto simp: report_read_def wp_simps)

locale counting_receiver =
  fixes func :: "('k, 'm) sink_fun" and mk :: "int \<Rightarrow> sink_params \<Rightarrow> sysreq"
  assumes receives: "sink_pre p w \<Longrightarrow> try_again r = 0 \<Longrightarrow>
      wp (func K fd p r) (\<lambda>(res, p', r') w'. p' = p \<and> sink_post (mk fd p) p w res r' w')
        (sink_exit fd w) w"

text \<open>The three loops on one buffer differ in the call and in the report.\<close>

lemma wp_recv_with_buffer:
  fixes w :: "('k, 'm) sink_world_scheme"
  assumes pre: "sink_pre p w" and again: "try_again r0 = 0" and rq: "is_rx rq"
    and report: "\<And>tot Q w'. (\<And>w''. heap w'' = heap w' \<Longrightarrow> trace w'' = trace w' \<Longrightarrow>
        next_blk w'' = next_blk w' \<Longrightarrow> Q () w'') \<Longrightarrow> wp (report tot) Q (sink_exit fd w) w'"
  shows "wp (bnd (malloc_payload_buffer K (buf_sz p)) (\<lambda>buffer.
     bnd (for_break 0 (count p) (\<lambda>i (tot, r).
            bnd (recv_into K rq buffer (to_u64 (buf_sz p))) (\<lambda>res.
            if res < 0 then try_again_or_fail r res (\<lambda>r'. (tot, r'))
            else ret (Inr (tot + to_u64 res, r)))) (0, r0)) (\<lambda>x.
     case x of
       Inr (tot, r) \<Rightarrow>
          bnd (report tot) (\<lambda>_.
          bnd (free buffer) (\<lambda>_.
          ret (u64_to_int (to_u64 (max 0 (count p)) - try_again (r\<lparr>bytes_cnt := tot\<rparr>)), p,
               r\<lparr>bytes_cnt := tot\<rparr>)))
     | Inl res \<Rightarrow>
         bnd (sink_error fct msg res) (\<lambda>_.
         bnd (free buffer) (\<lambda>_.
         bnd (syscall K (Rq_close fd)) (\<lambda>_.
         exit_with EXIT_FAIL_SOCK))))))
    (\<lambda>(res, p', r') w'. p' = p \<and> sink_post rq p w res r' w') (sink_exit fd w) w"
  unfolding wp_bnd [of "malloc_payload_buffer _ _"]
proof (rule wp_malloc_payload_buffer, goal_cases)
  case (1 w' r)
  then show ?case by (simp add: sink_exit_def)
next
  case (2 w1 r1)
  let ?b = "next_blk w"
  let ?w = "w1\<lparr>heap := heap w\<rparr>"
  have cnt: "0 < count p" "count p \<le> INT_MAX" and wf: "wf_heap w" using pre by (simp_all add: sink_pre_def)
  have free: "(heap w)(?b := None) = heap w" using wf by (simp add: wf_heap_def fun_upd_idem)
  show ?case
    unfolding wp_bnd [of "for_break _ _ _ _"]
  proof (rule wp_conseq [OF wp_recv_loop [where w = ?w and v = w1 and b = ?b
          and bs = "replicate (unat (to_u64 (buf_sz p))) 0"], OF _ _ _ rq], goal_cases)
    case (4 x w2)
    then obtain es bs where h: "heap w2 = (heap w)(?b \<mapsto> bs)" "next_blk w2 = Suc (next_blk w)"
      and tr: "trace w2 = trace w @ ((Rq_malloc (to_u64 (buf_sz p)), r1) # es)"
      and x: "case x of Inl res \<Rightarrow> rx_failed (rxs es)
       | Inr (tot, r) \<Rightarrow> rx_run (\<lambda>q. q = rq) (nat (count p)) (rxs es) \<and> tot = rx_sum (rxs es)
           \<and> try_again r = try_again r0 + of_nat (nat (count p) - n_ok (rxs es))"
      using 2 by (auto simp: rxbuf_inv_def)
    show ?case
    proof (cases x)
      case (Inl res)
      with x h tr show ?thesis
        by (auto simp: sink_error_def wp_simps sink_exit_def)
    next
      case (Inr y)
      obtain tot r where y: "y = (tot, r)" by (cases y)
      have run: "rx_run (\<lambda>q. q = rq) (nat (count p)) (rxs es)" "tot = rx_sum (rxs es)"
        "try_again r = of_nat (nat (count p) - n_ok (rxs es))" using x Inr y again by simp_all
      have le: "n_ok (rxs es) \<le> nat (count p)" using run(1) n_ok_le [of "rxs es"] by (simp add: rx_run_def)
      have "to_u64 (max 0 (count p)) = of_nat (nat (count p))"
        using cnt to_u64_of_nat [of "nat (count p)"] by simp
      then have res: "u64_to_int (to_u64 (max 0 (count p)) - try_again r) = int (n_ok (rxs es))"
        using u64_diff_ok [OF le] cnt run(3) by simp
      show ?thesis
        unfolding Inr y sum.case prod.case wp_bnd [of "report _"]
        by (rule report)
           (use h tr run res free wf in \<open>auto simp: wp_simps sink_post_def wf_heap_def\<close>)
    qed
  qed (use 2 in simp_all)
qed

interpretation sk_read: counting_receiver sink_with_read
  "\<lambda>fd p. Rq_read fd (uint (to_u64 (buf_sz p)))"
proof
  fix p :: sink_params and w :: "('a, 'b) sink_world_scheme" and r :: time_bench_record and K fd
  assume pre: "sink_pre p w" "try_again r = 0"
  show "wp (sink_with_read K fd p r)
     (\<lambda>(res, p', r') w'. p' = p \<and> sink_post (Rq_read fd (uint (to_u64 (buf_sz p)))) p w res r' w')
     (sink_exit fd w) w"
    unfolding sink_with_read_def Let_def
    by (intro wp_recv_with_buffer [OF pre] wp_report_read) auto
qed

interpretation sk_recvfrom: counting_receiver sink_with_recvfrom
  "\<lambda>fd p. Rq_recvfrom fd (uint (to_u64 (buf_sz p))) (sink_flags p)"
proof
  fix p :: sink_params and w :: "('a, 'b) sink_world_scheme" and r :: time_bench_record and K fd
  assume pre: "sink_pre p w" "try_again r = 0"
  then have "max 0 (count p) \<noteq> 0" by (simp add: sink_pre_def)
  then show "wp (sink_with_recvfrom K fd p r)
     (\<lambda>(res, p', r') w'. p' = p \<and>
        sink_post (Rq_recvfrom fd (uint (to_u64 (buf_sz p))) (sink_flags p)) p w res r' w')
     (sink_exit fd w) w"
    unfolding sink_with_recvfrom_def Let_def
    by (intro wp_recv_with_buffer [OF pre] wp_report_payload) auto
qed

interpretation sk_recv: counting_receiver sink_with_recv
  "\<lambda>fd p. Rq_recv fd (uint (to_u64 (buf_sz p))) (sink_flags p)"
proof
  fix p :: sink_params and w :: "('a, 'b) sink_world_scheme" and r :: time_bench_record and K fd
  assume pre: "sink_pre p w" "try_again r = 0"
  then have "max 0 (count p) \<noteq> 0" by (simp add: sink_pre_def)
  then show "wp (sink_with_recv K fd p r)
     (\<lambda>(res, p', r') w'. p' = p \<and>
        sink_post (Rq_recv fd (uint (to_u64 (buf_sz p))) (sink_flags p)) p w res r' w')
     (sink_exit fd w) w"
    unfolding sink_with_recv_def Let_def
    by (intro wp_recv_with_buffer [OF pre] wp_report_payload) auto
qed

section \<open>A measured run\<close>

lemma wp_record_setting:
  assumes fail: "\<And>w'. E EXIT_FAIL_FILEACCESS w'"
    and succ: "\<And>w' es v. heap w' = heap w \<Longrightarrow> next_blk w' = next_blk w \<Longrightarrow> trace w' = trace w @ es \<Longrightarrow>
      rxs es = [] \<Longrightarrow> Q (time_bench_zero\<lparr>ip_early_demux := v\<rparr>) w'"
  shows "wp (time_bench_record_setting K r) Q E w"
  unfolding time_bench_record_setting_def read_ip_early_demux_def
  by (auto simp: wp_simps fail Let_def intro!: succ split: option.splits prod.splits)

lemma wp_sink_header:
  assumes "\<And>w'. heap w' = heap w \<Longrightarrow> next_blk w' = next_blk w \<Longrightarrow> trace w' = trace w \<Longrightarrow> Q () w'"
  shows "wp (if v \<noteq> 0 then printf a b else bnd (print_header name n) (\<lambda>_. printf c d)) Q E w"
  by (auto simp: wp_simps print_header_def intro!: assms)

definition received :: "sysreq \<Rightarrow> sink_params \<Rightarrow> ('k, 'm) world_scheme \<Rightarrow> nat \<Rightarrow> u64 \<Rightarrow> ('k, 'm) world_scheme \<Rightarrow> bool" where
  "received rq p w n tot w' \<longleftrightarrow> (\<exists>es. trace w' = trace w @ es \<and>
     rx_run (\<lambda>q. q = rq) (nat (count p)) (rxs es) \<and> n = n_ok (rxs es) \<and> tot = rx_sum (rxs es))"

lemma received_later:
  "received rq p v n tot w' \<Longrightarrow> trace v = trace w @ es \<Longrightarrow> rxs es = [] \<Longrightarrow>
   trace w'' = trace w' @ es' \<Longrightarrow> rxs es' = [] \<Longrightarrow> received rq p w n tot w''"
  unfolding received_def
  by (elim exE, rule_tac x = "es @ esa @ es'" in exI) simp

lemma sink_post_received:
  assumes "sink_post rq p w res r' w'"
  shows "received rq p w (nat res) (bytes_cnt r') w'" "0 \<le> res" "res \<le> int (nat (count p))"
    "try_again r' = of_nat (nat (count p) - nat res)"
proof -
  from assms obtain es where es: "trace w' = trace w @ es"
    "rx_run (\<lambda>q. q = rq) (nat (count p)) (rxs es)" "res = int (n_ok (rxs es))"
    "bytes_cnt r' = rx_sum (rxs es)" "try_again r' = of_nat (nat (count p) - n_ok (rxs es))"
    unfolding sink_post_def by blast
  then show "received rq p w (nat res) (bytes_cnt r') w'" unfolding received_def by auto
  have "length (rxs es) = nat (count p)" using es(2) by (simp add: rx_run_def)
  then show "0 \<le> res" "res \<le> int (nat (count p))" "try_again r' = of_nat (nat (count p) - nat res)"
    using es(3,5) n_ok_le [of "rxs es"] by (simp_all add: nat_le_eq_zle) linarith
qed

lemma sink_exit_later:
  "sink_exit fd v c w' \<Longrightarrow> trace v = trace w @ es \<Longrightarrow> sink_exit fd w c w'"
  unfolding sink_exit_def by auto

lemma wpf_calc_stats:
  assumes "packets r = 0 \<Longrightarrow> F Div_by_zero w"
    and "\<And>r'. packets r \<noteq> 0 \<Longrightarrow> packets r' = packets r \<Longrightarrow> bytes_cnt r' = bytes_cnt r \<Longrightarrow>
      try_again r' = try_again r \<Longrightarrow> Q r' w"
  shows "wpf (time_bench_calc_stats r) Q E F w"
  using assms by (auto simp: time_bench_calc_stats_def Let_def wpf_ub wpf_ret)

lemma wp_print_stats_sink:
  assumes "\<And>w'. trace w' = trace w \<Longrightarrow> Q () w'"
  shows "wp (bnd (time_bench_print_stats r c) (\<lambda>_. print_check_result p)) Q E w"
  unfolding time_bench_print_stats_def print_check_result_def
  by (auto simp: wp_simps intro!: assms)

lemma wpf_sink_tail:
  assumes res: "0 \<le> res" "res \<le> INT_MAX"
    and ok: "\<And>r w' es. res \<noteq> 0 \<Longrightarrow> packets r = to_u64 res \<Longrightarrow> bytes_cnt r = bytes_cnt r3 \<Longrightarrow>
      try_again r = try_again r3 \<Longrightarrow> trace w' = trace w @ es \<Longrightarrow> rxs es = [] \<Longrightarrow>
      Q (r, init_stats p (run_flag_curr p)) w'"
    and trap: "\<And>w' es. res = 0 \<Longrightarrow> trace w' = trace w @ es \<Longrightarrow> rxs es = [] \<Longrightarrow> F Div_by_zero w'"
    and clock: "\<And>w'. E EXIT_FAIL_TIME w'"
  shows "wpf (bnd (time_bench_stop K r3) (\<lambda>rec4.
     if res < 0 then m rec4
     else
       bnd (time_bench_calc_stats (rec4\<lparr>packets := to_u64 res\<rparr>)) (\<lambda>rec5.
       bnd (time_bench_print_stats rec5 (sk_c p)) (\<lambda>_.
       bnd (print_check_result p) (\<lambda>_.
       ret (rec5, init_stats p (run_flag_curr p))))))) Q E F w"
proof -
  have pk: "to_u64 res = 0 \<longleftrightarrow> res = 0"
    using res uint_to_u64 [of res] by (auto simp: to_u64_def INT_MAX_def)
  have print: "wp (bnd (time_bench_print_stats r (sk_c p)) (\<lambda>_. bnd (print_check_result p) (\<lambda>_.
      ret (r, init_stats p (run_flag_curr p))))) Q E v"
    if "\<And>w'. trace w' = trace v \<Longrightarrow> Q (r, init_stats p (run_flag_curr p)) w'" for r v
    unfolding bnd_assoc [symmetric] wp_bnd [of _ "\<lambda>_. ret _"]
    by (rule wp_print_stats_sink) (simp add: wp_simps that)
  show ?thesis
    unfolding wpf_bnd [of "time_bench_stop _ _"]
  proof (rule wpf_wp, unfold time_bench_stop_def, simp add: wp_simps Let_def clock,
      intro conjI impI, goal_cases)
    case 1
    with res show ?case by simp
  next
    case 2
    show ?case
      unfolding wpf_bnd [of "time_bench_calc_stats _"]
    proof (rule wpf_calc_stats, goal_cases)
      case 1
      then show ?case using trap by (simp add: pk)
    next
      case (2 r')
      show ?case
        by (rule wpf_wp, rule print) (use 2 ok [of r'] in \<open>simp add: pk\<close>)
    qed
  qed
qed

text \<open>
  The three ways a run ends: with a record of what was received, with an exit, or with the division
  by zero of the statistics when every call answered \<open>EAGAIN\<close>.
\<close>

definition run_done ::
  "sysreq \<Rightarrow> sink_params \<Rightarrow> ('k, 'm) world_scheme \<Rightarrow> time_bench_record \<times> sink_params
   \<Rightarrow> ('k, 'm) world_scheme \<Rightarrow> bool" where
  "run_done rq p w = (\<lambda>(r, p') w'. \<exists>n. 0 < n \<and> received rq p w n (bytes_cnt r) w'
     \<and> packets r = of_nat n \<and> try_again r = of_nat (nat (count p) - n)
     \<and> p' = init_stats p (run_flag_curr p))"

definition run_exit :: "int \<Rightarrow> ('k, 'm) world_scheme \<Rightarrow> int \<Rightarrow> ('k, 'm) world_scheme \<Rightarrow> bool" where
  "run_exit fd w c w' \<longleftrightarrow> c = EXIT_FAIL_FILEACCESS \<or> c = EXIT_FAIL_TIME \<or> sink_exit fd w c w'"

definition run_trap ::
  "sysreq \<Rightarrow> sink_params \<Rightarrow> ('k, 'm) world_scheme \<Rightarrow> fault \<Rightarrow> ('k, 'm) world_scheme \<Rightarrow> bool" where
  "run_trap rq p w f w' \<longleftrightarrow> f = Div_by_zero \<and> (\<exists>tot. received rq p w 0 tot w')"

context counting_receiver
begin

lemma run_reports:
  fixes w :: "('k, 'm) sink_world_scheme"
  assumes pre: "sink_pre p w"
  shows "wpf (sink_run K fd name func j (r0, p))
    (run_done (mk fd p) p w) (run_exit fd w) (run_trap (mk fd p) p w) w"
proof -
  let ?Q = "run_done (mk fd p) p w" and ?E = "run_exit fd w" and ?F = "run_trap (mk fd p) p w"
  have E: "?E EXIT_FAIL_TIME v" "?E EXIT_FAIL_FILEACCESS v" for v by (simp_all add: run_exit_def)
  have tail: "wpf (bnd (time_bench_stop K r3) (\<lambda>rec4.
     if res < 0 then m rec4
     else
       bnd (time_bench_calc_stats (rec4\<lparr>packets := to_u64 res\<rparr>)) (\<lambda>rec5.
       bnd (time_bench_print_stats rec5 (sk_c p)) (\<lambda>_.
       bnd (print_check_result p) (\<lambda>_.
       ret (rec5, init_stats p (run_flag_curr p))))))) ?Q ?E ?F w3"
    if post: "sink_post (mk fd p) p w2 res r3 w3" and tr: "trace w2 = trace w @ es" "rxs es = []"
    for r3 w2 w3 res es m
  proof -
    note s = sink_post_received [OF post]
    have "res \<le> INT_MAX" using s(3) pre by (simp add: sink_pre_def)
    moreover have "to_u64 res = of_nat (nat res)" using s(2) to_u64_of_nat [of "nat res"] by simp
    ultimately show ?thesis
      using s E received_later [OF s(1) tr]
      by (intro wpf_sink_tail)
         (auto simp: run_done_def run_trap_def intro!: exI [of _ "nat res"] exI [of _ "bytes_cnt r3"])
  qed
  have body: "wpf (func K fd p r2) (\<lambda>x. wpf (case x of (cnt_recv, p', rec3) \<Rightarrow>
      bnd (time_bench_stop K rec3) (\<lambda>rec4.
      if cnt_recv < 0 then
        bnd (eprintf ''ERROR: failed to recv packets'' []) (\<lambda>_.
        bnd (syscall K (Rq_close fd)) (\<lambda>_.
        exit_with EXIT_FAIL_RECV))
      else
        bnd (time_bench_calc_stats (rec4\<lparr>packets := to_u64 cnt_recv\<rparr>)) (\<lambda>rec5.
        bnd (time_bench_print_stats rec5 (sk_c p')) (\<lambda>_.
        bnd (print_check_result p') (\<lambda>_.
        ret (rec5, init_stats p' (run_flag_curr p'))))))) ?Q ?E ?F) ?E ?F w2"
    if "heap w2 = heap w" "next_blk w2 = next_blk w" "trace w2 = trace w @ es" "rxs es = []"
      "try_again r2 = 0" for w2 es r2
  proof (rule wpf_wp, rule wp_conseq [OF receives], goal_cases)
    case 1
    show ?case using pre that by (simp add: sink_pre_def wf_heap_def)
  next
    case 2
    show ?case by (rule that)
  next
    case (3 x w3)
    obtain res p' r3 where x: "x = (res, p', r3)" by (cases x)
    with 3 have post: "sink_post (mk fd p) p w2 res r3 w3" and p': "p' = p" by simp_all
    show ?case unfolding x p' prod.case by (rule tail [OF post that(3,4)])
  next
    case (4 c w3)
    then have "sink_exit fd w c w3" using that(3) by (rule sink_exit_later)
    then show ?case by (simp add: run_exit_def)
  qed
  show ?thesis
    unfolding sink_run_def prod.case wpf_bnd [of "gets _"] wpf_bnd [of "if _ then _ else _"]
      wpf_bnd [of "time_bench_record_setting _ _"] wpf_bnd [of "time_bench_start _ _"]
      wpf_bnd [of "func _ _ _ _"] Let_def
    by (rule wpf_wp, simp only: wp_gets, rule wpf_wp, rule wp_sink_header, rule wpf_wp,
        rule wp_record_setting, rule E, rule wpf_wp)
       (auto simp: time_bench_start_def wp_simps Let_def E time_bench_zero_def intro!: body)
qed

end

section \<open>Properties\<close>

text \<open>The receive functions that use one buffer, each with the request it receives with.\<close>

definition buffer_receivers :: "(('k, 'm) sink_fun \<times> (int \<Rightarrow> sink_params \<Rightarrow> sysreq)) list" where
  "buffer_receivers =
     [(sink_with_read, \<lambda>fd p. Rq_read fd (uint (to_u64 (buf_sz p)))),
      (sink_with_recvfrom, \<lambda>fd p. Rq_recvfrom fd (uint (to_u64 (buf_sz p))) (sink_flags p)),
      (sink_with_recv, \<lambda>fd p. Rq_recv fd (uint (to_u64 (buf_sz p))) (sink_flags p))]"

text \<open>
  C7.  A measured run with \<open>read\<close>, \<open>recvfrom\<close> or \<open>recv\<close> reports what it received.  On any kernel
  the run makes \<open>--count\<close> calls, and the packets it stores are the calls that succeeded, the bytes
  the sum of their results and \<open>try_again\<close> the \<open>EAGAIN\<close> answers; the check counters are reset for
  the next run.  It exits only for lack of memory, for the clock, for the settings file, or, after
  closing the socket, for a call that failed with another error.  The one trap left is the division
  by zero of the statistics, and it happens only if all calls answered \<open>EAGAIN\<close>.
\<close>

theorem sink_run_reports:
  fixes func :: "('k, 'm) sink_fun"
  assumes "(func, mk) \<in> set buffer_receivers" "sink_pre p w"
  shows "wpf (sink_run K fd name func j (r0, p))
    (\<lambda>(r, p') w'. p' = init_stats p (run_flag_curr p) \<and> (\<exists>es. trace w' = trace w @ es
       \<and> rx_run (\<lambda>q. q = mk fd p) (nat (count p)) (rxs es) \<and> packets r = of_nat (n_ok (rxs es))
       \<and> bytes_cnt r = rx_sum (rxs es) \<and> try_again r = of_nat (nat (count p) - n_ok (rxs es))))
    (\<lambda>c w'. c \<in> {EXIT_FAIL_FILEACCESS, EXIT_FAIL_TIME, EXIT_FAIL_MEM} \<or> c = EXIT_FAIL_SOCK \<and>
       (\<exists>es. trace w' = trace w @ es \<and> es \<noteq> [] \<and> fst (last es) = Rq_close fd \<and> rx_failed (rxs es)))
    (\<lambda>f w'. f = Div_by_zero \<and> (\<exists>es. trace w' = trace w @ es
       \<and> rx_run (\<lambda>q. q = mk fd p) (nat (count p)) (rxs es) \<and> n_ok (rxs es) = 0)) w"
proof -
  have "wpf (sink_run K fd name func j (r0, p))
      (run_done (mk fd p) p w) (run_exit fd w) (run_trap (mk fd p) p w) w"
    using assms sk_read.run_reports [OF assms(2), of K fd name j r0]
      sk_recvfrom.run_reports [OF assms(2), of K fd name j r0]
      sk_recv.run_reports [OF assms(2), of K fd name j r0]
    by (auto simp: buffer_receivers_def)
  then show ?thesis
    by (rule wpf_conseq)
       (auto simp: run_done_def run_exit_def run_trap_def sink_exit_def received_def)
qed

definition sink_test_params :: sink_params where
  "sink_test_params = sink_init_params\<lparr>count := 3, buf_sz := 8\<rparr>"

definition one_each :: "unit kernel" where
  "one_each rq k = ((sysres_of 1 0)\<lparr>r_text := Some ''1'', r_data := [9]\<rparr>, k)"

theorem sink_run_reports_witness:
  "wpf (sink_run one_each 3 ''read'' sink_with_read 0 (time_bench_zero, sink_test_params))
    (\<lambda>(r, p') w'. length (rxs (trace w')) = 3 \<and> packets r = of_nat (n_ok (rxs (trace w'))))
    (\<lambda>c w'. c \<in> {106, 3, 1, 100}) (\<lambda>f w'. n_ok (rxs (trace w')) = 0) (sink_boot ())"
  by (rule wpf_conseq [OF sink_run_reports [of sink_with_read
         "\<lambda>fd p. Rq_read fd (uint (to_u64 (buf_sz p)))" sink_test_params "sink_boot ()"
         one_each 3 "''read''" 0 time_bench_zero]])
     (auto simp: buffer_receivers_def sink_test_params_def sink_init_params_def sink_pre_def
       sink_boot_def wf_heap_def INT_MAX_def rx_run_def c_consts)

end
