(* ===== verification/UdpSink_Recvmsg.thy ===== *)
theory UdpSink_Recvmsg
  imports UdpSink_Props
begin

text \<open>
  The correctness of \<open>sink_with_recvmsg\<close>, the receive loop that checks what it receives: on a kernel
  that keeps to the buffers it is given, the loop has no undefined behaviour, and its counters are
  those of checking the received packets one after the other.
\<close>

section \<open>Checking a sequence of packets\<close>

definition check_one :: "pktgen_hdr \<times> sink_params \<Rightarrow> bytes \<Rightarrow> pktgen_hdr \<times> sink_params" where
  "check_one = (\<lambda>(lst, p) pkt. if check p = 0 then (lst, p) else (last_spec lst pkt, check_spec lst pkt p))"

definition check_all :: "pktgen_hdr \<times> sink_params \<Rightarrow> bytes list \<Rightarrow> pktgen_hdr \<times> sink_params" where
  "check_all = foldl check_one"

lemma check_all_simps [simp]:
  "check_all s [] = s" "check_all s (pkts @ [pkt]) = check_one (check_all s pkts) pkt"
  "check_all s (pkt # pkts) = check_all (check_one s pkt) pkts"
  by (simp_all add: check_all_def)

text \<open>The parameters a check leaves alone.\<close>

definition settings_of :: "sink_params \<Rightarrow> sink_params" where
  "settings_of p = p\<lparr>ooo := 0, bad_magic := 0, bad_repeat := 0\<rparr>"

lemma check_spec_settings: "settings_of (check_spec lst pkt p) = settings_of p"
  by (simp add: check_spec_def check_first_def settings_of_def Let_def split: list.split)

lemma check_all_settings: "settings_of (snd (check_all s pkts)) = settings_of (snd s)"
  by (induction pkts arbitrary: s) (auto simp: check_one_def check_spec_settings split: prod.splits)

lemma settings_fields:
  assumes "settings_of p' = settings_of p"
  shows "check p' = check p" "iov_elems p' = iov_elems p" "sender_addr p' = sender_addr p"
    "dontwait p' = dontwait p" "count p' = count p" "recv_ttl p' = recv_ttl p"
    "recv_pktinfo p' = recv_pktinfo p" "buf_sz p' = buf_sz p" "batch p' = batch p"
    "run_flag_curr p' = run_flag_curr p"
  using assms by (auto simp: settings_of_def dest: arg_cong [of _ _ check] arg_cong [of _ _ iov_elems]
    arg_cong [of _ _ sender_addr] arg_cong [of _ _ dontwait] arg_cong [of _ _ count]
    arg_cong [of _ _ recv_ttl] arg_cong [of _ _ recv_pktinfo] arg_cong [of _ _ buf_sz]
    arg_cong [of _ _ batch] arg_cong [of _ _ run_flag_curr])

section \<open>The I/O vector\<close>

lemma buckets_snoc: "buckets b a sz (Suc n)
    = buckets b a sz n @ [\<lparr>iov_base = Ptr b (int (a + n * sz)), iov_len = of_nat sz\<rparr>]"
  by (simp add: buckets_def)

lemma wp_recvmsg_iov:
  assumes p: "iov_elems p = int ne" "0 < ne" "0 \<le> buf_sz p" "buf_sz p \<le> INT_MAX" "16 * int ne < 2 ^ 32"
    and arr: "heap w x = Some bs" "length bs = 16 * ne"
    and Q: "Q (buckets b 0 (nat (buf_sz p) div ne) ne) w"
  shows "wp (recvmsg_iov (Ptr x 0) (Ptr b 0) p) Q E w"
proof -
  let ?sz = "nat (buf_sz p) div ne"
  have d: "cdiv (buf_sz p) (int ne) = int ?sz" using p by (simp add: cdiv_nonneg zdiv_int)
  have le: "ne * ?sz \<le> nat (buf_sz p)" by simp
  have "int ?sz \<le> int (nat (buf_sz p))" by (simp only: of_nat_le_iff div_le_dividend)
  then have i32: "is_i32 (int ?sz)" using p(3,4) by (intro is_i32_nat) simp
  have off: "uint (to_u64 i * to_u64 (int ?sz)) = int (nat i * ?sz)" if "1 \<le> i" "i < int ne" for i
  proof -
    have "nat i * ?sz \<le> ne * ?sz" using that by (intro mult_right_mono) simp_all
    then have "int (nat i * ?sz) \<le> int (nat (buf_sz p))" using le by (simp only: of_nat_le_iff)
    then have "int (nat i * ?sz) < 2 ^ 64" using p(3,4) by (simp add: INT_MAX_def)
    moreover have "to_u64 i * to_u64 (int ?sz) = to_u64 (int (nat i * ?sz))"
      using that by (simp add: to_u64_mult)
    ultimately show ?thesis by (simp only: uint_to_u64)
  qed
  have step: "buckets b 0 ?sz (nat (i + 1)) = buckets b 0 ?sz (nat i)
      @ [\<lparr>iov_base = ptr_add (Ptr b 0) (uint (to_u64 i * to_u64 (int ?sz))), iov_len = to_u64 (int ?sz)\<rparr>]"
    if "1 \<le> i" "i < int ne" for i
  proof -
    have "nat (i + 1) = Suc (nat i)" using that by simp
    then show ?thesis unfolding off [OF that] by (simp add: buckets_snoc to_u64_of_nat)
  qed
  have loop: "wp (for_loop 1 (int ne) (\<lambda>i iovs.
       bnd (touch (ptr_add (Ptr x 0) (16 * i)) 16) (\<lambda>_.
       ret (iovs @ [\<lparr>iov_base = ptr_add (Ptr b 0) (uint (to_u64 i * to_u64 (int ?sz))),
                     iov_len = to_u64 (int ?sz)\<rparr>])))
       [\<lparr>iov_base = Ptr b 0, iov_len = to_u64 (int ?sz)\<rparr>]) Q E w"
  proof (rule wp_for_loop [where I = "\<lambda>i iovs v. iovs = buckets b 0 ?sz (nat i) \<and> v = w"], goal_cases)
    case 1
    show ?case by (simp add: buckets_def to_u64_of_nat)
  next
    case (2 j a t)
    then show ?case using arr by (simp add: wp_simps step)
  next
    case (3 a t)
    then show ?case using Q p(2) by (simp add: max_def)
  qed
  show ?thesis
    unfolding recvmsg_iov_def p(1) d
    using p(2) arr i32 loop by (simp add: wp_simps)
qed

lemma buckets_Cons: "buckets b a sz (Suc n)
    = \<lparr>iov_base = Ptr b (int a), iov_len = of_nat sz\<rparr> # buckets b (a + sz) sz n"
  by (simp add: buckets_def upt_conv_Cons map_Suc_upt [symmetric] algebra_simps del: upt_Suc)

lemma wp_scatter_buckets:
  assumes "heap w b = Some bs" "a + nr * sz \<le> length bs" "length data \<le> nr * sz" "sz < 2 ^ 64"
    and "Q () (set_block b (Some (overwrite bs a data)) w)"
  shows "wp (scatter (buckets b a sz nr) data) Q E w"
  using assms
proof (induction nr arbitrary: a bs data w)
  case 0
  then show ?case by (simp add: buckets_def wp_simps set_block_same del: ret_run)
next
  case (Suc nr)
  let ?x = "take sz data" and ?y = "drop sz data"
  let ?bs = "overwrite bs a ?x"
  have un: "unat (of_nat sz :: u64) = sz" using Suc.prems(4) by (simp add: unat_of_nat take_bit_nat_eq_self)
  have fit: "a + length ?x \<le> length bs" using Suc.prems(2) by simp
  have both: "overwrite ?bs (a + sz) ?y = overwrite bs a data"
  proof (cases "length data \<le> sz")
    case True
    then show ?thesis by simp
  next
    case False
    then have "a + length ?x = a + sz" by simp
    then show ?thesis
      using overwrite_adjacent [of a ?x ?y bs] Suc.prems(2,3) by simp
  qed
  have "wp (scatter (buckets b (a + sz) sz nr) ?y) Q E (set_block b (Some ?bs) w)"
    by (rule Suc.IH [where bs = ?bs]) (use Suc.prems fit both in auto)
  then show ?case
    using Suc.prems(1) fit by (simp add: buckets_Cons un wp_simps)
qed

section \<open>The checks of name and ancillary data\<close>

lemma wp_check_msg_name:
  assumes "ss_family sender \<noteq> 0 \<Longrightarrow> msg_name m \<noteq> None"
    and ok: "Q () w" and ex: "\<And>w'. E EXIT_FAIL_SOCK w'"
  shows "wp (check_msg_name K m sender) Q E w"
proof (cases "msg_name m")
  case None
  then have "ss_family sender = 0" using assms(1) by blast
  then show ?thesis using ok by (simp add: check_msg_name_def wp_simps del: ret_run)
next
  case (Some n)
  then show ?thesis using ok ex by (auto simp: check_msg_name_def ntop_str_def wp_simps Let_def)
qed

lemma wp_check_cmsg:
  assumes ok: "\<And>w'. heap w' = heap w \<Longrightarrow> next_blk w' = next_blk w \<Longrightarrow> trace w' = trace w \<Longrightarrow>
      world.more w' = world.more w \<Longrightarrow> Q () w'"
    and ex: "\<And>w'. E EXIT_FAIL_SOCK w'"
  shows "wp (check_cmsg m p n) Q E w"
  unfolding check_cmsg_def
  by (auto simp: wp_simps Let_def ex say_def intro!: ok split: prod.splits)

section \<open>The loop\<close>

definition rx_pkts :: "(sysreq \<times> sysres) list \<Rightarrow> bytes list" where
  "rx_pkts rx = map (\<lambda>e. rx_data (first_msg (snd e))) (filter (rx_ok \<circ> snd) rx)"

lemma rx_pkts_simps [simp]:
  "rx_pkts [] = []"
  "rx_pkts (rx @ [(rq, r)]) = (if rx_ok r then rx_pkts rx @ [rx_data (first_msg r)] else rx_pkts rx)"
  by (simp_all add: rx_pkts_def)

lemma sum_buckets: "sz < 2 ^ 64 \<Longrightarrow> (\<Sum>v \<leftarrow> buckets b a sz nr. uint (iov_len v)) = int (nr * sz)"
proof (induction nr)
  case (Suc nr)
  have "uint (of_nat sz :: u64) = int sz"
    using Suc.prems uint_to_u64 [of "int sz"] by (simp add: to_u64_of_nat)
  with Suc show ?case by (simp add: buckets_snoc algebra_simps)
qed (simp add: buckets_def)

type_synonym rm_acc = "u64 \<times> time_bench_record \<times> sink_params \<times> msghdr"

definition rm_inv :: "sink_params \<Rightarrow> nat \<Rightarrow> nat \<Rightarrow> nat \<Rightarrow> ('k, 'm) sink_world_scheme
    \<Rightarrow> rm_acc \<Rightarrow> ('k, 'm) sink_world_scheme \<Rightarrow> bool" where
  "rm_inv p b sz ne w = (\<lambda>(tot, r, p', m) v.
     next_blk v = next_blk w \<and> (\<exists>bs. heap v = (heap w)(b \<mapsto> bs) \<and> ne * sz \<le> length bs)
     \<and> msg_iov m = buckets b 0 sz ne \<and> (ss_family (sender_addr p) \<noteq> 0 \<longrightarrow> msg_name m \<noteq> None)
     \<and> (\<exists>es. trace v = trace w @ es \<and> (last_hdr v, p') = check_all (last_hdr w, p) (rx_pkts (rxs es))))"

definition rm_exit :: "sink_params \<Rightarrow> ('k, 'm) sink_world_scheme \<Rightarrow> int \<Rightarrow> ('k, 'm) sink_world_scheme \<Rightarrow> bool" where
  "rm_exit p w c w' \<longleftrightarrow> c = EXIT_FAIL_MEM \<or> c = EXIT_FAIL_SOCK \<or> c = EXIT_FAIL_RECV \<and> 2 < check p \<and>
     (\<exists>es. trace w' = trace w @ es \<and>
        checks_failed (snd (check_all (last_hdr w, p) (rx_pkts (rxs es)))))"

definition rm_req :: "int \<Rightarrow> sink_params \<Rightarrow> sysreq \<Rightarrow> bool" where
  "rm_req fd p q \<longleftrightarrow> (\<exists>m. q = Rq_recvmsg fd m (sink_flags p))"

lemma wp_recvmsg:
  assumes K: "keeps_to_buffers K" and m: "msg_iov m = buckets b 0 sz ne" and sz: "sz < 2 ^ 64"
    and h: "heap w b = Some bs" "ne * sz \<le> length bs"
    and fail: "\<And>r. r = reply K (Rq_recvmsg fd m fl) w \<Longrightarrow> r_ret r < 0 \<Longrightarrow>
      Q (r_ret r, m) (after_call K (Rq_recvmsg fd m fl) w)"
    and succ: "\<And>r. r = reply K (Rq_recvmsg fd m fl) w \<Longrightarrow> rx_ok r \<Longrightarrow>
      r_ret r = int (length (rx_data (first_msg r))) \<Longrightarrow> length (rx_data (first_msg r)) \<le> ne * sz \<Longrightarrow>
      Q (r_ret r, take_rx m (first_msg r))
        (set_block b (Some (overwrite bs 0 (rx_data (first_msg r)))) (after_call K (Rq_recvmsg fd m fl) w))"
  shows "wp (recvmsg K fd m fl) Q E w"
proof -
  let ?r = "reply K (Rq_recvmsg fd m fl) w"
  show ?thesis
  proof (cases "r_ret ?r < 0")
    case True
    then show ?thesis using fail by (simp add: recvmsg_def wp_simps)
  next
    case False
    then have "int (length (rx_data (first_msg ?r))) = r_ret ?r \<and>
        r_ret ?r \<le> (\<Sum>v \<leftarrow> msg_iov m. uint (iov_len v))"
      using K by (simp add: keeps_to_buffers_def reply_def Let_def)
    then have len: "int (length (rx_data (first_msg ?r))) = r_ret ?r" and le: "r_ret ?r \<le> int (ne * sz)"
      unfolding m sum_buckets [OF sz] by simp_all
    then have "length (rx_data (first_msg ?r)) \<le> ne * sz" by linarith
    then have "wp (scatter (msg_iov m) (rx_data (first_msg ?r)))
        (\<lambda>_. Q (r_ret ?r, take_rx m (first_msg ?r))) E (after_call K (Rq_recvmsg fd m fl) w)"
      unfolding m using h sz False len
      by (intro wp_scatter_buckets [where bs = bs] succ) (simp_all add: rx_ok_def)
    then show ?thesis using False by (simp add: recvmsg_def wp_simps)
  qed
qed

lemma wp_check_pkt:
  assumes pk: "packet_at w b a sz nr pkt"
    and ok: "Q (snd (check_one (last_hdr w, p) pkt)) (w\<lparr>last_hdr := fst (check_one (last_hdr w, p) pkt)\<rparr>)"
    and bad: "\<And>m. 2 < check p \<Longrightarrow> checks_failed (snd (check_one (last_hdr w, p) pkt)) \<Longrightarrow>
      E EXIT_FAIL_RECV (say m (w\<lparr>last_hdr := fst (check_one (last_hdr w, p) pkt)\<rparr>))"
  shows "wp (check_pkt (buckets b a sz nr) (int nr) (int (length pkt)) p) Q E w"
proof (cases "check p = 0")
  case True
  with ok show ?thesis by (simp add: check_pkt_def check_one_def wp_simps del: ret_run)
next
  case False
  with ok bad show ?thesis
    by (simp add: check_pkt_def check_one_def wp_check_pkt_full [OF pk])
qed

lemma packet_at_overwrite:
  assumes "heap w b = Some (overwrite bs 0 pkt)" "length pkt \<le> nr * sz" "nr * sz \<le> length bs"
    "0 < sz" "0 < nr" "int (nr * sz) + 16 \<le> INT_MAX"
  shows "packet_at w b 0 sz nr pkt"
  using assms by (auto simp: packet_at_def overwrite_def)

definition rm_released :: "nat \<Rightarrow> ('k, 'm) world_scheme \<Rightarrow> ('k, 'm) world_scheme \<Rightarrow> bool" where
  "rm_released b w v \<longleftrightarrow> next_blk v = next_blk w \<and> (\<exists>bs. heap v = (heap w)(b \<mapsto> bs))"

lemma world_more_last_hdr: "world.more w = world.more v \<Longrightarrow> last_hdr w = last_hdr v"
  by (cases w; cases v) simp

lemma rm_inv_step:
  assumes inv: "rm_inv p b sz ne w (tot, r, p', m) v" and ok: "rx_ok rr"
    and tr: "trace v' = trace v @ [(Rq_recvmsg fd m fl, rr)]"
    and h: "next_blk v' = next_blk v" "heap v' = (heap v)(b \<mapsto> bs)" "ne * sz \<le> length bs"
    and l: "(last_hdr v', p'') = check_one (last_hdr v, p') (rx_data (first_msg rr))"
  shows "rm_inv p b sz ne w (tot', r', p'', take_rx m x) v'"
proof -
  from inv obtain es where es: "trace v = trace w @ es"
    "(last_hdr v, p') = check_all (last_hdr w, p) (rx_pkts (rxs es))" by (auto simp: rm_inv_def)
  let ?es = "es @ [(Rq_recvmsg fd m fl, rr)]"
  have "trace v' = trace w @ ?es" using tr es(1) by simp
  moreover have "(last_hdr v', p'') = check_all (last_hdr w, p) (rx_pkts (rxs ?es))"
    using l es(2) [symmetric] ok by simp
  ultimately show ?thesis
    using inv h by (auto simp: rm_inv_def take_rx_def simp del: rxs_simps)
qed

lemma wp_recvmsg_body:
  assumes K: "keeps_to_buffers K" and sz: "0 < sz" "0 < ne" "int (ne * sz) + 16 \<le> INT_MAX"
    and ne: "iov_elems p = int ne" and inv: "rm_inv p b sz ne w (tot, r, p', m) v"
  shows "wp (bnd (recvmsg K fd m (sink_flags p')) (\<lambda>(res, m').
      if res < 0 then try_again_or_fail r res (\<lambda>r'. (tot, r', p', m'))
      else
        bnd (check_pkt (msg_iov m') (iov_elems p') res p') (\<lambda>p''.
        bnd (check_msg_name K m' (sender_addr p'')) (\<lambda>_.
        bnd (check_cmsg m' p'' 512) (\<lambda>_.
        ret (Inr (tot + to_u64 res, r, p'', m')))))))
    (\<lambda>x v'. rx_step (rm_req fd p) fst (\<lambda>a. try_again (fst (snd a))) (tot, r, p', m) v x v' \<and>
       (case x of Inl res \<Rightarrow> rm_released b w v' | Inr a \<Rightarrow> rm_inv p b sz ne w a v')) (rm_exit p w) v"
proof -
  from inv obtain bs es where h: "heap v = (heap w)(b \<mapsto> bs)" "ne * sz \<le> length bs"
    and n: "next_blk v = next_blk w" and m: "msg_iov m = buckets b 0 sz ne"
    and nm: "ss_family (sender_addr p) \<noteq> 0 \<Longrightarrow> msg_name m \<noteq> None"
    and es: "trace v = trace w @ es" "(last_hdr v, p') = check_all (last_hdr w, p) (rx_pkts (rxs es))"
    by (auto simp: rm_inv_def)
  have "settings_of p' = settings_of p"
    using check_all_settings [of "(last_hdr w, p)" "rx_pkts (rxs es)"] by (simp flip: es(2))
  note set' = settings_fields [OF this]
  have fl: "sink_flags p' = sink_flags p" by (simp add: sink_flags_def set')
  have b: "heap v b = Some bs" using h(1) by simp
  have s64: "sz < 2 ^ 64"
  proof -
    have "sz \<le> ne * sz" using sz(2) by simp
    then have "int sz \<le> int (ne * sz)" by (simp only: of_nat_le_iff)
    then show ?thesis using sz(3) by (simp add: INT_MAX_def)
  qed
  show ?thesis
    unfolding wp_bnd [of "recvmsg _ _ _ _"]
  proof (rule wp_recvmsg [OF K m s64 b h(2)], goal_cases)
    case (1 rr)
    let ?e = "(Rq_recvmsg fd m (sink_flags p'), rr)"
    have "rxs (es @ [?e]) = rxs es @ [?e]" "\<not> rx_ok rr" using 1(2) by (simp_all add: rx_ok_def)
    then have "rx_pkts (rxs (es @ [?e])) = rx_pkts (rxs es)" by simp
    with 1 h n m nm es show ?case
      by (auto simp: wp_simps try_again_or_fail_def rx_step_def rx_ok_def rx_again_def rm_req_def fl
          rm_released_def rm_inv_def)
  next
    case (2 rr)
    let ?d = "rx_data (first_msg rr)" and ?m = "take_rx m (first_msg rr)"
    let ?rq = "Rq_recvmsg fd m (sink_flags p')"
    let ?v = "set_block b (Some (overwrite bs 0 ?d)) (after_call K ?rq v)"
    let ?c = "check_one (last_hdr v, p') ?d"
    have pk: "packet_at ?v b 0 sz ne ?d" by (rule packet_at_overwrite) (use 2 h sz in simp_all)
    have m': "msg_iov ?m = buckets b 0 sz ne" "msg_name ?m \<noteq> None \<longleftrightarrow> msg_name m \<noteq> None"
      using m by (simp_all add: take_rx_def)
    have all: "check_all (last_hdr w, p) (rx_pkts (rxs (es @ [(?rq, rr)]))) = ?c"
      using 2(2) es(2) by simp
    have set2: "sender_addr (snd ?c) = sender_addr p"
      using check_all_settings [of "(last_hdr w, p)" "rx_pkts (rxs (es @ [(?rq, rr)]))"]
      unfolding all by (auto dest: settings_fields(3))
    have step: "rx_step (rm_req fd p) fst (\<lambda>a. try_again (fst (snd a))) (tot, r, p', m) v
        (Inr (tot + to_u64 (r_ret rr), r, snd ?c, ?m)) u \<and>
        rm_inv p b sz ne w (tot + to_u64 (r_ret rr), r, snd ?c, ?m) u"
      if "trace u = trace v @ [(?rq, rr)]" "heap u = (heap v)(b \<mapsto> overwrite bs 0 ?d)"
        "next_blk u = next_blk v" "last_hdr u = fst ?c" for u
      using that 2 h rm_inv_step [OF inv 2(2) that(1,3,2)]
      by (auto simp: rx_step_def rm_req_def fl)
    have neg: "\<not> int (length ?d) < 0" by simp
    show ?case
      unfolding prod.case 2(3) if_not_P [OF neg] m'(1) set'(2) ne wp_bnd [of "check_pkt _ _ _ _"]
    proof (rule wp_check_pkt [OF pk], goal_cases)
      case 1
      show ?case
        unfolding wp_bnd
        by (rule wp_check_msg_name)
           (use 2 m' nm set2 step in \<open>auto simp: wp_simps rm_exit_def intro!: wp_check_cmsg
              dest!: world_more_last_hdr\<close>)
    next
      case (2 msg)
      then show ?case using all es(1) set'(1) \<open>rr = _\<close>
        by (auto simp: rm_exit_def simp del: rxs_simps intro!: exI [of _ "es @ [(?rq, rr)]"])
    qed
  qed
qed

lemma rm_exit_later:
  "rm_exit p v c w' \<Longrightarrow> trace v = trace w @ es \<Longrightarrow> rxs es = [] \<Longrightarrow> last_hdr v = last_hdr w \<Longrightarrow>
   rm_exit p w c w'"
  unfolding rm_exit_def by (elim disjE conjE exE) (auto intro!: exI [of _ "es @ _"])

text \<open>The loop, from the state in which its three blocks are allocated.\<close>

lemma wp_recvmsg_loop:
  fixes v :: "('k, 'm) sink_world_scheme"
  assumes K: "keeps_to_buffers K" and sz: "0 < sz" "0 < ne" "int (ne * sz) + 16 \<le> INT_MAX"
    and ne: "iov_elems p = int ne" and h: "heap v b = Some bs" "ne * sz \<le> length bs"
    and iov: "iovs = buckets b 0 sz ne"
  shows "wp (for_break 0 (count p) (\<lambda>i (tot, r, p, m).
      bnd (recvmsg K fd m (sink_flags p)) (\<lambda>(res, m').
      if res < 0 then try_again_or_fail r res (\<lambda>r'. (tot, r', p, m'))
      else
        bnd (check_pkt (msg_iov m') (iov_elems p) res p) (\<lambda>p'.
        bnd (check_msg_name K m' (sender_addr p')) (\<lambda>_.
        bnd (check_cmsg m' p' 512) (\<lambda>_.
        ret (Inr (tot + to_u64 res, r, p', m'))))))) (0, r0, p, sink_msghdr p iovs))
    (\<lambda>x v'. \<exists>es. trace v' = trace v @ es \<and> rm_released b v v' \<and> (case x of
        Inl res \<Rightarrow> rx_failed (rxs es)
      | Inr (tot, r, p', m) \<Rightarrow> rx_run (rm_req fd p) (nat (count p)) (rxs es) \<and> tot = rx_sum (rxs es)
          \<and> try_again r = try_again r0 + of_nat (nat (count p) - n_ok (rxs es))
          \<and> (last_hdr v', p') = check_all (last_hdr v, p) (rx_pkts (rxs es)))) (rm_exit p v) v"
proof (rule wp_conseq [where E = "rm_exit p v"],
    rule wp_rx_loop [where J = "\<lambda>i. rm_inv p b sz ne v" and JE = "rm_released b v"
      and tot = fst and again = "\<lambda>a. try_again (fst (snd a))" and R = "rm_req fd p"], goal_cases)
  case 1
  show ?case
    using h iov unfolding rm_inv_def prod.case
    by (intro conjI exI [of _ bs]) (auto simp: sink_msghdr_def setup_msg_name_def fun_upd_idem)
next
  case (3 i a u)
  obtain tot r p' m where a: "a = (tot, r, p', m)" by (cases a)
  show ?case
    unfolding a prod.case
    by (rule wp_recvmsg_body [OF K sz ne]) (use 3 a in simp)
next
  case (4 x u)
  then show ?case
  proof (elim exE conjE)
    fix es assume es: "trace u = trace v @ es" and x: "case x of
        Inl res \<Rightarrow> rm_released b v u \<and> rx_failed (rxs es)
      | Inr a \<Rightarrow> rm_inv p b sz ne v a u \<and> rx_run (rm_req fd p) (nat (count p)) (rxs es) \<and>
          fst a = rx_sum (rxs es) \<and> try_again (fst (snd a))
            = try_again (fst (snd (0, r0, p, sink_msghdr p iovs))) + of_nat (nat (count p) - n_ok (rxs es))"
    show ?thesis
    proof (cases x)
      case (Inl res)
      with x es show ?thesis by auto
    next
      case (Inr a)
      obtain tot r p' m where "a = (tot, r, p', m)" by (cases a)
      with Inr x es show ?thesis by (auto simp: rm_inv_def rm_released_def)
    qed
  qed
qed simp_all

lemma iovec_memsz_small:
  assumes "16 * int ne < 2 ^ 32"
  shows "unat (iovec_memsz (word_of_int (int ne))) = 16 * ne"
proof -
  have u: "unat (of_nat n :: u32) = n" if "int n < 2 ^ 32" for n
    using that by (simp add: unat_of_nat take_bit_nat_eq_self)
  have "iovec_memsz (of_nat ne) = of_nat (16 * ne)"
  proof -
    have "unat (of_nat ne :: u32) = ne" using assms by (intro u) simp
    then have "(ucast (of_nat ne :: u32) :: u64) = of_nat ne" by (metis of_nat_unat)
    then have "iovec_memsz (of_nat ne) = ucast (of_nat (16 * ne) :: u64)" by (simp add: iovec_memsz_def)
    moreover have "(ucast (of_nat (16 * ne) :: u64) :: u32) = of_nat (16 * ne)"
      using assms by (subst unsigned_of_nat) (simp add: take_bit_nat_eq_self)
    ultimately show ?thesis by simp
  qed
  then show ?thesis using u [of "16 * ne"] assms by simp
qed

text \<open>What follows the loop releases the three blocks.\<close>

lemma wp_recvmsg_release:
  assumes h: "heap v = (heap w)(b \<mapsto> x0, Suc b \<mapsto> x1, Suc (Suc b) \<mapsto> x2)" "b = next_blk w"
    "next_blk v = Suc (Suc (Suc b))" and wf: "wf_heap w" and rel: "rm_released b v v'"
    and tr: "trace v = trace w @ es0" "rxs es0 = []" "trace v' = trace v @ es"
    and x: "rx_run R (nat (count p)) (rxs es)" "tot = rx_sum (rxs es)"
      "try_again r = of_nat (nat (count p) - n_ok (rxs es))"
    and l: "(last_hdr v', p') = check_all (last_hdr w, p) (rx_pkts (rxs es))"
    and cnt: "0 < count p" "count p \<le> INT_MAX"
  shows "wp (let i = max 0 (count p'); r' = r\<lparr>bytes_cnt := tot\<rparr> in
      bnd (report_payload tot i) (\<lambda>_.
      bnd (free (Ptr (Suc (Suc b)) 0)) (\<lambda>_.
      bnd (free (Ptr (Suc b) 0)) (\<lambda>_.
      bnd (free (Ptr b 0)) (\<lambda>_.
      ret (u64_to_int (to_u64 i - try_again r'), p', r'))))))
    (\<lambda>(res, p', r') w'. heap w' = heap w \<and> wf_heap w' \<and> (\<exists>es. trace w' = trace w @ es
       \<and> rx_run R (nat (count p)) (rxs es) \<and> res = int (n_ok (rxs es))
       \<and> bytes_cnt r' = rx_sum (rxs es) \<and> try_again r' = of_nat (nat (count p) - n_ok (rxs es))
       \<and> (last_hdr w', p') = check_all (last_hdr w, p) (rx_pkts (rxs es)))) E v'"
proof -
  have "settings_of p' = settings_of p"
    using check_all_settings [of "(last_hdr w, p)" "rx_pkts (rxs es)"] by (simp flip: l)
  then have cp: "count p' = count p" by (rule settings_fields)
  from rel obtain bs where bs: "heap v' = (heap v)(b \<mapsto> bs)" "next_blk v' = next_blk v"
    by (auto simp: rm_released_def)
  have fresh: "heap w b = None" "heap w (Suc b) = None" "heap w (Suc (Suc b)) = None"
    using wf h(2) by (simp_all add: wf_heap_def)
  have heap: "(heap v')(Suc (Suc b) := None, Suc b := None, b := None) = heap w"
    using fresh unfolding bs(1) h(1) by (auto simp: fun_eq_iff)
  have live: "heap v' (Suc (Suc b)) \<noteq> None" "heap v' (Suc b) \<noteq> None" "heap v' b \<noteq> None"
    unfolding bs(1) h(1) by simp_all
  have hv: "heap v' i = heap w i" if "i \<noteq> b" "i \<noteq> Suc b" "i \<noteq> Suc (Suc b)" for i
    using that unfolding bs(1) h(1) by simp
  have le: "n_ok (rxs es) \<le> nat (count p)" using x(1) n_ok_le [of "rxs es"] by (simp add: rx_run_def)
  have "to_u64 (max 0 (count p)) = of_nat (nat (count p))"
    using cnt to_u64_of_nat [of "nat (count p)"] by simp
  then have res: "u64_to_int (to_u64 (max 0 (count p)) - try_again r) = int (n_ok (rxs es))"
    using u64_diff_ok [OF le] cnt x(3) by simp
  have wf': "\<forall>i \<ge> next_blk v'. heap w i = None" using wf h(2,3) bs(2) by (simp add: wf_heap_def)
  show ?thesis
    unfolding Let_def cp wp_bnd [of "report_payload _ _"]
    by (rule wp_report_payload)
       (use live wf' x l tr res bs(2) cnt in
          \<open>auto simp: wp_simps wf_heap_def heap hv dest!: world_more_last_hdr\<close>)
qed

lemma sink_recvmsg_correct:
  fixes w :: "('k, 'm) sink_world_scheme"
  assumes K: "keeps_to_buffers K" and pre: "sink_pre p w" and again: "try_again r0 = 0"
    and ne: "iov_elems p = int ne" "0 < ne" "ne \<le> nat (buf_sz p)" "16 * int ne < 2 ^ 32"
  shows "wp (sink_with_recvmsg K fd p r0)
    (\<lambda>(res, p', r') w'. heap w' = heap w \<and> wf_heap w' \<and> (\<exists>es. trace w' = trace w @ es
       \<and> rx_run (rm_req fd p) (nat (count p)) (rxs es) \<and> res = int (n_ok (rxs es))
       \<and> bytes_cnt r' = rx_sum (rxs es) \<and> try_again r' = of_nat (nat (count p) - n_ok (rxs es))
       \<and> (last_hdr w', p') = check_all (last_hdr w, p) (rx_pkts (rxs es)))) (rm_exit p w) w"
proof -
  let ?sz = "nat (buf_sz p) div ne" and ?n = "unat (to_u64 (buf_sz p))"
  have cnt: "0 < count p" "count p \<le> INT_MAX" and wf: "wf_heap w"
    and bsz: "0 \<le> buf_sz p" "buf_sz p + 16 \<le> INT_MAX" using pre by (simp_all add: sink_pre_def)
  have n: "?n = nat (buf_sz p)" using uint_to_u64 [of "buf_sz p"] bsz by (simp add: unat_eq_nat_uint INT_MAX_def)
  have szs: "0 < ?sz" "ne * ?sz \<le> nat (buf_sz p)" "int (ne * ?sz) + 16 \<le> INT_MAX"
  proof -
    show "0 < ?sz" using ne by (simp add: div_greater_zero_iff)
    show le: "ne * ?sz \<le> nat (buf_sz p)" by simp
    then have "int (ne * ?sz) \<le> int (nat (buf_sz p))" by (simp only: of_nat_le_iff)
    then show "int (ne * ?sz) + 16 \<le> INT_MAX" using bsz by simp
  qed
  show ?thesis
    unfolding sink_with_recvmsg_def
  proof (rule wp_alloc_message, goal_cases)
    case 1 show ?case by (simp add: rm_exit_def)
  next
    case (2 b v r1 r2 r3)
    note al = 2
    have lv: "last_hdr v = last_hdr w" using 2(4) by (rule world_more_last_hdr)
    let ?es0 = "[(Rq_malloc (to_u64 (buf_sz p)), r1), (Rq_malloc sizeof_msghdr, r2),
        (Rq_malloc (ucast (iovec_memsz (word_of_int (iov_elems p)))), r3)]"
    have es0: "rxs ?es0 = []" by simp
    have h: "heap v b = Some (replicate (nat (buf_sz p)) 0)"
        "heap v (Suc (Suc b)) = Some (replicate (16 * ne) 0)"
      using 2(2) n iovec_memsz_small [OF ne(4)] ne(1) by simp_all
    show ?case
      unfolding wp_bnd [of "recvmsg_iov _ _ _"]
    proof (rule wp_recvmsg_iov [OF ne(1,2) bsz(1) _ ne(4) h(2)], goal_cases)
      case 3
      show ?case
        unfolding wp_bnd [of "for_break _ _ _ _"]
      proof (rule wp_conseq [OF wp_recvmsg_loop [OF K szs(1) ne(2) szs(3) ne(1) h(1) _ refl]], goal_cases)
        case (2 x v')
        then obtain es where es: "trace v' = trace v @ es" "rm_released b v v'" and x: "case x of
            Inl res \<Rightarrow> rx_failed (rxs es)
          | Inr (tot, r, p', m) \<Rightarrow> rx_run (rm_req fd p) (nat (count p)) (rxs es) \<and> tot = rx_sum (rxs es)
              \<and> try_again r = try_again r0 + of_nat (nat (count p) - n_ok (rxs es))
              \<and> (last_hdr v', p') = check_all (last_hdr v, p) (rx_pkts (rxs es))" by (elim exE conjE)
        show ?case
        proof (cases x)
          case (Inl res)
          with es(2) show ?thesis
            by (auto simp: sink_error_def wp_simps rm_released_def rm_exit_def)
        next
          case (Inr y)
          obtain tot r p' m where y: "y = (tot, r, p', m)" by (cases y)
          show ?thesis
            unfolding Inr y sum.case prod.case
            by (rule wp_recvmsg_release [OF al(2,1,3) wf es(2) al(5) es0 es(1)])
               (use x Inr y lv again cnt in simp_all)
        qed
      next
        case (3 c v')
        then show ?case by (rule rm_exit_later [OF _ al(5) es0 lv])
      qed (use szs in simp)
    qed (use bsz in simp_all)
  qed
qed

section \<open>Streams of packets filled with one header each\<close>

lemma pkt_hdrs_fill: "pkt_hdrs (pgh.fill h n) = replicate (n div 16) h"
proof (rule nth_equalityI)
  fix i assume "i < length (pkt_hdrs (pgh.fill h n))"
  then have i: "i < n div 16" by (simp add: pkt_hdrs_def pgh.length_fill)
  then have "i * 16 + 16 \<le> n" by linarith
  with i show "pkt_hdrs (pgh.fill h n) ! i = replicate (n div 16) h ! i"
    using pgh.fill_decode [of i n h] by (simp add: pkt_hdrs_def hdr_chunk_def pgh.length_fill)
qed (simp add: pkt_hdrs_def pgh.length_fill)

lemma fill_spec:
  assumes "16 \<le> n"
  shows "last_spec lst (pgh.fill h n) = h" "clean lev lst (pgh.fill h n) \<longleftrightarrow>
    ntohl (pgh_magic h) = PKTGEN_MAGIC
    \<and> (pgh_magic lst \<noteq> 0 \<longrightarrow> \<not> out_of_order lst h \<and> (2 < lev \<longrightarrow> seq_num h = seq_num lst + 1))"
proof -
  have "0 < n div 16" using assms by (simp add: div_greater_zero_iff)
  then obtain m where "n div 16 = Suc m" by (cases "n div 16") simp_all
  then have hs: "pkt_hdrs (pgh.fill h n) = h # replicate m h" by (simp add: pkt_hdrs_fill)
  then show "last_spec lst (pgh.fill h n) = h" by (simp add: last_spec_def)
  show "clean lev lst (pgh.fill h n) \<longleftrightarrow> ntohl (pgh_magic h) = PKTGEN_MAGIC
    \<and> (pgh_magic lst \<noteq> 0 \<longrightarrow> \<not> out_of_order lst h \<and> (2 < lev \<longrightarrow> seq_num h = seq_num lst + 1))"
    unfolding clean_def hs by (auto simp: set_replicate_conv_if)
qed

text \<open>The header \<open>b\<close> may follow the header \<open>a\<close> at a check level.\<close>

definition follows :: "int \<Rightarrow> pktgen_hdr \<Rightarrow> pktgen_hdr \<Rightarrow> bool" where
  "follows lev a b \<longleftrightarrow> \<not> out_of_order a b \<and> (2 < lev \<longrightarrow> seq_num b = seq_num a + 1)"

lemma check_all_off: "check p = 0 \<Longrightarrow> check_all (lst, p) pkts = (lst, p)"
  by (induction pkts) (simp_all add: check_one_def)

lemma check_all_follows:
  assumes "16 \<le> n" "\<not> checks_failed p" "successively (follows (check p)) hs"
    "hs \<noteq> [] \<Longrightarrow> pgh_magic lst = 0 \<or> follows (check p) lst (hd hs)"
    "\<forall>h \<in> set hs. ntohl (pgh_magic h) = PKTGEN_MAGIC"
  shows "\<not> checks_failed (snd (check_all (lst, p) (map (\<lambda>h. pgh.fill h n) hs)))"
  using assms(2-)
proof (induction hs arbitrary: lst p)
  case (Cons h hs)
  let ?pkt = "pgh.fill h n"
  have z: "ooo p = 0" "bad_magic p = 0" "bad_repeat p = 0" using Cons.prems(1) by (auto simp: checks_failed_def)
  have "clean (check p) lst ?pkt"
    using Cons.prems(3,4) by (auto simp: fill_spec(2) [OF assms(1)] follows_def)
  then have "\<not> checks_failed (check_spec lst ?pkt p)" by (simp add: checks_failed_iff [OF z])
  moreover have chk: "check (check_spec lst ?pkt p) = check p"
    using check_spec_settings by (rule settings_fields)
  moreover have "successively (follows (check p)) hs" "hs \<noteq> [] \<Longrightarrow> follows (check p) h (hd hs)"
    using Cons.prems(2) by (cases hs; simp)+
  ultimately show ?case
    using Cons.IH [of "check_spec lst ?pkt p" h] Cons.prems
    by (cases "check p = 0") (auto simp: check_all_off check_one_def fill_spec(1) [OF assms(1)])
qed simp

section \<open>Properties\<close>

text \<open>
  C3.  \<open>sink_with_recvmsg\<close> is safe, counts the packets and checks each of them.  On a kernel whose
  \<open>recvmsg\<close> keeps to the vector it is given, for any number of buckets, any check level and any
  sender and ancillary checks, the function has no undefined behaviour.  When it returns it made
  \<open>--count\<close> calls; its result is the number of those that brought a packet, the record holds their
  bytes and the number of \<open>EAGAIN\<close> answers, the heap is as before, and the counters and the
  remembered header are those of checking the received packets one after the other.  It exits with
  \<open>EXIT_FAIL_RECV\<close> only at level 3, and only when the checks of the packets received had failed.
\<close>

theorem recvmsg_counts_and_checks:
  assumes "keeps_to_buffers K" "sink_pre p w" "try_again r0 = 0"
    and "iov_elems p = int ne" "0 < ne" "ne \<le> nat (buf_sz p)" "16 * int ne < 2 ^ 32"
  shows "wp (sink_with_recvmsg K fd p r0)
    (\<lambda>(res, p', r') w'. heap w' = heap w \<and> (\<exists>es. trace w' = trace w @ es
       \<and> rx_run (rm_req fd p) (nat (count p)) (rxs es) \<and> res = int (n_ok (rxs es))
       \<and> bytes_cnt r' = rx_sum (rxs es) \<and> try_again r' = of_nat (nat (count p) - n_ok (rxs es))
       \<and> (last_hdr w', p') = check_all (last_hdr w, p) (rx_pkts (rxs es))))
    (\<lambda>c w'. c = EXIT_FAIL_MEM \<or> c = EXIT_FAIL_SOCK \<or> c = EXIT_FAIL_RECV \<and> 2 < check p \<and>
       (\<exists>es. trace w' = trace w @ es
          \<and> checks_failed (snd (check_all (last_hdr w, p) (rx_pkts (rxs es)))))) w"
  by (rule wp_conseq [OF sink_recvmsg_correct [OF assms]]) (auto simp: rm_exit_def)

text \<open>A kernel on which every call answers one and \<open>recvmsg\<close> delivers one byte.\<close>

definition one_byte :: "unit kernel" where
  "one_byte rq k = ((sysres_of 1 0)\<lparr>r_msgs := [rxmsg_zero\<lparr>rx_data := [7]\<rparr>]\<rparr>, k)"

definition one_byte_ok :: "unit kernel" where
  "one_byte_ok rq k = (case rq of
       Rq_recvmsg fd m fl \<Rightarrow> if 1 \<le> (\<Sum>v \<leftarrow> msg_iov m. uint (iov_len v)) then one_byte rq k
                              else (sysres_of (- 1) EAGAIN, k)
     | _ \<Rightarrow> one_byte rq k)"

lemma one_byte_keeps: "keeps_to_buffers one_byte_ok"
  by (simp add: keeps_to_buffers_def one_byte_ok_def one_byte_def sysres_of_def first_msg_def Let_def)

theorem recvmsg_counts_and_checks_witness:
  "wp (sink_with_recvmsg one_byte_ok 3 (sink_init_params\<lparr>count := 5, iov_elems := 4, check := 3\<rparr>) time_bench_zero)
    (\<lambda>(res, p', r') w'. \<exists>es. trace w' = es \<and> length (rxs es) = 5 \<and> res = int (n_ok (rxs es)))
    (\<lambda>c w'. c \<in> {1, 100, 104}) (sink_boot ())"
  by (rule wp_conseq [OF recvmsg_counts_and_checks [OF one_byte_keeps, where ne = 4]])
     (auto simp: sink_pre_def sink_init_params_def sink_boot_def wf_heap_def INT_MAX_def
       time_bench_zero_def c_consts rx_run_def)

end
