(* ===== verification/EndToEnd.thy ===== *)
theory EndToEnd
  imports UdpFlood_Props UdpSink_Recvmsg
begin

text \<open>
  The stream of packets between \<open>udp_flood\<close> and \<open>udp_sink\<close>: packets filled with consecutive headers
  pass the receiver's check at every level, and a worked example of one packet on its way.
\<close>

section \<open>From the sender to the receiver\<close>

fun tx_data :: "sysreq \<Rightarrow> bytes" where
  "tx_data (Rq_write _ d) = d"
| "tx_data (Rq_send _ d _) = d"
| "tx_data (Rq_sendto _ d _ _ _) = d"
| "tx_data (Rq_sendmsg _ _ _ d _) = d"
| "tx_data _ = []"

definition sent_pkts :: "(sysreq \<times> sysres) list \<Rightarrow> bytes list" where
  "sent_pkts es = map (tx_data \<circ> fst) (txs es)"

text \<open>The times in the packets' headers do not go back.\<close>

definition time_le :: "pktgen_hdr \<Rightarrow> pktgen_hdr \<Rightarrow> bool" where
  "time_le a b \<longleftrightarrow> tv_sec32 a < tv_sec32 b \<or> (tv_sec32 a = tv_sec32 b \<and> tv_usec32 a \<le> tv_usec32 b)"

definition times_in_order :: "bytes list \<Rightarrow> bool" where
  "times_in_order pkts \<longleftrightarrow> successively (\<lambda>a b. time_le (hdr_of (take 16 a)) (hdr_of (take 16 b))) pkts"

lemma successor_not_less:
  fixes x :: u32
  assumes "x < 3 * 1000 * 1000 * 1000"
  shows "\<not> x + 1 < x"
proof -
  have "uint x < 3000000000" using assms by (simp add: word_less_def)
  then have "uint (x + 1) = uint x + 1" by (simp add: uint_plus_if_size word_size)
  then show ?thesis by (simp add: word_less_def)
qed

lemma consecutive_follows: "time_le a b \<Longrightarrow> seq_num b = seq_num a + 1 \<Longrightarrow> follows lev a b"
  using successor_not_less [of "seq_num a"]
  by (auto simp: follows_def out_of_order_def time_le_def)

lemma hdr_of_fill: "16 \<le> n \<Longrightarrow> hdr_of (take 16 (pgh.fill h n)) = h"
  using pgh.fill_decode [of 0 n h] by simp

lemma sent_as_fills:
  assumes "tx_run (sent mk True p s) n tx" and mk: "\<And>d. tx_data (mk d) = d"
  obtains t where "map (tx_data \<circ> fst) tx
      = map (\<lambda>i. pgh.fill (fill_hdr (t i) (s + of_nat i)) (nat (fl_msg_sz p))) [0..<n]"
proof -
  have len: "length tx = n" and "\<forall>i < n. \<exists>t. tx_data (fst (tx ! i))
      = pgh.fill (fill_hdr t (s + of_nat i)) (nat (fl_msg_sz p))"
    using assms(1) mk unfolding tx_run_def sent_def payload_def if_True by metis+
  then obtain t where "\<forall>i < n. tx_data (fst (tx ! i))
      = pgh.fill (fill_hdr (t i) (s + of_nat i)) (nat (fl_msg_sz p))" by metis
  with len show ?thesis by (intro that [of t] nth_equalityI) simp_all
qed

lemma stream_accepted:
  fixes t :: "nat \<Rightarrow> timespec" and s :: u32
  defines "h i \<equiv> fill_hdr (t i) (s + of_nat i)"
  assumes n: "16 \<le> n" and ord: "times_in_order (map (\<lambda>i. pgh.fill (h i) n) [0..<m])"
    and p: "\<not> checks_failed p"
  shows "\<not> checks_failed (snd (check_all (hdr_zero, p) (take k (map (\<lambda>i. pgh.fill (h i) n) [0..<m]))))"
proof -
  let ?hs = "map h [0..<min k m]"
  have take: "take k (map (\<lambda>i. pgh.fill (h i) n) [0..<m]) = map (\<lambda>g. pgh.fill g n) ?hs"
    by (simp add: take_map take_upt min_def comp_def)
  have "successively (follows (check p)) ?hs"
    unfolding successively_conv_nth
  proof (intro allI impI)
    fix i assume i: "Suc i < length ?hs"
    then have "time_le (h i) (h (Suc i))"
      using ord n unfolding times_in_order_def successively_conv_nth
      by (auto simp: hdr_of_fill)
    moreover have "seq_num (h (Suc i)) = seq_num (h i) + 1" by (simp add: h_def fill_hdr_def)
    ultimately show "follows (check p) (?hs ! i) (?hs ! Suc i)"
      using i by (simp add: consecutive_follows)
  qed
  moreover have "\<forall>g \<in> set ?hs. ntohl (pgh_magic g) = PKTGEN_MAGIC" by (auto simp: h_def fill_hdr_def)
  ultimately show ?thesis
    unfolding take by (intro check_all_follows n p) (simp_all add: hdr_zero_def)
qed

section \<open>A worked example\<close>

text \<open>
  One packet of 16 bytes, sent with \<open>write\<close> on a kernel that answers every call, and received with
  \<open>recvmsg\<close> on a kernel that delivers it.
\<close>

definition demo_params :: flood_params where
  "demo_params = flood_test_params\<lparr>fl_count := 1, fl_msg_sz := 16\<rparr>"

lemma obliging_reply [simp]: "reply obliging rq w = sysres_of 1 0"
  by (simp add: reply_def obliging_def)

lemma sysres_of_fields [simp]: "r_ret (sysres_of n e) = n" "r_time (sysres_of n e) = TimeSpec 0 0"
  "r_data (sysres_of n e) = []" "r_msgs (sysres_of n e) = []" "r_text (sysres_of n e) = None"
  "r_errno (sysres_of n e) = e" "r_tsc (sysres_of n e) = 0"
  by (simp_all add: sysres_of_def)

lemma demo_flood:
  "wp (flood_time_function obliging 3 demo_params flood_with_write)
     (\<lambda>r w'. sent_pkts (new_events (flood_boot ()) w') = [hdr_bytes (fill_hdr (TimeSpec 0 0) 0)])
     (\<lambda>_ _. False) (flood_boot ())"
proof -
  have sz: "fl_msg_sz demo_params = 16" "fl_count demo_params = 1" "fl_pktgen_hdr demo_params = 1"
    by (simp_all add: demo_params_def flood_test_params_def)
  have b: "verbose (flood_boot ()) = 0" "heap (flood_boot ()) = Map.empty" "trace (flood_boot ()) = []" "sequence (flood_boot ()) = 0"
    by (simp_all add: flood_boot_def)
  have u: "unat (to_u64 16) = 16" "uint (to_u64 16) = 16" by (simp_all add: to_u64_def)
  have one: "to_u64 1 \<noteq> 0" by (simp add: to_u64_def)
  show ?thesis
    unfolding flood_time_function_def time_bench_start_def flood_with_write_def sz malloc_payload_buffer_def
    by (simp add: wp_simps for_break.simps [of 0 1] for_break.simps [of 1 1] fill_buf_def sz b u send_failed_def Let_def
      fill_loop.simps [of _ _ _ 0] fill_loop.simps [of _ _ _ 16] is_i32_def INT_MIN_def INT_MAX_def
      time_bench_stop_def time_bench_print_stats_def flood_result_def one wp_calc_stats overwrite_all sent_pkts_def)
qed

definition demo_link :: "unit kernel" where
  "demo_link rq k = (case rq of
       Rq_recvmsg fd m fl \<Rightarrow> if 16 \<le> (\<Sum>v \<leftarrow> msg_iov m. uint (iov_len v))
         then ((sysres_of 16 0)\<lparr>r_msgs := [rxmsg_zero\<lparr>rx_data := hdr_bytes (fill_hdr (TimeSpec 0 0) 0)\<rparr>]\<rparr>, k)
         else (sysres_of (- 1) EAGAIN, k)
     | _ \<Rightarrow> (sysres_of 1 0, k))"

lemma demo_link_keeps: "keeps_to_buffers demo_link"
  by (simp add: keeps_to_buffers_def demo_link_def first_msg_def rxmsg_zero_def sysres_of_def Let_def)

definition demo_sink :: sink_params where
  "demo_sink = sink_init_params\<lparr>count := 1, check := 1, buf_sz := 16\<rparr>"

lemma demo_recv:
  "wp (sink_with_recvmsg demo_link 4 demo_sink time_bench_zero)
     (\<lambda>_ v'. rx_pkts (rxs (new_events (sink_boot ()) v')) = [hdr_bytes (fill_hdr (TimeSpec 0 0) 0)])
     (\<lambda>_ _. False) (sink_boot ())"
proof -
  have p: "count demo_sink = 1" "check demo_sink = 1" "buf_sz demo_sink = 16" "iov_elems demo_sink = 1"
    "sender_addr demo_sink = sockaddr_zero" "recv_ttl demo_sink = 0" "recv_pktinfo demo_sink = 0" "dontwait demo_sink = 0"
    by (simp_all add: demo_sink_def sink_init_params_def)
  have b: "verbose (sink_boot ()) = 0" "heap (sink_boot ()) = Map.empty" "trace (sink_boot ()) = []"
      "last_hdr (sink_boot ()) = hdr_zero" "next_blk (sink_boot ()) = 0"
    by (simp_all add: sink_boot_def)
  have u: "unat (to_u64 16) = 16" "uint (to_u64 16) = 16" by (simp_all add: to_u64_def)
  have rep: "reply demo_link (Rq_malloc n) w = sysres_of 1 0" for n w by (simp add: reply_def demo_link_def)
  have rep2: "reply demo_link (Rq_recvmsg fd m fl) w = (sysres_of 16 0)\<lparr>r_msgs := [rxmsg_zero\<lparr>rx_data := hdr_bytes (fill_hdr (TimeSpec 0 0) 0)\<rparr>]\<rparr>"
    if "msg_iov m = [\<lparr>iov_base = q, iov_len = to_u64 16\<rparr>]" for fd m fl w q using that u by (simp add: reply_def demo_link_def)
  let ?d = "hdr_bytes (fill_hdr (TimeSpec 0 0) 0)"
  have ck: "wp (check_pkt [\<lparr>iov_base = Ptr 0 0, iov_len = to_u64 16\<rparr>] 1 16 demo_sink) Q (\<lambda>_ _. False) w"
    if "heap w 0 = Some ?d" "\<And>p l. settings_of p = settings_of demo_sink \<Longrightarrow> Q p (w\<lparr>last_hdr := l\<rparr>)" for Q w
  proof -
    have "packet_at w 0 0 16 1 ?d" using that(1) by (simp add: packet_at_def INT_MAX_def)
    then have "wp (check_pkt (buckets 0 0 16 1) (int 1) (int (length ?d)) demo_sink) Q (\<lambda>_ _. False) w"
      by (rule wp_check_pkt)
         (use that(2) check_spec_settings p(2) in \<open>auto simp: check_one_def\<close>)
    then show ?thesis by (simp add: buckets_def to_u64_def)
  qed
  have mem: "iovec_memsz 1 = 16" by (simp add: iovec_memsz_def)
  have rr: "r_ret (sysres_of 16 0\<lparr>r_msgs := x\<rparr>) = 16" for x by (simp add: sysres_of_def)
  show ?thesis
    unfolding sink_with_recvmsg_def p malloc_payload_buffer_def malloc_msghdr_def malloc_iovec_def
  proof (simp add: recvmsg_iov_def p b u wp_simps for_loop.simps [of 1 1] for_break.simps [of 0 1]
      for_break.simps [of 1 1] Let_def cdiv_def is_i32_def INT_MIN_def INT_MAX_def recvmsg_def mem rep
      overwrite_all sink_msghdr_def setup_msg_name_def sockaddr_zero_def want_cmsg_def msghdr_zero_def
      rep2 first_msg_def rr take_rx_def rxmsg_zero_def check_msg_name_def check_cmsg_def
      report_payload_def rx_pkts_def rx_ok_def, rule ck, goal_cases)
    case (2 p l)
    then show ?case
      using settings_fields [of p demo_sink]
      by (simp add: p wp_simps check_msg_name_def check_cmsg_def sockaddr_zero_def report_payload_def b
          rep2 first_msg_def rx_ok_def rr)
  qed (simp add: overwrite_all)
qed

lemma demo_times: "times_in_order [d]"
  by (simp add: times_in_order_def)

end
