(* ===== verification/UdpFlood_Mmsg.thy ===== *)
theory UdpFlood_Mmsg
  imports UdpFlood_Props
begin

text \<open>
  The batched sender \<open>flood_with_sendMmsg\<close> of \<open>src/src/udp_flood.c\<close>: the packets of a batch lie one after the
  other in one buffer, and one call sends as many of them as it is told.  The property says which packets
  each call carries, what the function reports, and how far the sequence counter has gone.
\<close>

section \<open>The packets of a batch\<close>

definition chunk :: "nat \<Rightarrow> nat \<Rightarrow> bytes \<Rightarrow> bytes" where
  "chunk sz j bs = take sz (drop (j * sz) bs)"

lemma mult_le_index: "(j :: nat) < n \<Longrightarrow> j * sz + sz \<le> n * sz"
  by (metis Suc_leI add.commute mult_Suc mult_le_mono1)

lemma length_chunk: "length bs = n * sz \<Longrightarrow> j < n \<Longrightarrow> length (chunk sz j bs) = sz"
  using mult_le_index [of j n sz] by (simp add: chunk_def)

lemma chunk_overwrite:
  assumes "length bs = n * sz" "length d = sz" "i < n" "j < n"
  shows "chunk sz j (overwrite bs (i * sz) d) = (if j = i then d else chunk sz j bs)"
proof -
  have i: "i * sz + sz \<le> length bs" using assms mult_le_index [of i n sz] by simp
  have ji: "j * sz + sz \<le> i * sz" if "j < i" using that by (rule mult_le_index)
  have ij: "i * sz + sz \<le> j * sz" if "i < j" using that by (rule mult_le_index)
  consider "j = i" | "j < i" | "i < j" by linarith
  then show ?thesis
  proof cases
    case 1
    with i assms show ?thesis by (simp add: chunk_def overwrite_def)
  next
    case 2
    with ji i assms show ?thesis by (simp add: chunk_def overwrite_def drop_take min_absorb1)
  next
    case 3
    then have "drop (j * sz) (overwrite bs (i * sz) d) = drop (j * sz) bs"
      using ij i assms by (simp add: overwrite_def)
    with 3 show ?thesis by (simp add: chunk_def)
  qed
qed

lemma chunk_zeros: "j < n \<Longrightarrow> chunk sz j (replicate (n * sz) 0) = replicate sz 0"
  using mult_le_index [of j n sz] by (simp add: chunk_def)

text \<open>The buffer with a whole batch in it, the first packet of which is number \<open>i\<close>.\<close>

definition batch_filled :: "flood_params \<Rightarrow> u32 \<Rightarrow> nat \<Rightarrow> bytes \<Rightarrow> bool" where
  "batch_filled p s i bs \<longleftrightarrow> (\<forall>j < nat (fl_batch p).
     payload (fl_pktgen_hdr p \<noteq> 0) p s (i + j) (chunk (nat (fl_msg_sz p)) j bs))"

lemma wp_fill_batch:
  fixes v :: "('k, 'm) flood_world_scheme"
  assumes sz: "0 \<le> fl_msg_sz p" "fl_msg_sz p + 16 \<le> INT_MAX" and n: "0 < fl_batch p"
    and v: "heap v b = Some bs" "length bs = nat (fl_batch p) * nat (fl_msg_sz p)"
    and start: "if fl_pktgen_hdr p \<noteq> 0 then sequence v = s + of_nat i else bs = replicate (length bs) 0"
  shows "wp (fill_batch K p (Ptr b 0)) (\<lambda>_ v'. \<exists>bs' es. heap v' = (heap v)(b \<mapsto> bs') \<and> length bs' = length bs
      \<and> next_blk v' = next_blk v \<and> trace v' = trace v @ es \<and> txs es = [] \<and> batch_filled p s i bs'
      \<and> (if fl_pktgen_hdr p \<noteq> 0 then sequence v' = s + of_nat (i + nat (fl_batch p)) else bs' = replicate (length bs) 0)) E v"
proof (cases "fl_pktgen_hdr p = 0")
  case True
  with v start show ?thesis
    by (auto simp: fill_batch_def wp_simps batch_filled_def payload_def fun_upd_idem chunk_zeros simp del: ret_run)
next
  case False
  let ?sz = "nat (fl_msg_sz p)" and ?n = "nat (fl_batch p)"
  let ?I = "\<lambda>k v'. \<exists>bs' es. heap v' = (heap v)(b \<mapsto> bs') \<and> length bs' = length bs \<and> next_blk v' = next_blk v
      \<and> trace v' = trace v @ es \<and> txs es = [] \<and> sequence v' = s + of_nat (i + k)
      \<and> (\<forall>j < k. payload True p s (i + j) (chunk ?sz j bs'))"
  have "wp (for_loop 0 (fl_batch p) (\<lambda>pkt _. fill_buf K p (ptr_add (Ptr b 0) (pkt * fl_msg_sz p)) (fl_msg_sz p)) ())
      (\<lambda>_. ?I ?n) E v"
  proof (rule wp_for_loop [where I = "\<lambda>pkt _. ?I (nat pkt)"])
    show "?I (nat 0) v" using v start False by (intro exI [of _ bs] exI [of _ "[]"]) (auto simp: fun_upd_idem)
  next
    fix k u and t :: "('k, 'm) flood_world_scheme"
    assume k: "0 \<le> k" "k < fl_batch p" and "?I (nat k) t"
    then obtain bs' es where t: "heap t = (heap v)(b \<mapsto> bs')" "length bs' = ?n * ?sz" "next_blk t = next_blk v"
      "trace t = trace v @ es" "txs es = []" "sequence t = s + of_nat (i + nat k)"
      and old: "\<forall>j < nat k. payload True p s (i + j) (chunk ?sz j bs')" using v(2) by auto
    have kn: "nat k < ?n" and ka: "nat (k * fl_msg_sz p) = nat k * ?sz" using k sz by (auto simp: nat_mult_distrib)
    have fit: "k * fl_msg_sz p + fl_msg_sz p \<le> int (length bs')"
      using mult_right_mono [of "k + 1" "fl_batch p" "fl_msg_sz p"] k sz t(2) by (simp add: distrib_right)
    show "wp (fill_buf K p (ptr_add (Ptr b 0) (k * fl_msg_sz p)) (fl_msg_sz p)) (\<lambda>_. ?I (nat (k + 1))) E t"
      unfolding ptr_add.simps add_0
    proof (rule wp_fill_buf [of t b bs'])
      fix h u
      assume h: "h = fill_hdr (r_time (reply K (Rq_clock_gettime CLOCK_REALTIME_COARSE) t)) (sequence t)"
        and u: "u = set_block b (Some (overwrite bs' (nat (k * fl_msg_sz p)) (pgh.fill h ?sz)))
          ((after_call K (Rq_clock_gettime CLOCK_REALTIME_COARSE) t)\<lparr>sequence := sequence t + 1\<rparr>)"
      let ?bs = "overwrite bs' (nat k * ?sz) (pgh.fill h ?sz)"
      have "payload True p s (i + j) (chunk ?sz j ?bs)" if "j < nat (k + 1)" for j
      proof (cases "j = nat k")
        case True
        then show ?thesis
          using chunk_overwrite [OF t(2) _ kn kn, of "pgh.fill h ?sz"] t(6) h by (auto simp: payload_def pgh.length_fill)
      next
        case False
        then have "j < nat k" "j < ?n" using that k kn by auto
        then show ?thesis
          using chunk_overwrite [OF t(2) _ kn, of "pgh.fill h ?sz" j] old False by (simp add: pgh.length_fill)
      qed
      moreover have "length ?bs = length bs'" using mult_le_index [OF kn, of ?sz] t(2) by (simp add: pgh.length_fill)
      ultimately show "?I (nat (k + 1)) u"
        using t k v(2) unfolding u ka
        by (intro exI [of _ ?bs] exI [of _ "es @ [(Rq_clock_gettime CLOCK_REALTIME_COARSE, reply K (Rq_clock_gettime CLOCK_REALTIME_COARSE) t)]"])
           (simp add: nat_add_distrib)
    qed (use t k sz fit False in \<open>simp_all\<close>)
  qed (use n in auto)
  with False show ?thesis
    by (simp add: fill_batch_def batch_filled_def wp_simps) (erule wp_conseq; fastforce)
qed

section \<open>The message headers\<close>

definition packet_iov :: "flood_params \<Rightarrow> nat \<Rightarrow> nat \<Rightarrow> iovec list" where
  "packet_iov p b j = [\<lparr>iov_base = Ptr b (int (j * nat (fl_msg_sz p))), iov_len = to_u64 (fl_msg_sz p)\<rparr>]"

definition batch_headers :: "flood_params \<Rightarrow> nat \<Rightarrow> nat \<Rightarrow> (sockaddr_storage \<times> iovec list) list" where
  "batch_headers p b k = map (\<lambda>j. (fl_dest_addr p, packet_iov p b j)) [0..<k]"

definition batch_msgs :: "flood_params \<Rightarrow> nat \<Rightarrow> bytes \<Rightarrow> (sockaddr_storage \<times> bytes) list" where
  "batch_msgs p k bs = map (\<lambda>j. (fl_dest_addr p, chunk (nat (fl_msg_sz p)) j bs)) [0..<k]"

lemma wp_gather_packets:
  assumes sz: "0 \<le> fl_msg_sz p" "fl_msg_sz p + 16 \<le> INT_MAX"
    and v: "heap v b = Some bs" "length bs = n * nat (fl_msg_sz p)" and js: "\<forall>j \<in> set js. j < n"
    and Q: "Q (map (\<lambda>j. (fl_dest_addr p, chunk (nat (fl_msg_sz p)) j bs)) js) v"
  shows "wp (gather_all (map (\<lambda>j. (fl_dest_addr p, packet_iov p b j)) js)) Q E v"
  using js Q
proof (induction js arbitrary: Q)
  case Nil
  then show ?case by (simp add: wp_simps del: ret_run)
next
  case (Cons j js)
  have "j * nat (fl_msg_sz p) + nat (fl_msg_sz p) \<le> length bs" using Cons.prems(1) v(2) mult_le_index [of j n] by simp
  then have fit: "int (j * nat (fl_msg_sz p)) + fl_msg_sz p \<le> int (length bs)" using sz by linarith
  have at: "nat (int (j * nat (fl_msg_sz p))) = j * nat (fl_msg_sz p)" by (rule nat_int)
  have "wp (gather_all (map (\<lambda>j. (fl_dest_addr p, packet_iov p b j)) js))
      (\<lambda>rest. Q ((fl_dest_addr p, chunk (nat (fl_msg_sz p)) j bs) # rest)) E v"
    by (rule Cons.IH) (use Cons.prems in auto)
  with fit sz v(1) show ?case
    by (simp add: wp_bnd wp_ret packet_iov_def gather_single msg_sz_u64 wp_load chunk_def at
        del: ret_run gather.simps of_nat_mult int_nat_eq)
qed

lemma wp_setup_batch:
  fixes w :: "('k, 'm) world_scheme"
  assumes sz: "0 \<le> fl_msg_sz p" and n: "0 < fl_batch p"
    and iov: "heap w b2 = Some x2" "int (length x2) = 16 * fl_batch p"
    and hdr: "heap w b1 = Some x1" "int (length x1) = 64 * fl_batch p"
    and Q: "Q (batch_headers p b (nat (fl_batch p))) w"
  shows "wp (for_loop 0 (fl_batch p) (\<lambda>pkt mmsg_hdr.
            bnd (setup_iov (Ptr b2 0) (pkt * uint (1 :: u32)) (ptr_add (Ptr b 0) (pkt * fl_msg_sz p)) (fl_msg_sz p) (to_u64 (fl_msg_sz p)) 1) (\<lambda>iovs.
            bnd (touch (ptr_add (Ptr b1 0) (64 * pkt)) 64) (\<lambda>_.
            ret (mmsg_hdr @ [(fl_dest_addr p, iovs)])))) []) Q E w"
proof (rule wp_for_loop [where I = "\<lambda>k hs v. v = w \<and> hs = batch_headers p b (nat k)"])
  fix k hs and v :: "('k, 'm) world_scheme"
  assume k: "0 \<le> k" "k < fl_batch p" and v: "v = w \<and> hs = batch_headers p b (nat k)"
  have "k * fl_msg_sz p = int (nat k * nat (fl_msg_sz p))" using k sz by simp
  then have "batch_headers p b (nat k) @ [(fl_dest_addr p, [\<lparr>iov_base = Ptr b (k * fl_msg_sz p), iov_len = to_u64 (fl_msg_sz p)\<rparr>])]
      = batch_headers p b (nat (k + 1))"
    using k by (simp add: batch_headers_def packet_iov_def nat_add_distrib)
  then show "wp (bnd (setup_iov (Ptr b2 0) (k * uint (1 :: u32)) (ptr_add (Ptr b 0) (k * fl_msg_sz p)) (fl_msg_sz p) (to_u64 (fl_msg_sz p)) 1) (\<lambda>iovs.
            bnd (touch (ptr_add (Ptr b1 0) (64 * k)) 64) (\<lambda>_.
            ret (hs @ [(fl_dest_addr p, iovs)]))))
     (\<lambda>hs v. v = w \<and> hs = batch_headers p b (nat (k + 1))) E v"
    unfolding wp_bnd using k v iov hdr
    by (intro setup_iov_single [of _ b2 x2]) (simp_all add: wp_simps)
qed (use n Q in \<open>auto simp: batch_headers_def\<close>)

section \<open>The calls\<close>

text \<open>A call for \<open>k\<close> packets, the first of which is number \<open>i\<close>.\<close>

definition batch_sent :: "int \<Rightarrow> flood_params \<Rightarrow> u32 \<Rightarrow> nat \<Rightarrow> nat \<Rightarrow> sysreq \<Rightarrow> bool" where
  "batch_sent fd p s k i rq \<longleftrightarrow> (\<exists>ds. rq = Rq_sendmmsg fd (map (Pair (fl_dest_addr p)) ds) 0 \<and> length ds = min 1024 k
     \<and> (\<forall>j < length ds. payload (fl_pktgen_hdr p \<noteq> 0) p s (i + j) (ds ! j)))"

text \<open>The heap during the run: the buffer, the array of headers and the vector are the new blocks.\<close>

definition batch_inv :: "flood_params \<Rightarrow> nat \<Rightarrow> (nat \<rightharpoonup> bytes) \<Rightarrow> u32 \<Rightarrow> nat \<Rightarrow> nat \<Rightarrow> ('k, 'm) flood_world_scheme \<Rightarrow> bool" where
  "batch_inv p b h s nb i v \<longleftrightarrow> next_blk v = nb \<and> (\<exists>bs. heap v = h(b \<mapsto> bs)
     \<and> length bs = nat (fl_batch p) * nat (fl_msg_sz p)
     \<and> (if fl_pktgen_hdr p \<noteq> 0 then sequence v = s + of_nat i else bs = replicate (length bs) 0))"

lemma batch_inv_say [simp]: "batch_inv p b h s nb i (say m v) = batch_inv p b h s nb i v"
  by (simp add: batch_inv_def)

lemma wp_send_batch:
  fixes v :: "('k, 'm) flood_world_scheme"
  assumes sz: "0 \<le> fl_msg_sz p" "fl_msg_sz p + 16 \<le> INT_MAX" and n: "0 < fl_batch p" "fl_batch p \<le> INT_MAX"
    and k: "0 < k" "k \<le> fl_batch p" and v: "batch_inv p b h s nb i v"
    and Q: "\<And>v' res es rq. batch_inv p b h s nb (i + nat (fl_batch p)) v' \<Longrightarrow> trace v' = trace v @ es \<Longrightarrow>
        txs es = [(rq, r_ret res)] \<Longrightarrow> batch_sent fd p s (nat k) i rq \<Longrightarrow> (\<exists>k. res = fst (K rq k)) \<Longrightarrow> Q res v'"
  shows "wp (bnd (fill_batch K p (Ptr b 0)) (\<lambda>_. sendmmsg K fd (batch_headers p b (nat (fl_batch p))) k)) Q E v"
proof -
  obtain bs where bs: "heap v = h(b \<mapsto> bs)" "length bs = nat (fl_batch p) * nat (fl_msg_sz p)" "next_blk v = nb"
    "if fl_pktgen_hdr p \<noteq> 0 then sequence v = s + of_nat i else bs = replicate (length bs) 0"
    using v by (auto simp: batch_inv_def)
  then have vb: "heap v b = Some bs" by simp
  have vlen: "mmsg_vlen k = min 1024 (nat k)"
    using k n by (simp add: mmsg_vlen_def unat_eq_nat_uint uint_word_of_int INT_MAX_def)
  show ?thesis
    unfolding wp_bnd
  proof (rule wp_conseq [OF wp_fill_batch [OF sz n(1) vb bs(2,4)]])
    fix u and v' :: "('k, 'm) flood_world_scheme"
    assume "\<exists>bs' es. heap v' = (heap v)(b \<mapsto> bs') \<and> length bs' = length bs
      \<and> next_blk v' = next_blk v \<and> trace v' = trace v @ es \<and> txs es = [] \<and> batch_filled p s i bs'
      \<and> (if fl_pktgen_hdr p \<noteq> 0 then sequence v' = s + of_nat (i + nat (fl_batch p)) else bs' = replicate (length bs) 0)"
    then obtain bs' es where v': "heap v' = h(b \<mapsto> bs')" "length bs' = nat (fl_batch p) * nat (fl_msg_sz p)"
      "next_blk v' = nb" "trace v' = trace v @ es" "txs es = []" "batch_filled p s i bs'"
      "if fl_pktgen_hdr p \<noteq> 0 then sequence v' = s + of_nat (i + nat (fl_batch p)) else bs' = replicate (length bs') 0"
      using bs by auto
    let ?m = "min 1024 (nat k)"
    let ?rq = "Rq_sendmmsg fd (batch_msgs p ?m bs') 0"
    have m: "?m \<le> nat (fl_batch p)" using k by simp
    have take: "take ?m (batch_headers p b (nat (fl_batch p))) = map (\<lambda>j. (fl_dest_addr p, packet_iov p b j)) [0..<?m]"
      using m by (simp add: batch_headers_def take_map take_upt)
    have rq: "batch_sent fd p s (nat k) i ?rq"
      unfolding batch_sent_def
      by (rule exI [of _ "map (\<lambda>j. chunk (nat (fl_msg_sz p)) j bs') [0..<?m]"])
         (use v'(6) m in \<open>auto simp: batch_msgs_def batch_filled_def\<close>)
    have "wp (gather_all (take ?m (batch_headers p b (nat (fl_batch p))))) (\<lambda>msgs. wp (syscall K (Rq_sendmmsg fd msgs 0)) Q E) E v'"
      unfolding take
    proof (rule wp_gather_packets [OF sz _ v'(2)])
      show "wp (syscall K (Rq_sendmmsg fd (map (\<lambda>j. (fl_dest_addr p, chunk (nat (fl_msg_sz p)) j bs')) [0..<?m]) 0)) Q E v'"
        unfolding wp_syscall batch_msgs_def [symmetric]
        by (rule Q [of _ "es @ [(?rq, reply K ?rq v')]" ?rq])
           (use v' rq in \<open>auto simp: batch_inv_def reply_def intro!: exI [of _ bs']\<close>)
    qed (use v'(1) m in auto)
    then show "wp (sendmmsg K fd (batch_headers p b (nat (fl_batch p))) k) Q E v'"
      using m by (simp add: sendmmsg_def vlen wp_bnd batch_headers_def)
  qed auto
qed

text \<open>The kernel's promise on \<open>sendmmsg\<close>: no more messages are accepted than were passed.\<close>

definition accepts_at_most :: "'k kernel \<Rightarrow> bool" where
  "accepts_at_most K \<longleftrightarrow> (\<forall>fd msgs fl k. r_ret (fst (K (Rq_sendmmsg fd msgs fl) k)) \<le> int (length msgs))"

lemma batch_bytes:
  assumes K: "accepts_at_most K" and rq: "batch_sent fd p s (nat (fl_batch p)) i rq" and res: "res = fst (K rq k)"
    and sz: "0 \<le> fl_msg_sz p" "0 \<le> fl_batch p" "fl_batch p * fl_msg_sz p \<le> INT_MAX" and ok: "0 \<le> r_ret res"
  shows "is_i32 (r_ret res * fl_msg_sz p)"
    and "to_u64 (r_ret res * fl_msg_sz p) = to_u64 (r_ret res) * to_u64 (fl_msg_sz p)"
proof -
  from rq obtain ds where "rq = Rq_sendmmsg fd (map (Pair (fl_dest_addr p)) ds) 0" "length ds = min 1024 (nat (fl_batch p))"
    by (auto simp: batch_sent_def)
  then have "r_ret res \<le> int (min 1024 (nat (fl_batch p)))"
    using K res unfolding accepts_at_most_def by (metis length_map)
  then have "r_ret res \<le> fl_batch p" using sz(2) by linarith
  then have "r_ret res * fl_msg_sz p \<le> fl_batch p * fl_msg_sz p" by (rule mult_right_mono) (rule sz)
  moreover have "0 \<le> r_ret res * fl_msg_sz p" using ok sz(1) by simp
  ultimately show "is_i32 (r_ret res * fl_msg_sz p)" using sz(3) by (simp add: is_i32_def INT_MIN_def)
  show "to_u64 (r_ret res * fl_msg_sz p) = to_u64 (r_ret res) * to_u64 (fl_msg_sz p)" by (simp add: to_u64_def)
qed

abbreviation full_batch :: "int \<Rightarrow> flood_params \<Rightarrow> u32 \<Rightarrow> nat \<Rightarrow> sysreq \<Rightarrow> bool" where
  "full_batch fd p s c \<equiv> batch_sent fd p s (nat (fl_batch p)) (c * nat (fl_batch p))"

lemma wp_batch_loop:
  fixes v :: "('k, 'm) flood_world_scheme"
  assumes sz: "0 \<le> fl_msg_sz p" "fl_msg_sz p + 16 \<le> INT_MAX" and n: "0 < fl_batch p" "fl_batch p \<le> INT_MAX"
    and tot: "fl_batch p * fl_msg_sz p \<le> INT_MAX" and K: "accepts_at_most K" and v: "batch_inv p b h s nb 0 v"
  shows "wp (for_break 0 m (\<lambda>cnt total.
            bnd (fill_batch K p (Ptr b 0)) (\<lambda>_.
            bnd (sendmmsg K fd (batch_headers p b (nat (fl_batch p))) (fl_batch p)) (\<lambda>res.
            if r_ret res < 0 then send_failed ''- sendMmsg'' cnt (r_ret res)
            else
              bnd (chk_i32 (r_ret res * fl_msg_sz p)) (\<lambda>b.
              ret (Inr (total + to_u64 b)))))) 0)
    (\<lambda>x v'. \<exists>es. trace v' = trace v @ es \<and> (case x of
        Inl res \<Rightarrow> res < 0 \<and> tx_failed (txs es) \<and> (\<exists>i. batch_inv p b h s nb i v')
      | Inr t \<Rightarrow> batch_inv p b h s nb (nat m * nat (fl_batch p)) v' \<and> tx_run (full_batch fd p s) (nat m) (txs es)
          \<and> t = tx_sum (txs es) * to_u64 (fl_msg_sz p))) E v"
proof (rule wp_for_break [where I = "\<lambda>c t v'. batch_inv p b h s nb (nat c * nat (fl_batch p)) v' \<and>
      (\<exists>es. trace v' = trace v @ es \<and> tx_run (full_batch fd p s) (nat c) (txs es)
         \<and> t = tx_sum (txs es) * to_u64 (fl_msg_sz p))"], goal_cases)
  case 1
  from v show ?case by (simp add: tx_run_Nil)
next
  case (2 c t u)
  then obtain es where u: "batch_inv p b h s nb (nat c * nat (fl_batch p)) u" and es: "trace u = trace v @ es"
    "tx_run (full_batch fd p s) (nat c) (txs es)" "t = tx_sum (txs es) * to_u64 (fl_msg_sz p)" by blast
  have nc: "nat c * nat (fl_batch p) + nat (fl_batch p) = nat (c + 1) * nat (fl_batch p)" "nat (c + 1) = Suc (nat c)"
    using 2(1) by (simp_all add: nat_add_distrib)
  show ?case
    unfolding bnd_assoc [symmetric] wp_bnd [of "bnd (fill_batch _ _ _) _"]
  proof (rule wp_send_batch [OF sz n n(1) order_refl u], goal_cases)
    case (1 u' res es' rq)
    from 1(5) obtain k where res: "res = fst (K rq k)" by blast
    note b = batch_bytes [OF K 1(4) res sz(1) less_imp_le [OF n(1)] tot]
    show ?case
    proof (cases "r_ret res < 0")
      case True
      with 1 es show ?thesis
        by (simp add: send_failed_def wp_simps) (auto intro!: exI [of _ "es @ es'"])
    next
      case False
      then have "tx_run (full_batch fd p s) (Suc (nat c)) (txs (es @ es'))"
        using tx_run_snoc [OF es(2) 1(4), of "r_ret res"] 1(3) by simp
      moreover have "tx_sum (txs (es @ es')) = tx_sum (txs es) + to_u64 (r_ret res)" using 1(3) by simp
      ultimately show ?thesis
        using False 1(1,2) es b nc
        by (simp add: wp_simps distrib_right del: txs_simps)
    qed
  qed
next
  case (3 t u)
  moreover have "nat (max 0 m) = nat m" by simp
  ultimately show ?case by auto
qed


section \<open>The whole function\<close>

lemma wp_release:
  assumes "batch_inv p b ((heap w)(b1 \<mapsto> x1, b2 \<mapsto> x2)) s nb i v" "distinct [b, b1, b2]"
    "heap w b = None" "heap w b1 = None" "heap w b2 = None" "\<forall>j \<ge> nb. heap w j = None"
    and Q: "\<And>v'. heap v' = heap w \<Longrightarrow> wf_heap v' \<Longrightarrow> trace v' = trace v \<Longrightarrow>
      (fl_pktgen_hdr p \<noteq> 0 \<longrightarrow> sequence v' = s + of_nat i) \<Longrightarrow> Q result v'"
  shows "wp (bnd (free (Ptr b2 0)) (\<lambda>_. bnd (free (Ptr b1 0)) (\<lambda>_. bnd (free (Ptr b 0)) (\<lambda>_. ret result)))) Q E v"
proof -
  obtain bs where bs: "heap v = (heap w)(b1 \<mapsto> x1, b2 \<mapsto> x2, b \<mapsto> bs)" "next_blk v = nb"
    "fl_pktgen_hdr p \<noteq> 0 \<longrightarrow> sequence v = s + of_nat i" using assms(1) by (auto simp: batch_inv_def)
  have "(heap v)(b2 := None, b1 := None, b := None) = heap w" using assms(2-5) by (auto simp: bs(1) fun_eq_iff)
  then show ?thesis
    using assms(2-6) bs
    by (simp add: wp_simps del: fun_upd_apply) (auto simp: wf_heap_def intro!: Q)
qed

text \<open>
  What the function leaves behind: \<open>count div batch\<close> calls for a whole batch, then one for the rest
  when there is a rest; the byte count is that of the whole batches alone, and the sequence counter
  has gone up by a whole batch for every call.
\<close>

definition mmsg_post :: "int \<Rightarrow> flood_params \<Rightarrow> time_bench_record \<Rightarrow> ('k, 'm) flood_world_scheme
    \<Rightarrow> int \<Rightarrow> time_bench_record \<Rightarrow> ('k, 'm) flood_world_scheme \<Rightarrow> bool" where
  "mmsg_post fd p r w res r' w' \<longleftrightarrow> heap w' = heap w \<and> wf_heap w' \<and> (\<exists>es. trace w' = trace w @ es \<and>
     (if res < 0 then tx_failed (txs es)
      else res = fl_count p \<and> (\<exists>full rest. txs es = full @ rest
        \<and> tx_run (full_batch fd p (sequence w)) (nat (fl_count p div fl_batch p)) full
        \<and> (if fl_count p mod fl_batch p = 0 then rest = []
           else tx_run (\<lambda>_. batch_sent fd p (sequence w) (nat (fl_count p mod fl_batch p))
                  (nat (fl_count p div fl_batch p) * nat (fl_batch p))) 1 rest)
        \<and> r' = r\<lparr>bytes_cnt := tx_sum full * to_u64 (fl_msg_sz p)\<rparr>
        \<and> (fl_pktgen_hdr p \<noteq> 0 \<longrightarrow> sequence w' = sequence w + of_nat (length (txs es) * nat (fl_batch p))))))"

lemma mmsg_postI:
  assumes "heap w' = heap w" "wf_heap w'" "trace w' = trace w @ es" "0 \<le> fl_count p" "txs es = full @ rest"
    and "tx_run (full_batch fd p (sequence w)) (nat (fl_count p div fl_batch p)) full"
    and "if fl_count p mod fl_batch p = 0 then rest = []
         else tx_run (\<lambda>_. batch_sent fd p (sequence w) (nat (fl_count p mod fl_batch p))
                (nat (fl_count p div fl_batch p) * nat (fl_batch p))) 1 rest"
    and "fl_pktgen_hdr p \<noteq> 0 \<longrightarrow> sequence w' = sequence w + of_nat (length (txs es) * nat (fl_batch p))"
  shows "mmsg_post fd p r w (fl_count p) (r\<lparr>bytes_cnt := tx_sum full * to_u64 (fl_msg_sz p)\<rparr>) w'"
  unfolding mmsg_post_def if_not_P [OF leD [OF assms(4)], THEN eq_reflection]
  by (intro conjI exI [of _ es] exI [of _ full] exI [of _ rest]) (use assms in auto)

text \<open>The last, incomplete batch.\<close>

abbreviation (input) mmsg_last :: "'k kernel \<Rightarrow> int \<Rightarrow> flood_params \<Rightarrow> time_bench_record \<Rightarrow> int \<Rightarrow> ptr
    \<Rightarrow> (sockaddr_storage \<times> iovec list) list \<Rightarrow> ('k, 'm, int \<times> time_bench_record) fprog" where
  "mmsg_last K sockfd p r' batches msg_buf mmsg_hdr \<equiv>
     (if fl_count p - batches * fl_batch p \<noteq> 0 then
        bnd (fill_batch K p msg_buf) (\<lambda>_.
        bnd (sendmmsg K sockfd mmsg_hdr (fl_count p - batches * fl_batch p)) (\<lambda>res.
        if r_ret res < 0 then
          bnd (send_failed ''- sendMmsg'' (max 0 batches) (r_ret res) :: ('k, _, int + unit) cprog)
            (\<lambda>_. ret (r_ret res, r'))
        else ret (fl_count p, r')))
      else ret (fl_count p, r'))"

text \<open>The part of the function that follows the setting up of the headers.\<close>

abbreviation (input) mmsg_flood :: "'k kernel \<Rightarrow> int \<Rightarrow> flood_params \<Rightarrow> time_bench_record \<Rightarrow> int \<Rightarrow> ptr \<Rightarrow> ptr \<Rightarrow> ptr
    \<Rightarrow> (sockaddr_storage \<times> iovec list) list \<Rightarrow> ('k, 'm, int \<times> time_bench_record) fprog" where
  "mmsg_flood K sockfd p r batches msg_buf mmsg_arr iov_arr mmsg_hdr \<equiv>
     bnd (for_break 0 batches (\<lambda>cnt total.
            bnd (fill_batch K p msg_buf) (\<lambda>_.
            bnd (sendmmsg K sockfd mmsg_hdr (fl_batch p)) (\<lambda>res.
            if r_ret res < 0 then send_failed ''- sendMmsg'' cnt (r_ret res)
            else
              bnd (chk_i32 (r_ret res * fl_msg_sz p)) (\<lambda>b.
              ret (Inr (total + to_u64 b)))))) 0) (\<lambda>x.
     bnd (case x of
            Inl res \<Rightarrow> ret (res, r)
          | Inr tot \<Rightarrow> mmsg_last K sockfd p (r\<lparr>bytes_cnt := tot\<rparr>) batches msg_buf mmsg_hdr) (\<lambda>result.
     bnd (free iov_arr) (\<lambda>_.
     bnd (free mmsg_arr) (\<lambda>_.
     bnd (free msg_buf) (\<lambda>_.
     ret result)))))"

lemma wp_mmsg_end:
  fixes v :: "('k, 'm) flood_world_scheme"
  assumes sz: "0 \<le> fl_msg_sz p" "fl_msg_sz p + 16 \<le> INT_MAX" and n: "0 < fl_batch p" "fl_batch p \<le> INT_MAX"
    and cnt: "0 \<le> fl_count p" and batches: "m = fl_count p div fl_batch p"
    and fresh: "distinct [b, b1, b2]" "heap w b = None" "heap w b1 = None" "heap w b2 = None" "\<forall>j \<ge> nb. heap w j = None"
    and v: "batch_inv p b ((heap w)(b1 \<mapsto> x1, b2 \<mapsto> x2)) (sequence w) nb (nat m * nat (fl_batch p)) v"
    and tr: "trace v = trace w @ es" "tx_run (full_batch fd p (sequence w)) (nat m) (txs es)"
  shows "wp (bnd (mmsg_last K fd p (r\<lparr>bytes_cnt := tx_sum (txs es) * to_u64 (fl_msg_sz p)\<rparr>) m (Ptr b 0)
        (batch_headers p b (nat (fl_batch p)))) (\<lambda>result.
     bnd (free (Ptr b2 0)) (\<lambda>_. bnd (free (Ptr b1 0)) (\<lambda>_. bnd (free (Ptr b 0)) (\<lambda>_. ret result)))))
    (\<lambda>(res, r') w'. mmsg_post fd p r w res r' w') E v"
proof -
  have lst: "fl_count p - m * fl_batch p = fl_count p mod fl_batch p" by (simp add: batches minus_div_mult_eq_mod)
  have len: "length (txs es) = nat m" using tr(2) by (simp add: tx_run_def)
  let ?r = "r\<lparr>bytes_cnt := tx_sum (txs es) * to_u64 (fl_msg_sz p)\<rparr>"
  show ?thesis
  proof (cases "fl_count p mod fl_batch p = 0")
    case True
    then show ?thesis
      unfolding lst Let_def
      by (simp only: not_True_eq_False simp_thms if_False bnd_ret)
         (rule wp_release [OF v fresh], use tr cnt len batches True in \<open>auto intro!: mmsg_postI [of _ _ es _ _ "[]"]\<close>)
  next
    case False
    let ?k = "fl_count p mod fl_batch p"
    have k: "0 < ?k" "?k \<le> fl_batch p" using False n(1) pos_mod_bound [of "fl_batch p" "fl_count p"] pos_mod_sign [of "fl_batch p" "fl_count p"] by linarith+
    have "wp (bnd (fill_batch K p (Ptr b 0)) (\<lambda>_. sendmmsg K fd (batch_headers p b (nat (fl_batch p))) ?k))
      (\<lambda>res v'. \<exists>es' rq. trace v' = trace v @ es' \<and> txs es' = [(rq, r_ret res)]
         \<and> batch_sent fd p (sequence w) (nat ?k) (nat m * nat (fl_batch p)) rq
         \<and> batch_inv p b ((heap w)(b1 \<mapsto> x1, b2 \<mapsto> x2)) (sequence w) nb (nat m * nat (fl_batch p) + nat (fl_batch p)) v') E v"
      by (rule wp_send_batch [OF sz n k v]) blast
    then have "wp (bnd (fill_batch K p (Ptr b 0)) (\<lambda>_. sendmmsg K fd (batch_headers p b (nat (fl_batch p))) ?k))
      (\<lambda>res. wp (bnd (if r_ret res < 0 then
             bnd (send_failed ''- sendMmsg'' (max 0 m) (r_ret res) :: ('k, _, int + unit) cprog) (\<lambda>_. ret (r_ret res, ?r))
           else ret (fl_count p, ?r))
        (\<lambda>result. bnd (free (Ptr b2 0)) (\<lambda>_. bnd (free (Ptr b1 0)) (\<lambda>_. bnd (free (Ptr b 0)) (\<lambda>_. ret result)))))
        (\<lambda>(res, r') w'. mmsg_post fd p r w res r' w') E) E v"
    proof (rule wp_conseq, goal_cases)
      case (1 res v')
      then obtain es' rq where es': "trace v' = trace v @ es'" "txs es' = [(rq, r_ret res)]"
        and rq: "batch_sent fd p (sequence w) (nat ?k) (nat m * nat (fl_batch p)) rq"
        and v': "batch_inv p b ((heap w)(b1 \<mapsto> x1, b2 \<mapsto> x2)) (sequence w) nb (nat m * nat (fl_batch p) + nat (fl_batch p)) v'"
        by blast
      show ?case
      proof (cases "r_ret res < 0")
        case True
        have failed: "mmsg_post fd p r w (r_ret res) ?r u"
          if "heap u = heap w" "wf_heap u" "trace u = trace v'" for u :: "('k, 'm) flood_world_scheme"
          using True that tr(1) es' by (auto simp: mmsg_post_def intro!: exI [of _ "es @ es'"])
        show ?thesis
          using True
          by (simp only: if_True send_failed_def bnd_assoc bnd_ret)
             (simp only: wp_bnd [of "eprintf _ _"] wp_bnd [of "perror _"] wp_eprintf wp_perror,
              rule wp_release [OF _ fresh], use v' failed in auto)
      next
        case False
        let ?rest = "[(rq, r_ret res)]"
        have run: "tx_run (\<lambda>_. batch_sent fd p (sequence w) (nat ?k) (nat m * nat (fl_batch p))) 1 ?rest"
          using False rq by (simp add: tx_run_def)
        have done': "mmsg_post fd p r w (fl_count p) ?r u"
          if "heap u = heap w" "wf_heap u" "trace u = trace v'"
            "fl_pktgen_hdr p \<noteq> 0 \<longrightarrow> sequence u = sequence w + of_nat (nat m * nat (fl_batch p) + nat (fl_batch p))"
          for u :: "('k, 'm) flood_world_scheme"
          by (rule mmsg_postI [of _ _ "es @ es'" _ "txs es" ?rest])
             (use that \<open>?k \<noteq> 0\<close> cnt tr es' run len batches in \<open>simp_all add: distrib_right\<close>)
        show ?thesis
          using False
          by (simp only: if_False bnd_ret) (rule wp_release [OF v' fresh], use done' in auto)
      qed
    qed simp
    with False show ?thesis
      unfolding lst Let_def by (simp only: simp_thms if_True bnd_assoc wp_bnd)
  qed
qed

lemma wp_mmsg_flood:
  fixes v :: "('k, 'm) flood_world_scheme"
  assumes sz: "0 \<le> fl_msg_sz p" "fl_msg_sz p + 16 \<le> INT_MAX" and n: "0 < fl_batch p" "fl_batch p \<le> INT_MAX"
    and tot: "fl_batch p * fl_msg_sz p \<le> INT_MAX" and cnt: "0 \<le> fl_count p" and K: "accepts_at_most K"
    and batches: "m = fl_count p div fl_batch p"
    and fresh: "distinct [b, b1, b2]" "heap w b = None" "heap w b1 = None" "heap w b2 = None" "\<forall>j \<ge> nb. heap w j = None"
    and v: "batch_inv p b ((heap w)(b1 \<mapsto> x1, b2 \<mapsto> x2)) (sequence w) nb 0 v" and tr: "trace v = trace w @ es0" "txs es0 = []"
  shows "wp (mmsg_flood K fd p r m (Ptr b 0) (Ptr b1 0) (Ptr b2 0) (batch_headers p b (nat (fl_batch p))))
    (\<lambda>(res, r') w'. mmsg_post fd p r w res r' w') E v"
  unfolding wp_bnd [of "for_break _ _ _ _"]
proof (rule wp_conseq [OF wp_batch_loop [OF sz n tot K v]], goal_cases)
  case (1 x v')
  then obtain es where es: "trace v' = trace v @ es" and x: "case x of
        Inl res \<Rightarrow> res < 0 \<and> tx_failed (txs es) \<and> (\<exists>i. batch_inv p b ((heap w)(b1 \<mapsto> x1, b2 \<mapsto> x2)) (sequence w) nb i v')
      | Inr t \<Rightarrow> batch_inv p b ((heap w)(b1 \<mapsto> x1, b2 \<mapsto> x2)) (sequence w) nb (nat m * nat (fl_batch p)) v'
          \<and> tx_run (full_batch fd p (sequence w)) (nat m) (txs es) \<and> t = tx_sum (txs es) * to_u64 (fl_msg_sz p)" by blast
  have tr': "trace v' = trace w @ (es0 @ es)" and tx: "txs (es0 @ es) = txs es" using es tr by simp_all
  show ?case
  proof (cases x)
    case (Inl res)
    with x obtain i where i: "batch_inv p b ((heap w)(b1 \<mapsto> x1, b2 \<mapsto> x2)) (sequence w) nb i v'" and f: "res < 0" "tx_failed (txs es)"
      by auto
    show ?thesis
      unfolding Inl sum.case bnd_ret
      by (rule wp_release [OF i fresh]) (use f tr' tx in \<open>auto simp: mmsg_post_def intro!: exI [of _ "es0 @ es"]\<close>)
  next
    case (Inr t)
    with x have i: "batch_inv p b ((heap w)(b1 \<mapsto> x1, b2 \<mapsto> x2)) (sequence w) nb (nat m * nat (fl_batch p)) v'"
      and t: "t = tx_sum (txs (es0 @ es)) * to_u64 (fl_msg_sz p)"
      and run: "tx_run (full_batch fd p (sequence w)) (nat m) (txs (es0 @ es))" using tx by simp_all
    show ?thesis
      unfolding Inr sum.case t by (rule wp_mmsg_end [OF sz n cnt batches fresh i tr' run])
  qed
qed

lemma batch_memsz:
  assumes "0 \<le> n" "64 * n < 2 ^ 32"
  shows "unat (mmsghdr_memsz (word_of_int n)) = 64 * nat n" "unat (iovec_memsz (1 * word_of_int n)) = 16 * nat n"
proof -
  have "uint (word_of_int n :: u32) = n" using assms by (simp add: uint_word_of_int)
  then show "unat (mmsghdr_memsz (word_of_int n)) = 64 * nat n" "unat (iovec_memsz (1 * word_of_int n)) = 16 * nat n"
    using assms
    by (simp_all add: mmsghdr_memsz_def iovec_memsz_def unat_eq_nat_uint unsigned_ucast_eq uint_word_ariths
        take_bit_eq_mod)
qed

lemma wp_alloc_batch:
  assumes fail: "\<And>w'. E EXIT_FAIL_MEM w'"
    and succ: "\<And>b w' es. b = next_blk w \<Longrightarrow>
      heap w' = (heap w)(b \<mapsto> replicate (unat (to_u64 n)) 0, Suc b \<mapsto> replicate (unat (mmsghdr_memsz j)) 0,
        Suc (Suc b) \<mapsto> replicate (unat (iovec_memsz k)) 0) \<Longrightarrow>
      next_blk w' = Suc (Suc (Suc b)) \<Longrightarrow> world.more w' = world.more w \<Longrightarrow>
      trace w' = trace w @ es \<Longrightarrow> txs es = [] \<Longrightarrow>
      wp (f (Ptr b 0) (Ptr (Suc b) 0) (Ptr (Suc (Suc b)) 0)) Q E w'"
  shows "wp (bnd (malloc_payload_buffer K n) (\<lambda>x. bnd (malloc_mmsghdr K j) (\<lambda>y.
      bnd (malloc_iovec K k) (\<lambda>z. f x y z)))) Q E w"
  unfolding wp_bnd [of "malloc_payload_buffer _ _"] wp_bnd [of "malloc_mmsghdr _ _"] wp_bnd [of "malloc_iovec _ _"]
proof (rule wp_malloc_payload_buffer, goal_cases)
  case (2 w1 r1)
  note w1 = 2
  show ?case
  proof (rule wp_malloc_mmsghdr, goal_cases)
    case (2 w2 r2)
    note w2 = 2
    show ?case
    proof (rule wp_malloc_iovec, goal_cases)
      case (2 w3 r3)
      show ?case
        unfolding w1(2) w2(2) by (rule succ [where es = "[(Rq_malloc (to_u64 n), r1), (Rq_malloc (ucast (mmsghdr_memsz j)), r2), (Rq_malloc (ucast (iovec_memsz k)), r3)]"]) (use w1 w2 2 in simp_all)
    qed (rule fail)
  qed (rule fail)
qed (rule fail)

lemma is_i32_nonneg: "0 \<le> x \<Longrightarrow> x \<le> INT_MAX \<Longrightarrow> is_i32 x"
  by (simp add: is_i32_def INT_MIN_def)

lemma wp_sendMmsg:
  assumes "flood_pre p w" "0 < fl_batch p" "64 * fl_batch p < 2 ^ 32" "fl_batch p * fl_msg_sz p \<le> INT_MAX"
    and "0 \<le> fl_count p" "fl_count p \<le> INT_MAX" and "accepts_at_most K"
  shows "wp (flood_with_sendMmsg K fd p r) (\<lambda>(res, r') w'. mmsg_post fd p r w res r' w')
    (\<lambda>c w'. c = EXIT_FAIL_MEM) w"
proof -
  from assms(1) have sz: "0 \<le> fl_msg_sz p" "fl_msg_sz p + 16 \<le> INT_MAX" and wf: "wf_heap w"
    and a: "ss_family (fl_dest_addr p) \<in> {AF_INET, AF_INET6}" by (simp_all add: flood_pre_def)
  have n: "0 < fl_batch p" "fl_batch p \<le> INT_MAX" using assms(2,3) by (simp_all add: INT_MAX_def)
  let ?m = "fl_count p div fl_batch p"
  have tot: "is_i32 (fl_batch p * fl_msg_sz p)" 
    by (rule is_i32_nonneg [OF mult_nonneg_nonneg [OF less_imp_le [OF n(1)] sz(1)] assms(4)])
  have m0: "0 \<le> ?m" using assms(2,5) by (simp add: pos_imp_zdiv_nonneg_iff)
  have m1: "?m \<le> fl_count p" using assms(2,5) zdiv_mono2 [of "fl_count p" 1 "fl_batch p"] by simp
  have m: "cdiv (fl_count p) (fl_batch p) = ?m" "is_i32 ?m"
    using assms(2,5) is_i32_nonneg [OF m0 order_trans [OF m1 assms(6)]] by (simp_all add: cdiv_nonneg)
  have un: "unat (to_u64 (fl_batch p * fl_msg_sz p)) = nat (fl_batch p) * nat (fl_msg_sz p)"
    using assms(2,4) sz by (simp add: unat_eq_nat_uint uint_to_u64 INT_MAX_def nat_mult_distrib)
  have incr: "to_i32 (uint (iov_part (fl_msg_sz p) 1)) = fl_msg_sz p"
    using sz uint_msg_sz_u32 [OF sz] is_i32_nonneg [OF sz(1)] by (simp add: iov_part_def)
  note mem = batch_memsz [OF less_imp_le [OF n(1)] assms(3)]
  let ?Q = "\<lambda>(res, r') w'. mmsg_post fd p r w res r' w'" and ?E = "\<lambda>c w'. c = EXIT_FAIL_MEM"
  let ?rest = "\<lambda>msg_buf mmsg_arr msg_iov.
     bnd (for_loop 0 (fl_batch p) (\<lambda>pkt mmsg_hdr.
            bnd (setup_iov msg_iov (pkt * uint (1 :: u32)) (ptr_add msg_buf (pkt * fl_msg_sz p)) (fl_msg_sz p) (to_u64 (fl_msg_sz p)) 1) (\<lambda>iovs.
            bnd (touch (ptr_add mmsg_arr (64 * pkt)) 64) (\<lambda>_.
            ret (mmsg_hdr @ [(fl_dest_addr p, iovs)])))) []) (\<lambda>mmsg_hdr. mmsg_flood K fd p r ?m msg_buf mmsg_arr msg_iov mmsg_hdr)"
  have "wp (bnd (malloc_payload_buffer K (fl_batch p * fl_msg_sz p)) (\<lambda>x. bnd (malloc_mmsghdr K (word_of_int (fl_batch p))) (\<lambda>y.
      bnd (malloc_iovec K (1 * word_of_int (fl_batch p))) (\<lambda>z. ?rest x y z)))) ?Q ?E v"
    if v: "heap v = heap w" "next_blk v = next_blk w" "trace v = trace w" "sequence v = sequence w" for v
  proof (rule wp_alloc_batch, goal_cases)
    case (2 b u es)
    let ?x0 = "replicate (nat (fl_batch p) * nat (fl_msg_sz p)) (0 :: u8)"
      and ?x1 = "replicate (64 * nat (fl_batch p)) (0 :: u8)" and ?x2 = "replicate (16 * nat (fl_batch p)) (0 :: u8)"
    have h: "heap u = (heap w)(b \<mapsto> ?x0, Suc b \<mapsto> ?x1, Suc (Suc b) \<mapsto> ?x2)" using 2(2) v(1) un mem by simp
    have s: "sequence u = sequence w" using world_more_sequence [OF 2(4)] v(4) by simp
    have fresh: "heap w j = None" if "b \<le> j" for j using wf that 2(1) v(2) by (simp add: wf_heap_def)
    show ?case
      unfolding wp_bnd [of "for_loop _ _ _ _"]
    proof (rule wp_setup_batch [OF sz(1) n(1), of u "Suc (Suc b)" ?x2 "Suc b" ?x1])
      show "wp (mmsg_flood K fd p r ?m (Ptr b 0) (Ptr (Suc b) 0) (Ptr (Suc (Suc b)) 0) (batch_headers p b (nat (fl_batch p)))) ?Q ?E u"
      proof (rule wp_mmsg_flood [OF sz n assms(4,5,7) refl, of b _ _ w "next_blk u" ?x1 ?x2 _ es])
        show "batch_inv p b ((heap w)(Suc b \<mapsto> ?x1, Suc (Suc b) \<mapsto> ?x2)) (sequence w) (next_blk u) 0 u"
          unfolding batch_inv_def h s by (intro conjI refl exI [of _ ?x0]) (auto simp: fun_upd_twist)
      qed (use fresh 2 v in simp_all)
    qed (use h n in simp_all)
  qed simp
  then show ?thesis
    unfolding flood_with_sendMmsg_def Let_def sockaddr_len_ok [OF a] bnd_ret m(1) incr
    using tot m(2) n
    by (simp add: wp_bnd [of "chk_i32 _"] wp_bnd [of "gets _"] wp_bnd [of "when_do _ _"] wp_chk wp_gets wp_when wp_eprintf)
qed

text \<open>
  C6.  \<open>flood_with_sendMmsg\<close> sends the packets it should, in batches.  For a positive \<open>--batch\<close> whose buffer
  sizes fit their types, on a kernel that accepts no more messages than it is given, the function ends
  without undefined behaviour and gives all its memory back.  When it succeeds it has made \<open>count div
  batch\<close> calls for a batch of packets and, when \<open>count mod batch\<close> is not zero, one more for
  that rest; a call passes at most 1024 packets, and the \<open>j\<close>-th packet of the \<open>c\<close>-th call is the payload with
  sequence number \<open>sequence + c * batch + j\<close>.  It reports \<open>--count\<close> packets, the bytes of the whole
  batches alone, and the counter is a whole batch further for each call, the last one included.
\<close>

theorem sendMmsg_sends:
  assumes "flood_pre p w" "0 < fl_batch p" "64 * fl_batch p < 2 ^ 32" "fl_batch p * fl_msg_sz p \<le> INT_MAX"
    and "0 \<le> fl_count p" "fl_count p \<le> INT_MAX" and "accepts_at_most K"
  shows "wp (flood_with_sendMmsg K fd p r) (\<lambda>(res, r') w'. mmsg_post fd p r w res r' w')
    (\<lambda>c w'. c = EXIT_FAIL_MEM) w"
  using assms by (rule wp_sendMmsg)

text \<open>Three packets in batches of two: two calls, and the counter ends at four.\<close>

definition accepting :: "unit kernel" where
  "accepting rq k = (sysres_of (case rq of Rq_sendmmsg _ msgs _ \<Rightarrow> int (length msgs) | _ \<Rightarrow> 1) 0, k)"

theorem sendMmsg_sends_witness:
  "wp (flood_with_sendMmsg accepting 3 (flood_test_params\<lparr>fl_count := 3, fl_batch := 2\<rparr>) time_bench_zero)
    (\<lambda>(res, r') w'. res < 0 \<and> tx_failed (txs (trace w')) \<or> res = 3 \<and> length (txs (trace w')) = 2 \<and> sequence w' = 4)
    (\<lambda>c w'. c = EXIT_FAIL_MEM) (flood_boot ())"
proof -
  let ?p = "flood_test_params\<lparr>fl_count := 3, fl_batch := 2\<rparr>"
  have "accepts_at_most accepting" by (simp add: accepts_at_most_def accepting_def sysres_of_def)
  moreover have "flood_pre ?p (flood_boot ())"
    by (rule flood_boot_pre) (simp_all add: flood_test_params_def flood_init_params_def loopback_def sockaddr_zero_def INT_MAX_def)
  ultimately have "wp (flood_with_sendMmsg accepting 3 ?p time_bench_zero)
      (\<lambda>(res, r') w'. mmsg_post 3 ?p time_bench_zero (flood_boot ()) res r' w') (\<lambda>c w'. c = EXIT_FAIL_MEM) (flood_boot ())"
    by (intro sendMmsg_sends) (simp_all add: flood_test_params_def flood_init_params_def INT_MAX_def)
  then show ?thesis
    by (rule wp_conseq) (auto simp: mmsg_post_def tx_run_def flood_test_params_def flood_init_params_def flood_boot_def split: if_splits)
qed

end
