(* ===== verification/UdpFlood_Main.thy ===== *)
theory UdpFlood_Main
  imports UdpFlood_Mmsg
begin

text \<open>
  The whole of \<open>udp_flood\<close>: what its command line makes of the parameters, what a test does when \<open>main\<close>
  runs it, and what a run of the program transmits.
\<close>

section \<open>The options\<close>

text \<open>
  What \<open>getopt_long\<close> promises of its results: the option of a row of the table that requires an
  argument comes with one.
\<close>

definition gives_arguments :: "long_opt list \<Rightarrow> optres list \<Rightarrow> bool" where
  "gives_arguments table opts \<longleftrightarrow> list_all (\<lambda>x. list_ex (\<lambda>row. opt_has_arg row = required_argument
     \<and> opt_val row = o_c x) table \<longrightarrow> o_arg x \<noteq> None) opts"

text \<open>A configuration whose parts all lie in the C types that hold them.\<close>

definition flood_typed :: "flood_cfg \<Rightarrow> bool" where
  "flood_typed g \<longleftrightarrow> is_i32 (fl_count (fc_p g)) \<and> is_i32 (fl_msg_sz (fc_p g)) \<and> is_i32 (fl_batch (fc_p g))
     \<and> is_i32 (fl_pmtu (fc_p g)) \<and> fl_pktgen_hdr (fc_p g) \<in> {0, 1} \<and> fl_lite (fc_p g) \<in> {0, 1}
     \<and> fc_family g \<in> {AF_INET, AF_INET6} \<and> take_bit 5 (fc_run g) = fc_run g"

lemma flood_cfg0_typed: "flood_typed flood_cfg0"
  by (simp add: flood_typed_def flood_cfg0_def flood_init_params_def is_i32_def INT_MIN_def INT_MAX_def
      flood_DEFAULT_COUNT_def)

lemma is_i32_atoi: "is_i32 (atoi s)"
  by (simp add: atoi_def Let_def to_i32_range split: prod.split)

lemma wp_atoi_arg: "wp (atoi_arg a) Q E w \<longleftrightarrow> (\<exists>s. a = Some s \<and> Q (atoi s) w)"
  by (auto simp: atoi_arg_def wp_simps split: option.splits)

lemma wp_set_verbose: "wp (set_verbose a) Q E w = Q () (w\<lparr>verbose := (case a of None \<Rightarrow> 1 | Some s \<Rightarrow> atoi s)\<rparr>)"
  by (simp add: set_verbose_def wp_simps)

text \<open>What parsing the command line may touch: \<open>verbose\<close> and the output.\<close>

definition parse_frame :: "('k, 'm) world_scheme \<Rightarrow> ('k, 'm) world_scheme \<Rightarrow> bool" where
  "parse_frame w w' \<longleftrightarrow> heap w' = heap w \<and> next_blk w' = next_blk w \<and> trace w' = trace w \<and> kern w' = kern w
     \<and> world.more w' = world.more w"

lemma parse_frame_steps [simp]:
  "parse_frame w w" "parse_frame w (say m v) = parse_frame w v" "parse_frame w (v\<lparr>verbose := n\<rparr>) = parse_frame w v"
  by (simp_all add: parse_frame_def say_def)

lemma wp_ifI: "(b \<Longrightarrow> wp m Q E w) \<Longrightarrow> (\<not> b \<Longrightarrow> wp k Q E w) \<Longrightarrow> wp (if b then m else k) Q E w"
  by simp

lemma wp_flood_option:
  assumes "flood_typed g" "gives_arguments flood_long_options [x]" "parse_frame w0 w"
  shows "wp (flood_option x g) (\<lambda>g' w'. flood_typed g' \<and> parse_frame w0 w') E w"
proof -
  have arg: "\<exists>s. o_arg x = Some s" if "o_c x \<in> set (map of_char ''cpmbd'')"
    using assms(2) that by (auto simp: gives_arguments_def flood_long_options_def c_consts)
  have or5: "take_bit 5 (n OR m) = n OR m" if "take_bit 5 n = n" "take_bit 5 m = m" for n m :: int
    using that by (simp add: take_bit_or)
  show ?thesis
    unfolding flood_option_def Let_def
    by (intro wp_ifI; use assms(1,3) arg in \<open>auto simp: wp_simps wp_atoi_arg wp_set_verbose flood_typed_def is_i32_atoi
        or5 RUN_SENDMSG_def RUN_SENDMMSG_def RUN_SENDTO_def RUN_WRITE_def RUN_SEND_def simp del: ret_run\<close>)
qed

lemma wp_list_options:
  assumes "parse_frame w0 w" "\<And>w'. parse_frame w0 w' \<Longrightarrow> Q () w'"
  shows "wp (list_options fmt os) Q E w"
  using assms(1)
  by (induction os arbitrary: w) (auto simp: wp_simps assms(2) split: option.splits simp del: ret_run)

lemma wp_pmtu_to_string:
  "0 \<le> i \<Longrightarrow> (\<And>n. Q n w) \<Longrightarrow> wp (pmtu_to_string i) Q E w"
  by (auto simp: pmtu_to_string_def wp_simps c_consts ip_mtu_discover_names_def)

lemma wp_flood_usage:
  assumes "parse_frame w0 w"
  shows "wp (flood_usage argv0) (\<lambda>c w'. c = EXIT_FAIL_OPTION \<and> parse_frame w0 w') E w"
proof -
  have names: "wp (for_loop 0 IP_PMTUDISC_MAX (\<lambda>i _. bnd (pmtu_to_string i) (\<lambda>n.
            printf ''  %d = %s'' [PI i, PS (case n of None \<Rightarrow> ''(null)'' | Some x \<Rightarrow> x)])) ()) (\<lambda>_ w'. parse_frame w0 w') E v"
    if "parse_frame w0 v" for v
    by (rule wp_for_loop [where I = "\<lambda>_ _. parse_frame w0"])
       (use that in \<open>auto simp: wp_bnd wp_printf intro!: wp_pmtu_to_string\<close>)
  show ?thesis
    unfolding flood_usage_def wp_bnd wp_printf wp_ret
    by (rule wp_list_options [of w0], simp add: assms, rule wp_conseq [OF names]) simp_all
qed

lemma wp_flood_parse:
  assumes "flood_typed g" "gives_arguments flood_long_options opts" "parse_frame w0 w"
  shows "wp (flood_parse argv0 opts g) (\<lambda>x w'. parse_frame w0 w' \<and>
      (case x of Inl c \<Rightarrow> c = EXIT_FAIL_OPTION | Inr g' \<Rightarrow> flood_typed g')) E w"
  using assms
proof (induction opts arbitrary: g w)
  case Nil
  then show ?case by (simp add: wp_ret del: ret_run)
next
  case (Cons x xs)
  from Cons.prems(2) have args: "gives_arguments flood_long_options [x]" "gives_arguments flood_long_options xs"
    by (simp_all add: gives_arguments_def)
  show ?case
    unfolding flood_parse.simps wp_bnd
  proof (rule wp_conseq [OF wp_flood_option [OF Cons.prems(1) args(1) Cons.prems(3)]], goal_cases)
    case (1 g' v)
    then have v: "flood_typed g'" "parse_frame w0 v" by auto
    show ?case
    proof (rule wp_ifI)
      show "wp (bnd (flood_usage argv0) (\<lambda>c. ret (Inl c))) (\<lambda>x w'. parse_frame w0 w' \<and>
        (case x of Inl c \<Rightarrow> c = EXIT_FAIL_OPTION | Inr g' \<Rightarrow> flood_typed g')) E v"
        unfolding wp_bnd wp_ret by (rule wp_conseq [OF wp_flood_usage [OF v(2)]]) simp_all
    qed (rule Cons.IH [OF v(1) args(2) v(2)])
  qed auto
qed



section \<open>A run of the program\<close>

text \<open>The test a transmission belongs to, and its socket.\<close>

fun tx_call :: "sysreq \<Rightarrow> int \<times> int" where
  "tx_call (Rq_send fd _ _) = (RUN_SEND, fd)"
| "tx_call (Rq_sendto fd _ _ _ _) = (RUN_SENDTO, fd)"
| "tx_call (Rq_sendmsg fd _ _ _ _) = (RUN_SENDMSG, fd)"
| "tx_call (Rq_sendmmsg fd _ _) = (RUN_SENDMMSG, fd)"
| "tx_call (Rq_write fd _) = (RUN_WRITE, fd)"
| "tx_call _ = (0, 0)"

text \<open>The transmissions a test makes.\<close>

definition flood_calls :: "flood_params \<Rightarrow> int \<Rightarrow> nat" where
  "flood_calls p flag = (if flag = RUN_SENDMMSG
     then nat (fl_count p div fl_batch p) + (if fl_count p mod fl_batch p = 0 then 0 else 1)
     else nat (fl_count p))"

definition tested :: "(int \<times> int) list \<Rightarrow> ('k, 'm) world_scheme \<Rightarrow> ('k, 'm) world_scheme \<Rightarrow> bool" where
  "tested calls w w' \<longleftrightarrow> heap w' = heap w \<and> wf_heap w' \<and> (\<exists>es. trace w' = trace w @ es
     \<and> map (tx_call \<circ> fst) (txs es) = calls \<and> \<not> tx_failed (txs es))"

lemma tested_trans: "tested xs u v \<Longrightarrow> tested ys v w \<Longrightarrow> tested (xs @ ys) u w"
  unfolding tested_def
  by (elim conjE exE, intro conjI, simp, simp, rule_tac x = "es @ esa" in exI) simp

lemma tested_say [simp]: "tested xs u (say m v) = tested xs u v"
  by (simp add: tested_def wf_heap_def)

lemma tested_refl: "wf_heap w \<Longrightarrow> tested [] w w"
  by (simp add: tested_def)

lemma tested_call: "\<not> is_tx rq \<Longrightarrow> tested xs u v \<Longrightarrow> tested xs u (after_call K rq v)"
  unfolding tested_def
  by (elim conjE exE, intro conjI, simp, simp add: wf_heap_def, rule_tac x = "es @ [(rq, reply K rq v)]" in exI) simp

text \<open>What the send functions promise \<open>main\<close>: all the calls of the test, or a negative result.\<close>

definition sends_calls :: "('k, 'm) flood_fun \<Rightarrow> int \<Rightarrow> 'k kernel \<Rightarrow> int \<Rightarrow> flood_params \<Rightarrow> bool" where
  "sends_calls func flag K fd p \<longleftrightarrow> (\<forall>w r. wf_heap w \<longrightarrow>
     wp (func K fd p r) (\<lambda>(res, r') w'. heap w' = heap w \<and> wf_heap w' \<and>
         (res < 0 \<or> res = fl_count p \<and> tested (replicate (flood_calls p flag) (flag, fd)) w w'))
       (\<lambda>c _. c = EXIT_FAIL_MEM) w)"

lemma tx_run_calls: "tx_run R n tx \<Longrightarrow> (\<And>i rq. R i rq \<Longrightarrow> tx_call rq = c) \<Longrightarrow>
    map (tx_call \<circ> fst) tx = replicate n c \<and> \<not> tx_failed tx"
  by (auto simp: tx_run_def tx_failed_def list_eq_iff_nth_eq in_set_conv_nth)

lemma flood_post_sends:
  assumes "flood_post hdr mk p r w res r' w'" "\<And>d. tx_call (mk d) = (flag, fd)" "flag \<noteq> RUN_SENDMMSG"
    and cnt: "0 < fl_count p"
  shows "heap w' = heap w \<and> wf_heap w' \<and>
         (res < 0 \<or> res = fl_count p \<and> tested (replicate (flood_calls p flag) (flag, fd)) w w')"
proof -
  from assms(1) obtain es x where w': "heap w' = heap w" "wf_heap w'" "trace w' = trace w @ es"
    and x: "loop_result (sent mk hdr p (sequence w)) (fl_count p) (txs es) x" "(res, r') = flood_result (fl_count p) r x"
    by (auto simp: flood_post_def)
  show ?thesis
  proof (cases x)
    case (Inl e)
    with x w' show ?thesis by (auto simp: loop_result_def flood_result_def)
  next
    case (Inr t)
    with x have run: "tx_run (sent mk hdr p (sequence w)) (nat (fl_count p)) (txs es)" "res = fl_count p"
      using cnt by (auto simp: loop_result_def flood_result_def)
    have "map (tx_call \<circ> fst) (txs es) = replicate (nat (fl_count p)) (flag, fd) \<and> \<not> tx_failed (txs es)"
      by (rule tx_run_calls [OF run(1)]) (auto simp: sent_def assms(2))
    with run w' assms(3) show ?thesis by (auto simp: tested_def flood_calls_def)
  qed
qed

definition flood_usable :: "flood_params \<Rightarrow> bool" where
  "flood_usable p \<longleftrightarrow> 0 \<le> fl_msg_sz p \<and> fl_msg_sz p + 16 \<le> INT_MAX \<and> 0 < fl_count p \<and> fl_count p \<le> INT_MAX
     \<and> ss_family (fl_dest_addr p) \<in> {AF_INET, AF_INET6}"

lemma usable_pre: "flood_usable p \<Longrightarrow> wf_heap w \<Longrightarrow> flood_pre p w"
  by (simp add: flood_usable_def flood_pre_def)

context flood_sender
begin

lemma calls:
  assumes "flood_usable p" "\<And>d. tx_call (mk fd p d) = (flag, fd)" "flag \<noteq> RUN_SENDMMSG"
  shows "sends_calls func flag K fd p"
  unfolding sends_calls_def
proof (intro allI impI)
  fix w :: "('k, 'm) flood_world_scheme" and r
  assume wf: "wf_heap w"
  show "wp (func K fd p r) (\<lambda>(res, r') w'. heap w' = heap w \<and> wf_heap w' \<and>
         (res < 0 \<or> res = fl_count p \<and> tested (replicate (flood_calls p flag) (flag, fd)) w w')) (\<lambda>c _. c = EXIT_FAIL_MEM) w"
    by (rule wp_conseq [OF sends [OF usable_pre [OF assms(1) wf]]])
       (use assms in \<open>auto simp: flood_usable_def dest!: flood_post_sends\<close>)
qed

end

text \<open>What \<open>sendmmsg\<close> needs of the batch.\<close>

definition batch_usable :: "flood_params \<Rightarrow> bool" where
  "batch_usable p \<longleftrightarrow> 0 < fl_batch p \<and> 64 * fl_batch p < 2 ^ 32 \<and> fl_batch p * fl_msg_sz p \<le> INT_MAX"

lemma sendMmsg_calls:
  fixes K :: "'k kernel"
  assumes p: "flood_usable p" "batch_usable p" and K: "accepts_at_most K"
  shows "sends_calls (flood_with_sendMmsg :: ('k, 'm) flood_fun) RUN_SENDMMSG K fd p"
  unfolding sends_calls_def
proof (intro allI impI)
  fix w :: "('k, 'm) flood_world_scheme" and r
  assume wf: "wf_heap w"
  show "wp (flood_with_sendMmsg K fd p r) (\<lambda>(res, r') w'. heap w' = heap w \<and> wf_heap w' \<and>
         (res < 0 \<or> res = fl_count p \<and> tested (replicate (flood_calls p RUN_SENDMMSG) (RUN_SENDMMSG, fd)) w w'))
       (\<lambda>c _. c = EXIT_FAIL_MEM) w"
  proof (rule wp_conseq [OF wp_sendMmsg [OF usable_pre [OF p(1) wf]]], goal_cases)
    case (7 x w')
    obtain res r' where x: "x = (res, r')" by (cases x)
    with 7 have post: "mmsg_post fd p r w res r' w'" by simp
    show ?case
    proof (cases "res < 0")
      case True
      with post show ?thesis by (simp add: x mmsg_post_def)
    next
      case False
      with post obtain es full rest where w': "heap w' = heap w" "wf_heap w'" "trace w' = trace w @ es" "res = fl_count p"
        and tx: "txs es = full @ rest" and full: "tx_run (full_batch fd p (sequence w)) (nat (fl_count p div fl_batch p)) full"
        and rest: "if fl_count p mod fl_batch p = 0 then rest = []
           else tx_run (\<lambda>_. batch_sent fd p (sequence w) (nat (fl_count p mod fl_batch p))
                  (nat (fl_count p div fl_batch p) * nat (fl_batch p))) 1 rest"
        by (auto simp: mmsg_post_def)
      have call: "tx_call rq = (RUN_SENDMMSG, fd)" if "batch_sent fd p s k i rq" for s k i rq
        using that by (auto simp: batch_sent_def)
      have "map (tx_call \<circ> fst) full = replicate (nat (fl_count p div fl_batch p)) (RUN_SENDMMSG, fd) \<and> \<not> tx_failed full"
        by (rule tx_run_calls [OF full]) (rule call)
      moreover have "map (tx_call \<circ> fst) rest = replicate (if fl_count p mod fl_batch p = 0 then 0 else 1) (RUN_SENDMMSG, fd)
          \<and> \<not> tx_failed rest"
      proof (cases "fl_count p mod fl_batch p = 0")
        case False
        with rest have "tx_run (\<lambda>_. batch_sent fd p (sequence w) (nat (fl_count p mod fl_batch p))
                  (nat (fl_count p div fl_batch p) * nat (fl_batch p))) 1 rest" by simp
        from tx_run_calls [OF this call] False show ?thesis by simp
      qed (use rest in simp)
      ultimately have "tested (replicate (flood_calls p RUN_SENDMMSG) (RUN_SENDMMSG, fd)) w w'"
        unfolding tested_def using w' tx
        by (intro conjI exI [of _ es]) (simp_all add: flood_calls_def replicate_add)
      with w' show ?thesis by (simp add: x)
    qed
  qed (use p K in \<open>auto simp: flood_usable_def batch_usable_def\<close>)
qed

text \<open>A measured test, and one that \<open>main\<close> runs only when it is selected.\<close>

definition flood_exits :: "int set" where
  "flood_exits = {EXIT_FAIL_MEM, EXIT_FAIL_TIME, EXIT_FAIL_SEND}"

lemma wp_time_function:
  fixes w :: "('k, 'm) flood_world_scheme"
  assumes func: "sends_calls func flag K fd p" and p: "flood_usable p" and w: "tested xs w0 w"
  shows "wp (flood_time_function K fd p func) (\<lambda>_ w'. tested (xs @ replicate (flood_calls p flag) (flag, fd)) w0 w')
    (\<lambda>c _. c \<in> flood_exits) w"
proof -
  let ?ys = "xs @ replicate (flood_calls p flag) (flag, fd)"
  let ?w1 = "after_call K Rq_rdtsc (after_call K (Rq_clock_gettime CLOCK_MONOTONIC) w)"
  have w1: "tested xs w0 ?w1" using w by (intro tested_call) simp_all
  then have wf: "wf_heap ?w1" by (simp add: tested_def)
  have n: "to_u64 (fl_count p) \<noteq> 0" "\<not> fl_count p < 0"
    using p uint_to_u64 [of "fl_count p"] by (auto simp: flood_usable_def INT_MAX_def)
  have stats: "wp (time_bench_print_stats r c) (\<lambda>_ w'. tested ?ys w0 w') E v"
    if "tested ?ys w0 v" for r c E and v :: "('k, 'm) flood_world_scheme"
    by (rule wp_print_stats) (use that in \<open>auto simp: tested_def wf_heap_def\<close>)
  have tail: "wp (bnd (time_bench_stop K r') (\<lambda>rec3.
     if res < 0 then
       bnd (eprintf ''ERROR: failed to send packets'' []) (\<lambda>_.
       bnd (syscall K (Rq_close fd)) (\<lambda>_.
       exit_with EXIT_FAIL_SEND))
     else
       bnd (time_bench_calc_stats (rec3\<lparr>packets := to_u64 res\<rparr>)) (\<lambda>rec4.
       bnd (time_bench_print_stats rec4 (fl_c p)) (\<lambda>_.
       ret rec4)))) (\<lambda>_ w'. tested ?ys w0 w') (\<lambda>c _. c \<in> flood_exits) v"
    if v: "res < 0 \<or> res = fl_count p \<and> tested (replicate (flood_calls p flag) (flag, fd)) ?w1 v"
    for r' res and v :: "('k, 'm) flood_world_scheme"
  proof (cases "res < 0")
    case True
    then show ?thesis by (simp add: time_bench_stop_def wp_simps Let_def flood_exits_def)
  next
    case False
    with v have "res = fl_count p" "tested ?ys w0 v" using tested_trans [OF w1] by blast+
    then show ?thesis
      using n by (simp add: time_bench_stop_def wp_simps wp_calc_stats Let_def flood_exits_def) (intro impI stats tested_call, auto)
  qed
  have "wp (func K fd p r) (\<lambda>(res, r'). wp (bnd (time_bench_stop K r') (\<lambda>rec3.
     if res < 0 then
       bnd (eprintf ''ERROR: failed to send packets'' []) (\<lambda>_.
       bnd (syscall K (Rq_close fd)) (\<lambda>_.
       exit_with EXIT_FAIL_SEND))
     else
       bnd (time_bench_calc_stats (rec3\<lparr>packets := to_u64 res\<rparr>)) (\<lambda>rec4.
       bnd (time_bench_print_stats rec4 (fl_c p)) (\<lambda>_.
       ret rec4)))) (\<lambda>_ w'. tested ?ys w0 w') (\<lambda>c _. c \<in> flood_exits)) (\<lambda>c _. c \<in> flood_exits) ?w1" for r
    by (rule wp_conseq [OF func [unfolded sends_calls_def, rule_format, OF wf, of r]])
       (clarify, rule tail, simp_all add: flood_exits_def)
  then show ?thesis
    unfolding flood_time_function_def time_bench_start_def wp_bnd [of "bnd (gettime _) _"] wp_bnd [of "func _ _ _ _"]
    by (simp add: wp_bnd [of "gettime _"] wp_bnd [of "rdtsc _"] wp_rdtsc wp_gettime wp_ret Let_def flood_exits_def wp_case_prod)
qed

lemma wp_run_one:
  assumes func: "run AND flag \<noteq> 0 \<Longrightarrow> sends_calls func flag K fd p" and p: "flood_usable p" and w: "tested xs w0 w"
  shows "wp (flood_run_one K fd p run flag name batch func)
    (\<lambda>_ w'. tested (xs @ (if run AND flag \<noteq> 0 then replicate (flood_calls p flag) (flag, fd) else [])) w0 w')
    (\<lambda>c _. c \<in> flood_exits) w"
proof (cases "run AND flag \<noteq> 0")
  case True
  have "wp (flood_time_function K fd p func) (\<lambda>_ w'. tested (xs @ replicate (flood_calls p flag) (flag, fd)) w0 w')
    (\<lambda>c _. c \<in> flood_exits) (say m w)" for m
    by (rule wp_time_function [OF func [OF True] p]) (simp add: w)
  with True show ?thesis
    by (simp add: flood_run_one_def wp_bnd wp_when wp_ret print_header_def wp_gets wp_if wp_printf)
next
  case False
  with w show ?thesis by (simp add: flood_run_one_def wp_when)
qed

lemma wp_run_then:
  assumes func: "run AND flag \<noteq> 0 \<Longrightarrow> sends_calls func flag K fd p" and p: "flood_usable p" and w: "tested xs w0 w"
    and rest: "\<And>v. tested (xs @ (if run AND flag \<noteq> 0 then replicate (flood_calls p flag) (flag, fd) else [])) w0 v \<Longrightarrow>
      wp k Q (\<lambda>c _. c \<in> flood_exits) v"
  shows "wp (bnd (flood_run_one K fd p run flag name batch func) (\<lambda>_. k)) Q (\<lambda>c _. c \<in> flood_exits) w"
  unfolding wp_bnd by (rule wp_conseq [OF wp_run_one [OF func p w]]) (use rest in auto)

text \<open>The tests in the order \<open>main\<close> has them, and the transmissions a configuration asks for.\<close>

definition flood_tests :: "int list" where
  "flood_tests = [RUN_SEND, RUN_SENDTO, RUN_SENDMSG, RUN_SENDMMSG, RUN_WRITE]"

definition flood_plan :: "flood_params \<Rightarrow> int \<Rightarrow> int \<Rightarrow> (int \<times> int) list" where
  "flood_plan p run fd = concat (map (\<lambda>flag. replicate (flood_calls p flag) (flag, fd))
     (filter (\<lambda>flag. run AND flag \<noteq> 0) flood_tests))"

lemma flood_plan_unfold: "flood_plan p run fd =
    ((((([] @ (if run AND RUN_SEND \<noteq> 0 then replicate (flood_calls p RUN_SEND) (RUN_SEND, fd) else []))
      @ (if run AND RUN_SENDTO \<noteq> 0 then replicate (flood_calls p RUN_SENDTO) (RUN_SENDTO, fd) else []))
      @ (if run AND RUN_SENDMSG \<noteq> 0 then replicate (flood_calls p RUN_SENDMSG) (RUN_SENDMSG, fd) else []))
      @ (if run AND RUN_SENDMMSG \<noteq> 0 then replicate (flood_calls p RUN_SENDMMSG) (RUN_SENDMMSG, fd) else []))
      @ (if run AND RUN_WRITE \<noteq> 0 then replicate (flood_calls p RUN_WRITE) (RUN_WRITE, fd) else []))"
  by (simp add: flood_plan_def flood_tests_def)

abbreviation (input) flood_all_tests :: "'k kernel \<Rightarrow> int \<Rightarrow> flood_params \<Rightarrow> int \<Rightarrow> ('k, 'm, int) fprog" where
  "flood_all_tests K fd p run \<equiv>
     bnd (flood_run_one K fd p run RUN_SEND ''send'' 0 flood_with_send) (\<lambda>_.
          bnd (flood_run_one K fd p run RUN_SENDTO ''sendto'' 0 flood_with_sendto) (\<lambda>_.
          bnd (flood_run_one K fd p run RUN_SENDMSG ''sendmsg'' 0 flood_with_sendmsg) (\<lambda>_.
          bnd (flood_run_one K fd p run RUN_SENDMMSG ''sendMmsg'' (fl_batch p) flood_with_sendMmsg) (\<lambda>_.
          bnd (flood_run_one K fd p run RUN_WRITE ''write'' 0 flood_with_write) (\<lambda>_.
          bnd (syscall K (Rq_close fd)) (\<lambda>_.
          ret 0))))))"

lemma wp_flood_tests:
  fixes K :: "'k kernel" and w :: "('k, 'm) flood_world_scheme"
  assumes p: "flood_usable p" and batch: "run AND RUN_SENDMMSG \<noteq> 0 \<Longrightarrow> batch_usable p" and K: "accepts_at_most K"
    and w: "tested [] w0 w"
  shows "wp (flood_all_tests K fd p run)
      (\<lambda>c w'. c = 0 \<and> tested (flood_plan p run fd) w0 w' \<and> fst (last (trace w')) = Rq_close fd)
      (\<lambda>c _. c \<in> flood_exits) w"
proof -
  have calls: "sends_calls (flood_with_send :: ('k, 'm) flood_fun) RUN_SEND K fd p"
    "sends_calls (flood_with_sendto :: ('k, 'm) flood_fun) RUN_SENDTO K fd p"
    "sends_calls (flood_with_sendmsg :: ('k, 'm) flood_fun) RUN_SENDMSG K fd p"
    "sends_calls (flood_with_write :: ('k, 'm) flood_fun) RUN_WRITE K fd p"
    by (rule fl_send.calls [OF p] fl_sendto.calls [OF p] fl_sendmsg.calls [OF p] fl_write.calls [OF p], simp,
        simp add: RUN_SEND_def RUN_SENDTO_def RUN_SENDMSG_def RUN_WRITE_def RUN_SENDMMSG_def)+
  have mmsg: "sends_calls (flood_with_sendMmsg :: ('k, 'm) flood_fun) RUN_SENDMMSG K fd p" if "run AND RUN_SENDMMSG \<noteq> 0"
    by (rule sendMmsg_calls [OF p batch [OF that] K])
  show ?thesis
    by (rule wp_run_then [OF calls(1) p w] wp_run_then [OF calls(2) p] wp_run_then [OF calls(3) p]
        wp_run_then [OF mmsg p] wp_run_then [OF calls(4) p] | assumption)+
       (auto simp: wp_bnd wp_syscall wp_ret flood_plan_unfold intro: tested_call simp del: ret_run)
qed

lemma set_up_tested: "set_up w v \<Longrightarrow> wf_heap w \<Longrightarrow> tested [] w v"
proof -
  have none: "is_setup rq \<Longrightarrow> \<not> is_tx rq" for rq by (cases rq) simp_all
  have "txs es = []" if "list_all (is_setup \<circ> fst) es" for es
    using that none by (induction es) auto
  then show "set_up w v \<Longrightarrow> wf_heap w \<Longrightarrow> tested [] w v"
    by (auto simp: set_up_def tested_def wf_heap_def)
qed

lemma set_up_from_frame: "parse_frame w w0 \<Longrightarrow> set_up w0 v \<Longrightarrow> wf_heap w \<Longrightarrow> tested [] w v"
  using set_up_tested [of w0 v] by (auto simp: tested_def parse_frame_def wf_heap_def)

text \<open>The address, the connection and the tests; and before them the socket option.\<close>

lemma wp_flood_connect:
  assumes v: "set_up w0 v" and early: "\<And>c u. c \<in> {EXIT_FAIL_SOCK, EXIT_FAIL_SOCKOPT, EXIT_FAIL_IP, EXIT_FAIL_OPTION} \<Longrightarrow> E c u"
    and run: "\<And>dest u. set_up w0 u \<Longrightarrow> ss_family dest \<in> {AF_INET, AF_INET6} \<Longrightarrow> wp (run dest) Q E u"
  shows "wp (bnd (setup_sockaddr K fam addr dest_ip port) (\<lambda>dest.
          bnd (sockaddr_len dest) (\<lambda>len.
          bnd (Connect K fd dest len) (\<lambda>_.
          bnd (when_do (b = 0) (printf f a)) (\<lambda>_. run dest))))) Q E v"
  unfolding wp_bnd wp_when wp_printf
proof (rule wp_setup_sockaddr, goal_cases)
  case (1 dest u)
  note dest = 1
  show ?case
  proof (rule wp_wrappers(6), goal_cases)
    case (1 len u')
    note len = 1
    show ?case
    proof (rule wp_wrappers(2), goal_cases)
      case (1 x u'')
      then have "set_up w0 u''" using v dest(1) len by (blast intro: set_up_trans)
      then show ?case using dest by (auto intro!: run)
    qed (rule early, auto)
  qed (rule early, auto)
qed (rule early, auto)

lemma wp_flood_pmtu:
  assumes "set_up w0 v" "- 1 \<le> fl_pmtu p" "\<And>u. set_up w0 u \<Longrightarrow> wp k Q E u"
  shows "wp (bnd (when_do (fl_pmtu p \<noteq> - 1)
                 (bnd (when_do (0 < b)
                        (bnd (pmtu_to_string (fl_pmtu p)) (\<lambda>n.
                         printf ''setsockopt IP_MTU_DISCOVER: %s(%d)''
                           [PS (case n of None \<Rightarrow> ''(null)'' | Some s \<Rightarrow> s), PI (fl_pmtu p)]))) (\<lambda>_.
                  bnd (syscall K (Rq_setsockopt fd SOL_IP IP_MTU_DISCOVER (OptInt (fl_pmtu p)))) (\<lambda>_.
                  ret ())))) (\<lambda>_. k)) Q E v"
  using assms
  by (auto simp: wp_bnd wp_when wp_syscall wp_ret wp_printf simp del: ret_run intro!: wp_pmtu_to_string)

lemma wp_read: "wp (k (f w)) Q E w \<Longrightarrow> wp (bnd (gets f) k) Q E w"
  by (simp add: wp_bnd wp_gets)

lemma wp_note:
  "set_up w0 v \<Longrightarrow> (\<And>u. set_up w0 u \<Longrightarrow> wp k Q E u) \<Longrightarrow> wp (bnd (when_do b (printf f a)) (\<lambda>_. k)) Q E v"
  by (simp add: wp_bnd wp_when wp_printf)

lemma wp_flood_socket:
  assumes "set_up w0 v" "\<And>c u. c \<in> {EXIT_FAIL_SOCK, EXIT_FAIL_SOCKOPT, EXIT_FAIL_IP, EXIT_FAIL_OPTION} \<Longrightarrow> E c u"
    "\<And>fd u. set_up w0 u \<Longrightarrow> wp (k fd) Q E u"
  shows "wp (bnd (Socket K fam ty pr) k) Q E v"
  unfolding wp_bnd
  by (rule wp_wrappers(1), rule assms(3) [OF set_up_trans [OF assms(1)]], assumption) (rule assms(2), auto)

lemma wp_after_Done: "m w = (Done x, w0) \<Longrightarrow> wp (bnd m k) Q E w = wp (k x) Q E w0"
  by (simp add: wp_def bnd_def)

text \<open>How a run may end early: for the reasons of a test, or because the socket could not be had.\<close>

definition flood_main_exits :: "int set" where
  "flood_main_exits = flood_exits \<union> {EXIT_FAIL_SOCK, EXIT_FAIL_SOCKOPT, EXIT_FAIL_IP, EXIT_FAIL_OPTION}"

definition flood_run_flag :: "flood_cfg \<Rightarrow> int" where
  "flood_run_flag g = (if fc_run g = 0 then flood_RUN_ALL else fc_run g)"

text \<open>
  C5.  A run of \<open>udp_flood\<close> makes the selected tests, in order, on one socket.  For options that parse to a
  configuration with a usable packet size, count and pmtu (and batch, when \<open>sendmmsg\<close> is selected), and
  a destination, \<open>main\<close> ends without undefined behaviour.  When it returns, the result is 0; the transmissions of
  the run are those of the selected tests (all five when none was named) in the order \<open>send\<close>, \<open>sendto\<close>, \<open>sendmsg\<close>,
  \<open>sendmmsg\<close>, \<open>write\<close>, each test with \<open>--count\<close> calls, or as many batches as hold them, all on the one
  socket that is closed at the end; no call failed, and all memory is given back.  Otherwise it has
  exited with one of the documented codes.
\<close>

theorem flood_main_runs_tests:
  fixes w :: "('k, 'm) flood_world_scheme"
  assumes "gives_arguments flood_long_options opts" "flood_parse argv0 opts flood_cfg0 w = (Done (Inr g), w0)"
    and "wf_heap w" "accepts_at_most K" "p = fc_p g"
    and "0 \<le> fl_msg_sz p" "fl_msg_sz p + 16 \<le> INT_MAX" "0 < fl_count p" "- 1 \<le> fl_pmtu p"
    and "flood_run_flag g AND RUN_SENDMMSG \<noteq> 0 \<longrightarrow> batch_usable p"
  shows "wp (flood_main K argv0 opts (dest_ip # args))
    (\<lambda>c w'. c = 0 \<and> (\<exists>fd. tested (flood_plan p (flood_run_flag g) fd) w w' \<and> fst (last (trace w')) = Rq_close fd))
    (\<lambda>c _. c \<in> flood_main_exits) w"
    (is "wp _ ?Q ?E w")
proof -
  from wp_Done [OF wp_flood_parse [OF flood_cfg0_typed assms(1), of w w argv0 "\<lambda>_ _. False"] assms(2)]
  have g: "flood_typed g" and fr: "parse_frame w w0" by auto
  have tests: "wp (flood_all_tests K fd p' (flood_run_flag g)) ?Q ?E v"
    if "set_up w0 v" "ss_family dest \<in> {AF_INET, AF_INET6}" "p' = p\<lparr>fl_dest_addr := dest, fl_c := c\<rparr>"
    for v fd dest c p'
  proof (rule wp_conseq [OF wp_flood_tests [OF _ _ assms(4) set_up_from_frame [OF fr that(1) assms(3)]]])
    show "flood_usable p'" using that(2,3) assms(5-8) g by (simp add: flood_usable_def flood_typed_def is_i32_def)
    show "batch_usable p'" if "flood_run_flag g AND RUN_SENDMMSG \<noteq> 0"
      using that assms(10) \<open>p' = _\<close> by (simp add: batch_usable_def)
    have "fl_count p' = fl_count p" "fl_batch p' = fl_batch p" using that(3) by simp_all
    then have "flood_calls p' = flood_calls p" by (simp add: flood_calls_def fun_eq_iff)
    then have "flood_plan p' = flood_plan p" by (simp add: flood_plan_def fun_eq_iff)
    then show "?Q c' v'" if "c' = 0 \<and> tested (flood_plan p' (flood_run_flag g) fd) w v' \<and> fst (last (trace v')) = Rq_close fd" for c' v'
      using that by auto
  qed (simp add: flood_main_exits_def)
  have early: "?E c u" if "c \<in> {EXIT_FAIL_SOCK, EXIT_FAIL_SOCKOPT, EXIT_FAIL_IP, EXIT_FAIL_OPTION}" for c u
    using that by (auto simp: flood_main_exits_def)
  show ?thesis
    unfolding flood_main_def wp_after_Done [where m = "flood_parse argv0 opts flood_cfg0" and w = w, OF assms(2)]
      sum.case list.case Let_def assms(5) [symmetric] flood_run_flag_def [symmetric]
    by (rule wp_read, rule wp_note [OF set_up_refl], rule wp_flood_socket [OF _ early], assumption, assumption,
        rule wp_flood_pmtu [OF _ assms(9)], assumption, rule wp_flood_connect [OF _ early], assumption, assumption,
        rule tests [OF _ _ refl])
qed

text \<open>\<open>udp_flood -c 2 -t 127.0.0.1\<close>: two calls of \<open>sendto\<close> and nothing else.\<close>

definition two_sendto :: "optres list" where
  "two_sendto = [\<lparr>o_c = of_char (CHR ''c''), o_arg = Some ''2'', o_longindex = 0\<rparr>,
     \<lparr>o_c = of_char (CHR ''t''), o_arg = None, o_longindex = 0\<rparr>]"

lemma two_sendto_parse: "flood_parse ''udp_flood'' two_sendto flood_cfg0 w
    = (Done (Inr (flood_cfg0\<lparr>fc_p := flood_init_params\<lparr>fl_count := 2\<rparr>, fc_run := RUN_SENDTO\<rparr>)), w)"
  by (simp add: two_sendto_def flood_option_def atoi_arg_def atoi_def is_space_def split_sign_def to_i32_def flood_cfg0_def
      is_digit_def bnd_def)

theorem flood_main_runs_tests_witness:
  "wp (flood_main accepting ''udp_flood'' two_sendto [''127.0.0.1''])
    (\<lambda>c w'. c = 0 \<and> (\<exists>fd. map (tx_call \<circ> fst) (txs (trace w')) = [(RUN_SENDTO, fd), (RUN_SENDTO, fd)]))
    (\<lambda>c _. c \<in> flood_main_exits) (flood_boot ())"
proof (rule wp_conseq [OF flood_main_runs_tests [OF _ two_sendto_parse]], goal_cases)
  case 3
  show ?case by (simp add: accepts_at_most_def accepting_def sysres_of_def)
qed (auto simp: gives_arguments_def two_sendto_def flood_long_options_def c_consts flood_boot_def wf_heap_def flood_cfg0_def
      flood_init_params_def INT_MAX_def flood_run_flag_def flood_plan_def flood_tests_def flood_calls_def tested_def
      numeral_2_eq_2)

end
