(* ===== verification/UdpPacer.thy ===== *)
theory UdpPacer
  imports CommonSocket
begin

text \<open>
  \<open>src/src/udp_pacer.c\<close>: a sender that clocks packets out at a fixed interval.  A timer thread
  sleeps until the next deadline, measures how late it woke up, sends a batch and moves the deadline
  on; the main thread waits for the flag \<open>shutdown_global\<close>, which a signal handler or the end of the
  timer thread sets, joins the thread and releases the two structures they share.

  Each thread is a program counter and one function per piece of code between two reads of shared
  state (\<open>thread_step\<close>, \<open>main_step\<close>); \<open>pstep\<close> interleaves the two threads and the signal handler in
  any order.  The structures \<open>thread_param\<close> and \<open>thread_stat\<close> are records in the state, and every
  access to one goes through its heap block, so that an access after \<open>free\<close> is a fault.
\<close>

section \<open>Definitions\<close>

definition pacer_long_options :: "long_opt list" where
  "pacer_long_options = map (\<lambda>(n, a, v). \<lparr>opt_name = n, opt_has_arg = a, opt_flag = None, opt_val = v\<rparr>)
     [(''help'', no_argument, of_char (CHR ''h'')),
      (''verbose'', optional_argument, of_char (CHR ''v'')),
      (''batch'', required_argument, of_char (CHR ''b'')),
      (''count'', required_argument, of_char (CHR ''c'')),
      (''port'', required_argument, of_char (CHR ''p'')),
      (''priority'', required_argument, of_char (CHR ''P'')),
      (''interval'', required_argument, of_char (CHR ''s'')),
      (''sleep_usec'', required_argument, of_char (CHR ''s''))]"

definition DEFAULT_INTERVAL :: u64 where [c_consts]: "DEFAULT_INTERVAL = 1000000"
definition USEC_PER_SEC :: int where [c_consts]: "USEC_PER_SEC = 1000000"
definition NSEC_PER_SEC :: int where [c_consts]: "NSEC_PER_SEC = 1000000000"

record cfg_params =
  pc_batch :: int
  pc_count :: int
  pc_msg_sz :: int
  pc_interval :: u64
  pc_thread_prio :: int
  pc_sockfd :: int
  pc_addr_family :: int
  pc_dest_port :: u16
  pc_dest_addr :: sockaddr_storage

record thread_param =
  tp_stats :: ptr
  tp_sockfd :: int
  tp_batch :: int
  tp_msg_sz :: int
  tp_clock :: int
  tp_interval :: u64
  tp_prio :: int
  tp_policy :: int
  tp_max_cycles :: u64

record thread_stat =
  thread_started :: int
  cycles :: u64
  st_min :: int
  st_max :: int
  st_act :: int
  st_avg :: double

definition sizeof_thread_param :: int where [c_consts]: "sizeof_thread_param = 48"
definition sizeof_thread_stat :: int where [c_consts]: "sizeof_thread_stat = 56"

definition thread_param_zero :: thread_param where
  "thread_param_zero = \<lparr>tp_stats = NULL, tp_sockfd = 0, tp_batch = 0, tp_msg_sz = 0, tp_clock = 0,
     tp_interval = 0, tp_prio = 0, tp_policy = 0, tp_max_cycles = 0\<rparr>"

definition thread_stat_zero :: thread_stat where
  "thread_stat_zero = \<lparr>thread_started = 0, cycles = 0, st_min = 0, st_max = 0, st_act = 0, st_avg = Fin 0\<rparr>"

record 'k pacer_world = "'k world" +
  shutdown_global :: int
  the_par :: thread_param
  the_stat :: thread_stat

type_synonym ('k, 'm, 'a) pprog = "(('k, 'm) pacer_world_scheme, 'a) prog"

text \<open>The accesses through the two pointers.\<close>

definition get_par :: "ptr \<Rightarrow> ('k, 'm, thread_param) pprog" where
  "get_par p = bnd (touch p sizeof_thread_param) (\<lambda>_. gets the_par)"

definition get_stat :: "ptr \<Rightarrow> ('k, 'm, thread_stat) pprog" where
  "get_stat p = bnd (touch p sizeof_thread_stat) (\<lambda>_. gets the_stat)"

definition set_stat :: "ptr \<Rightarrow> (thread_stat \<Rightarrow> thread_stat) \<Rightarrow> ('k, 'm, unit) pprog" where
  "set_stat p f = bnd (touch p sizeof_thread_stat) (\<lambda>_. modify (\<lambda>w. w\<lparr>the_stat := f (the_stat w)\<rparr>))"

definition pacer_usage :: "string \<Rightarrow> ('k, 'm, int) cprog" where
  "pacer_usage argv0 =
     bnd (printf ''DOCUMENTATION: This tool is a UDP pacer that clock-out packets at fixed interval.'' []) (\<lambda>_.
     bnd (printf '' Usage: %s (options-see-below) IPADDR'' [PS argv0]) (\<lambda>_.
     bnd (printf '' Listing options:'' []) (\<lambda>_.
     bnd (list_options '' --%-12s'' pacer_long_options) (\<lambda>_.
     ret EXIT_FAIL_OPTION))))"

subsection \<open>Times\<close>

function tsnorm :: "timespec \<Rightarrow> ('s, timespec) prog" where
  "tsnorm ts =
     (if NSEC_PER_SEC \<le> tv_nsec ts then
        bnd (chk_i64 (tv_sec ts + 1)) (\<lambda>s. tsnorm (TimeSpec s (tv_nsec ts - NSEC_PER_SEC)))
      else ret ts)"
  by pat_completeness auto
termination
  by (relation "measure (\<lambda>ts. nat (tv_nsec ts))") (auto simp: NSEC_PER_SEC_def)

declare tsnorm.simps [simp del]

text \<open>\<open>next.tv_sec += interval.tv_sec; next.tv_nsec += interval.tv_nsec; tsnorm(&next)\<close>\<close>

definition advance :: "timespec \<Rightarrow> timespec \<Rightarrow> ('s, timespec) prog" where
  "advance nxt interval =
     bnd (chk_i64 (tv_sec nxt + tv_sec interval)) (\<lambda>s.
     bnd (chk_i64 (tv_nsec nxt + tv_nsec interval)) (\<lambda>n.
     tsnorm (TimeSpec s n)))"

definition interval_of :: "u64 \<Rightarrow> timespec" where
  "interval_of usec = TimeSpec (uint (usec div to_u64 USEC_PER_SEC))
                               (uint (usec mod to_u64 USEC_PER_SEC * 1000))"

definition sighand :: "'k kernel \<Rightarrow> ('k, 'm, unit) pprog" where
  "sighand K =
     bnd (modify (\<lambda>w. w\<lparr>shutdown_global := 1\<rparr>)) (\<lambda>_.
     bnd (syscall K (Rq_clock_gettime CLOCK_MONOTONIC)) (\<lambda>r.
     printf ''%s() Goodbye at %ld.%ld sec''
       [PS ''sighand'', PI (tv_sec (r_time r)), PI (tv_nsec (r_time r))]))"

definition calcdiff :: "timespec \<Rightarrow> timespec \<Rightarrow> ('s, int) prog" where
  "calcdiff t1 t2 =
     bnd (chk_i32 (to_i32 (tv_sec t1) - to_i32 (tv_sec t2))) (\<lambda>s.
     bnd (chk_i32 (to_i32 (tv_nsec t1) - to_i32 (tv_nsec t2))) (\<lambda>n.
     ret (USEC_PER_SEC * s + cdiv n 1000)))"

subsection \<open>Packets\<close>

text \<open>
  The guard compares the length with the size of the pointer \<open>hdr\<close>; the four fields are written in
  the order of the assignments, all in network byte order.
\<close>

definition fill_buf_pktgen :: "ptr \<Rightarrow> int \<Rightarrow> timespec \<Rightarrow> u32 \<Rightarrow> ('k, 'm, unit) cprog" where
  "fill_buf_pktgen buf len ts sq =
     (if to_u64 len < to_u64 sizeof_ptr then ret ()
      else
        bnd (store (ptr_add buf 8) (le32 (htonl (word_of_int (tv_sec ts))))) (\<lambda>_.
        bnd (store (ptr_add buf 12) (le32 (htonl (word_of_int (cdiv (tv_nsec ts) 1000))))) (\<lambda>_.
        bnd (store (ptr_add buf 0) (le32 (htonl PKTGEN_MAGIC))) (\<lambda>_.
        store (ptr_add buf 4) (le32 (htonl sq))))))"

definition socket_send :: "'k kernel \<Rightarrow> int \<Rightarrow> ptr \<Rightarrow> int \<Rightarrow> int \<Rightarrow> ('k, 'm, int) cprog" where
  "socket_send K sockfd msg_buf msg_sz batch =
     bnd (for_break 0 batch (\<lambda>cnt tot.
            bnd (load msg_buf (uint (to_u64 msg_sz))) (\<lambda>data.
            bnd (syscall K (Rq_send sockfd data 0)) (\<lambda>res.
            if r_ret res < 0 then
              bnd (eprintf ''Managed to send %d packets'' [PI cnt]) (\<lambda>_.
              bnd (perror ''- send'') (\<lambda>_.
              ret (Inl (r_ret res))))
            else ret (Inr (tot + to_u64 (r_ret res)))))) (0 :: u64)) (\<lambda>x.
     ret (case x of Inl res \<Rightarrow> res | Inr _ \<Rightarrow> max 0 batch))"

subsection \<open>The timer thread\<close>

text \<open>
  The statistics of one cycle.  \<open>diff\<close> is a \<open>uint64_t\<close>: the comparisons with the \<open>long\<close> fields are
  unsigned.
\<close>

definition stat_update :: "u64 \<Rightarrow> thread_stat \<Rightarrow> thread_stat" where
  "stat_update diff st0 =
     (let st1 = (if diff < to_u64 (st_min st0) then st0\<lparr>st_min := sint diff\<rparr> else st0);
          st2 = (if to_u64 (st_max st1) < diff then st1\<lparr>st_max := sint diff\<rparr> else st1)
      in st2\<lparr>st_avg := dadd (st_avg st2) (double_of_u64 diff), st_act := sint diff,
             cycles := cycles st2 + 1\<rparr>)"

text \<open>The thread's local variables while it is in its loop.\<close>

record timer_vars =
  tv_stat :: ptr
  tv_buf :: ptr
  tv_msg_sz :: int
  tv_clock :: int
  tv_next :: timespec
  tv_interval :: timespec

text \<open>The first deadline, and the entry into the loop.\<close>

definition timer_start :: "'k kernel \<Rightarrow> thread_param \<Rightarrow> ptr \<Rightarrow> ('k, 'm, timer_vars) pprog" where
  "timer_start K par msg_buf =
     (let interval = interval_of (tp_interval par) in
      bnd (syscall K (Rq_clock_gettime (tp_clock par))) (\<lambda>r.
      bnd (advance (r_time r) interval) (\<lambda>nxt.
      bnd (set_stat (tp_stats par) (\<lambda>st. st\<lparr>thread_started := thread_started st + 1\<rparr>)) (\<lambda>_.
      ret \<lparr>tv_stat = tp_stats par, tv_buf = msg_buf, tv_msg_sz = tp_msg_sz par,
           tv_clock = tp_clock par, tv_next = nxt, tv_interval = interval\<rparr>))))"

text \<open>
  Up to the loop.  \<open>Inl None\<close> is the jump to \<open>merr\<close>, \<open>Inl (Some buf)\<close> the one to \<open>out\<close>.
\<close>

definition timer_setup :: "'k kernel \<Rightarrow> ptr \<Rightarrow> ('k, 'm, ptr option + timer_vars) pprog" where
  "timer_setup K param =
     bnd (get_par param) (\<lambda>par.
     bnd (calloc1 K (to_u64 (tp_msg_sz par))) (\<lambda>msg_buf.
     if msg_buf = NULL then
       bnd (eprintf ''ERROR: %s() failed in calloc()'' [PS ''timer_thread'']) (\<lambda>_.
       ret (Inl None))
     else
       bnd (syscall K (Rq_sched_setscheduler (tp_policy par) (tp_prio par))) (\<lambda>err.
       bnd (gets errno) (\<lambda>e.
       bnd (when_do (r_ret err \<noteq> 0)
              (eprintf ''%s(errno:%d): failed to set priority(%d): %s''
                 [PS ''timer_thread'', PI e, PI (tp_prio par)])) (\<lambda>_.
       if r_ret err \<noteq> 0 \<and> e \<noteq> EPERM then ret (Inl (Some msg_buf))
       else bnd (timer_start K par msg_buf) (\<lambda>v. ret (Inr v)))))))"

text \<open>
  One cycle of the loop.  \<open>Inl True\<close> is the jump to \<open>out\<close>, \<open>Inl False\<close> the \<open>break\<close> after the last
  cycle.  Both calls of the clock report their error as \<open>err\<close>.
\<close>

definition timer_error :: "string \<Rightarrow> int \<Rightarrow> ('k, 'm, bool + timer_vars) cprog" where
  "timer_error msg err =
     bnd (gets errno) (\<lambda>e.
     bnd (when_do (err \<noteq> EINTR) (eprintf msg [PI err, PI e])) (\<lambda>_.
     ret (Inl True)))"

definition timer_work ::
  "'k kernel \<Rightarrow> ptr \<Rightarrow> timer_vars \<Rightarrow> timespec \<Rightarrow> ('k, 'm, bool + timer_vars) pprog" where
  "timer_work K param v now =
     bnd (calcdiff now (tv_next v)) (\<lambda>d.
     let diff = to_u64 d in
     bnd (set_stat (tv_stat v) (stat_update diff)) (\<lambda>_.
     bnd (fill_buf_pktgen (tv_buf v) (tv_msg_sz v) now (ucast diff)) (\<lambda>_.
     bnd (get_par param) (\<lambda>par.
     bnd (socket_send K (tp_sockfd par) (tv_buf v) (tv_msg_sz v) (tp_batch par)) (\<lambda>_.
     bnd (gets verbose) (\<lambda>vb.
     bnd (get_stat (tv_stat v)) (\<lambda>st.
     bnd (when_do (1 \<le> vb) (printf ''Diff at cycle:%lu min:%ld cur:%ld max:%ld''
            [PI (uint (cycles st)), PI (st_min st), PI (st_act st), PI (st_max st)])) (\<lambda>_.
     bnd (advance (tv_next v) (tv_interval v)) (\<lambda>nxt.
     bnd (get_par param) (\<lambda>par.
     if tp_max_cycles par \<noteq> 0 \<and> tp_max_cycles par = cycles st then ret (Inl False)
     else ret (Inr (v\<lparr>tv_next := nxt\<rparr>))))))))))))"

definition timer_cycle :: "'k kernel \<Rightarrow> ptr \<Rightarrow> timer_vars \<Rightarrow> ('k, 'm, bool + timer_vars) pprog" where
  "timer_cycle K param v =
     bnd (syscall K (Rq_clock_nanosleep (tv_clock v) (tv_next v))) (\<lambda>r1.
     if r_ret r1 \<noteq> 0 then timer_error ''clock_nanosleep failed. err:%d errno:%d'' (r_ret r1)
     else
     bnd (syscall K (Rq_clock_gettime (tv_clock v))) (\<lambda>r2.
     if r_ret r2 \<noteq> 0 then timer_error ''clock_getttime() failed. err:%d errno:%d'' (r_ret r2)
     else timer_work K param v (r_time r2)))"

definition timer_merr :: "ptr \<Rightarrow> ('k, 'm, unit) pprog" where
  "timer_merr st =
     bnd (modify (\<lambda>w. w\<lparr>shutdown_global := 1\<rparr>)) (\<lambda>_.
     set_stat st (\<lambda>s. s\<lparr>thread_started := - 1\<rparr>))"

definition timer_out :: "ptr \<Rightarrow> ptr \<Rightarrow> ('k, 'm, unit) pprog" where
  "timer_out st buf = bnd (free buf) (\<lambda>_. timer_merr st)"

definition timer_report :: "ptr \<Rightarrow> ('k, 'm, unit) pprog" where
  "timer_report p =
     bnd (get_stat p) (\<lambda>st.
     printf ''Thread ended stats: cycles:%lu min:%ld max:%ld''
       [PI (uint (cycles st)), PI (st_min st), PI (st_max st)])"

text \<open>
  The thread as a sequence of steps, each with at most one read or write of what it shares with the
  main thread, apart from the structure \<open>thread_stat\<close>, whose only field the main thread looks at is
  \<open>thread_started\<close>.
\<close>

datatype thread_pc =
  T_setup
| T_loop timer_vars
| T_ended ptr ptr
| T_out ptr ptr
| T_merr ptr
| T_done

definition thread_step :: "'k kernel \<Rightarrow> ptr \<Rightarrow> thread_pc \<Rightarrow> ('k, 'm, thread_pc) pprog" where
  "thread_step K param pc = (case pc of
       T_setup \<Rightarrow>
         bnd (timer_setup K param) (\<lambda>x.
         bnd (get_par param) (\<lambda>par.
         ret (case x of
                Inl None \<Rightarrow> T_merr (tp_stats par)
              | Inl (Some buf) \<Rightarrow> T_out (tp_stats par) buf
              | Inr v \<Rightarrow> T_loop v)))
     | T_loop v \<Rightarrow>
         bnd (gets shutdown_global) (\<lambda>g.
         if g \<noteq> 0 then ret (T_ended (tv_stat v) (tv_buf v))
         else
           bnd (timer_cycle K param v) (\<lambda>x.
           ret (case x of
                  Inl True \<Rightarrow> T_out (tv_stat v) (tv_buf v)
                | Inl False \<Rightarrow> T_ended (tv_stat v) (tv_buf v)
                | Inr v' \<Rightarrow> T_loop v')))
     | T_ended st buf \<Rightarrow> bnd (timer_report st) (\<lambda>_. ret (T_out st buf))
     | T_out st buf \<Rightarrow> bnd (timer_out st buf) (\<lambda>_. ret T_done)
     | T_merr st \<Rightarrow> bnd (timer_merr st) (\<lambda>_. ret T_done)
     | T_done \<Rightarrow> ret T_done)"

subsection \<open>The main thread\<close>

definition pacer_mem_error :: "('k, 'm, 'a) cprog" where
  "pacer_mem_error =
     bnd (eprintf ''%s(): Mem alloc error'' [PS ''setup_pthread'']) (\<lambda>_.
     exit_with EXIT_FAIL_MEM)"

definition pthread_par :: "cfg_params \<Rightarrow> ptr \<Rightarrow> thread_param" where
  "pthread_par cfg st = \<lparr>tp_stats = st, tp_sockfd = pc_sockfd cfg, tp_batch = pc_batch cfg,
     tp_msg_sz = pc_msg_sz cfg, tp_clock = CLOCK_MONOTONIC, tp_interval = pc_interval cfg,
     tp_prio = pc_thread_prio cfg,
     tp_policy = (if pc_thread_prio cfg \<noteq> 0 then SCHED_FIFO else SCHED_OTHER),
     tp_max_cycles = to_u64 (pc_count cfg)\<rparr>"

definition setup_pthread :: "'k kernel \<Rightarrow> cfg_params \<Rightarrow> ('k, 'm, ptr) pprog" where
  "setup_pthread K cfg =
     bnd (calloc1 K (to_u64 sizeof_thread_param)) (\<lambda>par.
     bnd (calloc1 K (to_u64 sizeof_thread_stat)) (\<lambda>st.
     if par = NULL \<or> st = NULL then pacer_mem_error
     else
     bnd (syscall K Rq_pthread_attr_init) (\<lambda>status.
     if r_ret status \<noteq> 0 then
       bnd (printf ''error from pthread_attr_init: %s'' [PI (r_ret status)]) (\<lambda>_.
       exit_with EXIT_FAIL_PTHREAD)
     else
     bnd (touch par sizeof_thread_param) (\<lambda>_.
     bnd (modify (\<lambda>w. w\<lparr>the_par := pthread_par cfg st, the_stat := thread_stat_zero\<rparr>)) (\<lambda>_.
     bnd (set_stat st (\<lambda>s. s\<lparr>st_min := 1000000, st_max := 0, st_avg := Fin 0, thread_started := 1\<rparr>)) (\<lambda>_.
     bnd (syscall K Rq_pthread_create) (\<lambda>status.
     if r_ret status \<noteq> 0 then
       bnd (printf ''Failed to create thread: %s'' [PI (r_ret status)]) (\<lambda>_.
       exit_with EXIT_FAIL_PTHREAD)
     else ret par)))))))"

definition setup_socket :: "'k kernel \<Rightarrow> cfg_params \<Rightarrow> string \<Rightarrow> ('k, 'm, cfg_params) pprog" where
  "setup_socket K p dest_ip_string =
     bnd (setup_sockaddr K (pc_addr_family p) (pc_dest_addr p) dest_ip_string (pc_dest_port p)) (\<lambda>dest.
     bnd (Socket K (pc_addr_family p) SOCK_DGRAM IPPROTO_UDP) (\<lambda>fd.
     bnd (sockaddr_len dest) (\<lambda>len.
     bnd (Connect K fd dest len) (\<lambda>_.
     ret (p\<lparr>pc_dest_addr := dest, pc_sockfd := fd\<rparr>)))))"

definition pacer_init_params :: cfg_params where
  "pacer_init_params = \<lparr>pc_batch = 10, pc_count = 5, pc_msg_sz = 1472,
     pc_interval = DEFAULT_INTERVAL, pc_thread_prio = 0, pc_sockfd = 0, pc_addr_family = AF_INET,
     pc_dest_port = 6666, pc_dest_addr = sockaddr_zero\<rparr>"

definition pacer_option :: "optres \<Rightarrow> cfg_params \<Rightarrow> ('k, 'm, cfg_params) cprog" where
  "pacer_option x p =
     (if opt_is x (CHR ''c'') then bnd (atoi_arg (o_arg x)) (\<lambda>n. ret (p\<lparr>pc_count := n\<rparr>))
      else if opt_is x (CHR ''p'') then
        bnd (atoi_arg (o_arg x)) (\<lambda>n. ret (p\<lparr>pc_dest_port := word_of_int n\<rparr>))
      else if opt_is x (CHR ''P'') then bnd (atoi_arg (o_arg x)) (\<lambda>n. ret (p\<lparr>pc_thread_prio := n\<rparr>))
      else if opt_is x (CHR ''m'') then bnd (atoi_arg (o_arg x)) (\<lambda>n. ret (p\<lparr>pc_msg_sz := n\<rparr>))
      else if opt_is x (CHR ''b'') then bnd (atoi_arg (o_arg x)) (\<lambda>n. ret (p\<lparr>pc_batch := n\<rparr>))
      else if opt_is x (CHR ''s'') then
        bnd (atoi_arg (o_arg x)) (\<lambda>n. ret (p\<lparr>pc_interval := to_u64 n\<rparr>))
      else if opt_is x (CHR ''6'') then ret (p\<lparr>pc_addr_family := AF_INET6\<rparr>)
      else if opt_is x (CHR ''v'') then bnd (set_verbose (o_arg x)) (\<lambda>_. ret p)
      else ret p)"

fun pacer_parse :: "string \<Rightarrow> optres list \<Rightarrow> cfg_params \<Rightarrow> ('k, 'm, int + cfg_params) cprog" where
  "pacer_parse argv0 [] p = ret (Inr p)"
| "pacer_parse argv0 (x # xs) p =
     bnd (pacer_option x p) (\<lambda>p'.
     if opt_is x (CHR ''h'') \<or> opt_is x (CHR ''?'') then
       bnd (pacer_usage argv0) (\<lambda>c. ret (Inl c))
     else pacer_parse argv0 xs p')"

text \<open>
  \<open>main\<close> up to the point where the second thread runs: \<open>Inl\<close> where it returned a status, \<open>Inr\<close> the
  pointer to the thread's parameters.
\<close>

definition pacer_main_setup ::
  "'k kernel \<Rightarrow> string \<Rightarrow> optres list \<Rightarrow> string list \<Rightarrow> ('k, 'm, int + ptr) pprog" where
  "pacer_main_setup K argv0 opts args =
     bnd (pacer_parse argv0 opts pacer_init_params) (\<lambda>x.
     case x of Inl c \<Rightarrow> ret (Inl c) | Inr p \<Rightarrow>
     (case args of
        [] \<Rightarrow>
          bnd (eprintf ''Expected dest IP-address argument after options'' []) (\<lambda>_.
          bnd (pacer_usage argv0) (\<lambda>c. ret (Inl c)))
      | dest_ip_str # _ \<Rightarrow>
          bnd (gets verbose) (\<lambda>v.
          bnd (when_do (0 < v) (printf ''Destination IP:%s port:%d''
                 [PS dest_ip_str, PI (uint (pc_dest_port p))])) (\<lambda>_.
          bnd (setup_socket K p dest_ip_str) (\<lambda>p'.
          bnd (syscall K (Rq_signal SIGINT)) (\<lambda>_.
          bnd (syscall K (Rq_signal SIGTERM)) (\<lambda>_.
          bnd (syscall K (Rq_signal SIGUSR1)) (\<lambda>_.
          bnd (setup_pthread K p') (\<lambda>thread.
          ret (Inr thread))))))))))"

text \<open>
  The rest of \<open>main\<close>, as steps.  \<open>sleep(0.5)\<close> passes the integer 0.  \<open>M_join\<close> is the call of
  \<open>pthread_join\<close>, which returns once the thread has ended.
\<close>

datatype main_pc =
  M_wait
| M_kill
| M_choose
| M_join
| M_free
| M_exit int

definition main_step :: "'k kernel \<Rightarrow> ptr \<Rightarrow> main_pc \<Rightarrow> ('k, 'm, main_pc) pprog" where
  "main_step K thread pc = (case pc of
       M_wait \<Rightarrow>
         bnd (gets shutdown_global) (\<lambda>g.
         if g \<noteq> 0 then bnd (printf ''Main shutdown'' []) (\<lambda>_. ret M_kill)
         else bnd (syscall K (Rq_sleep 0)) (\<lambda>_. ret M_wait))
     | M_kill \<Rightarrow>
         bnd (get_par thread) (\<lambda>par.
         bnd (get_stat (tp_stats par)) (\<lambda>st.
         bnd (when_do (0 < thread_started st)
                (bnd (syscall K (Rq_pthread_kill SIGTERM)) (\<lambda>_. ret ()))) (\<lambda>_.
         ret M_choose)))
     | M_choose \<Rightarrow>
         bnd (get_par thread) (\<lambda>par.
         bnd (get_stat (tp_stats par)) (\<lambda>st.
         ret (if thread_started st \<noteq> 0 then M_join else M_free)))
     | M_join \<Rightarrow> bnd (syscall K Rq_pthread_join) (\<lambda>_. ret M_free)
     | M_free \<Rightarrow>
         bnd (get_par thread) (\<lambda>par.
         bnd (free (tp_stats par)) (\<lambda>_.
         bnd (free thread) (\<lambda>_.
         bnd (printf ''Main exit'' []) (\<lambda>_.
         ret (M_exit EXIT_OK)))))
     | M_exit c \<Rightarrow> ret (M_exit c))"

subsection \<open>The two threads together\<close>

datatype 'w psys = Running main_pc thread_pc 'w | Crashed fault

fun exited :: "main_pc \<Rightarrow> bool" where
  "exited (M_exit _) = True"
| "exited _ = False"

definition main_ready :: "main_pc \<Rightarrow> thread_pc \<Rightarrow> bool" where
  "main_ready m t \<longleftrightarrow> \<not> exited m \<and> (m = M_join \<longrightarrow> t = T_done)"

inductive pstep :: "'k kernel \<Rightarrow> ptr \<Rightarrow> ('k, 'm) pacer_world_scheme psys
    \<Rightarrow> ('k, 'm) pacer_world_scheme psys \<Rightarrow> bool"
  for K param where
  thread: "\<not> exited m \<Longrightarrow> t \<noteq> T_done \<Longrightarrow> thread_step K param t w = (Done t', w') \<Longrightarrow>
     pstep K param (Running m t w) (Running m t' w')"
| main: "main_ready m t \<Longrightarrow> main_step K param m w = (Done m', w') \<Longrightarrow>
     pstep K param (Running m t w) (Running m' t w')"
| signal: "\<not> exited m \<Longrightarrow> sighand K w = (Done (), w') \<Longrightarrow>
     pstep K param (Running m t w) (Running m t w')"
| thread_crash: "\<not> exited m \<Longrightarrow> t \<noteq> T_done \<Longrightarrow> thread_step K param t w = (UB f, w') \<Longrightarrow>
     pstep K param (Running m t w) (Crashed f)"
| main_crash: "main_ready m t \<Longrightarrow> main_step K param m w = (UB f, w') \<Longrightarrow>
     pstep K param (Running m t w) (Crashed f)"

inductive_cases pstepE: "pstep K param (Running m t w) s"

inductive_simps pstep_crashed: "pstep K param (Crashed f) s"

end
