(* ===== verification/UdpPacer_Props.thy ===== *)
theory UdpPacer_Props
  imports UdpPacer UdpSink
begin

text \<open>
  The correctness of \<open>udp_pacer\<close>: normalising and comparing times, the statistics of the wake-up
  delay, the packet header, and, for the two threads and the signal handler in any interleaving, that
  no step has undefined behaviour, that the deadlines never drift, and that the program can always
  run to its end.
\<close>

section \<open>Times\<close>

lemma wp_tsnorm:
  assumes "0 \<le> tv_nsec ts" "- (2 ^ 63) \<le> tv_sec ts" "tv_sec ts + tv_nsec ts div NSEC_PER_SEC < 2 ^ 63"
    and "\<And>t. ts_normal t \<Longrightarrow> ts_ns t = ts_ns ts \<Longrightarrow> tv_sec ts \<le> tv_sec t \<Longrightarrow> Q t w"
  shows "wp (tsnorm ts) Q E w"
  using assms
proof (induction ts rule: tsnorm.induct)
  case (1 ts)
  show ?case
  proof (cases "NSEC_PER_SEC \<le> tv_nsec ts")
    case True
    let ?t = "TimeSpec (tv_sec ts + 1) (tv_nsec ts - NSEC_PER_SEC)"
    have d: "tv_nsec ts div NSEC_PER_SEC = (tv_nsec ts - NSEC_PER_SEC) div NSEC_PER_SEC + 1"
      using div_add_self2 [of NSEC_PER_SEC "tv_nsec ts - NSEC_PER_SEC"] by (simp add: NSEC_PER_SEC_def)
    have nn: "0 \<le> (tv_nsec ts - NSEC_PER_SEC) div NSEC_PER_SEC"
      using True by (simp add: NSEC_PER_SEC_def pos_imp_zdiv_nonneg_iff)
    have i64: "is_i64 (tv_sec ts + 1)" using "1.prems" d nn by (simp add: is_i64_def)
    have "wp (tsnorm ?t) Q E w"
      using "1.prems" True d
      by (intro "1.IH") (simp_all add: ts_ns_def NSEC_PER_SEC_def)
    then show ?thesis using True i64 by (subst tsnorm.simps) (simp add: wp_simps)
  next
    case False
    then have "ts_normal ts" using "1.prems"(1) by (simp add: ts_normal_def NSEC_PER_SEC_def)
    with False "1.prems"(4) show ?thesis by (subst tsnorm.simps) (simp add: wp_simps)
  qed
qed

lemma interval_of_normal: "ts_normal (interval_of u)"
  and interval_of_ns: "ts_ns (interval_of u) = uint u * 1000"
  and interval_of_sec: "0 \<le> tv_sec (interval_of u)" "tv_sec (interval_of u) = uint u div 1000000"
proof -
  have s: "uint (u div to_u64 USEC_PER_SEC) = uint u div 1000000"
    by (simp add: to_u64_def USEC_PER_SEC_def uint_div)
  have m: "uint (u mod to_u64 USEC_PER_SEC) = uint u mod 1000000"
    by (simp add: to_u64_def USEC_PER_SEC_def uint_mod)
  have le: "uint u mod 1000000 < 1000000" "0 \<le> uint u mod 1000000" "0 \<le> uint u div 1000000"
    by (simp_all add: pos_imp_zdiv_nonneg_iff)
  have "uint (u mod to_u64 USEC_PER_SEC * 1000) = uint u mod 1000000 * 1000"
    using le m by (subst uint_mult_lem [THEN iffD1]) (simp_all add: m)
  moreover have "uint u = 1000000 * (uint u div 1000000) + uint u mod 1000000" by simp
  ultimately show "ts_normal (interval_of u)" "ts_ns (interval_of u) = uint u * 1000"
    "0 \<le> tv_sec (interval_of u)" "tv_sec (interval_of u) = uint u div 1000000"
    using s le
    by (simp_all only: interval_of_def ts_normal_def ts_ns_def timespec.sel) linarith+
qed

text \<open>Moving a deadline on by one interval.\<close>

lemma wp_advance:
  assumes n: "ts_normal nxt" "ts_normal iv" and s: "0 \<le> tv_sec nxt" "0 \<le> tv_sec iv"
    and le: "tv_sec nxt + tv_sec iv < 2 ^ 62"
    and Q: "\<And>t. ts_normal t \<Longrightarrow> ts_ns t = ts_ns nxt + ts_ns iv \<Longrightarrow> 0 \<le> tv_sec t \<Longrightarrow> Q t w"
  shows "wp (advance nxt iv) Q E w"
proof -
  have ns: "0 \<le> tv_nsec nxt + tv_nsec iv" "tv_nsec nxt + tv_nsec iv < 2000000000"
    using n by (simp_all add: ts_normal_def)
  have q: "(tv_nsec nxt + tv_nsec iv) div NSEC_PER_SEC \<le> 1"
    using zdiv_mono1 [of "tv_nsec nxt + tv_nsec iv" 1999999999 NSEC_PER_SEC] ns
    by (simp add: NSEC_PER_SEC_def)
  show ?thesis
    unfolding advance_def using assms ns q
    by (auto simp: wp_simps is_i64_def ts_ns_def intro!: wp_tsnorm)
qed

lemma ts_ns_less_iff: "ts_normal t \<Longrightarrow> ts_ns t < b * 1000000000 \<longleftrightarrow> tv_sec t < b"
  by (auto simp: ts_normal_def ts_ns_def)

lemma ts_ns_nonneg: "ts_normal t \<Longrightarrow> 0 \<le> tv_sec t \<Longrightarrow> 0 \<le> ts_ns t"
  by (auto simp: ts_normal_def ts_ns_def)

lemma calcdiff_value:
  assumes "ts_normal t1" "ts_normal t2" "0 \<le> tv_sec t1" "tv_sec t1 < 2 ^ 31" "0 \<le> tv_sec t2" "tv_sec t2 < 2 ^ 31"
  shows "calcdiff t1 t2 = ret (1000000 * (tv_sec t1 - tv_sec t2) + cdiv (tv_nsec t1 - tv_nsec t2) 1000)"
  using assms
  by (simp add: calcdiff_def chk_i32_def is_i32_def INT_MIN_def INT_MAX_def ts_normal_def USEC_PER_SEC_def
      fun_eq_iff bnd_def)

section \<open>Properties of the operations\<close>

text \<open>
  C30.  \<open>tsnorm\<close> ends and normalises.  For a time with a non-negative nanosecond part whose seconds
  have room for the carry, the loop ends with a normal time of the same number of nanoseconds.
\<close>

theorem tsnorm_normalises:
  assumes "0 \<le> tv_nsec ts" "- (2 ^ 63) \<le> tv_sec ts" "tv_sec ts + tv_nsec ts div NSEC_PER_SEC < 2 ^ 63"
  shows "\<exists>t. tsnorm ts w = (Done t, w) \<and> ts_normal t \<and> ts_ns t = ts_ns ts"
proof -
  have "wp (tsnorm ts) (\<lambda>t w'. w' = w \<and> ts_normal t \<and> ts_ns t = ts_ns ts) (\<lambda>_ _. False) w"
    using assms by (rule wp_tsnorm) simp
  then show ?thesis by (cases rule: wp_cases) auto
qed

theorem tsnorm_normalises_witness:
  "\<exists>t. tsnorm (TimeSpec 7 2500000000) () = (Done t, ()) \<and> ts_normal t \<and> ts_ns t = 9500000000"
  using tsnorm_normalises [of "TimeSpec 7 2500000000" "()"] by (simp add: NSEC_PER_SEC_def ts_ns_def)

text \<open>
  \<open>calcdiff\<close> is exact to the microsecond.  For normal times of less than \<open>2 ^ 31\<close> seconds it
  returns, its result differs from the true difference by less than a microsecond, and it is not
  negative where the first time is not before the second.
\<close>

theorem calcdiff_accurate:
  assumes t: "ts_normal t1" "ts_normal t2" and s: "0 \<le> tv_sec t1" "tv_sec t1 < 2 ^ 31" "0 \<le> tv_sec t2" "tv_sec t2 < 2 ^ 31"
  shows "\<exists>d. calcdiff t1 t2 w = (Done d, w) \<and> \<bar>1000 * d - (ts_ns t1 - ts_ns t2)\<bar> < 1000
    \<and> (t2 \<le> t1 \<longrightarrow> 0 \<le> d)"
proof -
  let ?n = "tv_nsec t1 - tv_nsec t2"
  let ?d = "1000000 * (tv_sec t1 - tv_sec t2) + cdiv ?n 1000"
  have b: "\<bar>?n - cdiv ?n 1000 * 1000\<bar> < 1000" by (rule cdiv_bound) simp
  have e: "1000 * ?d - (ts_ns t1 - ts_ns t2) = - (?n - cdiv ?n 1000 * 1000)"
    by (simp add: ts_ns_def algebra_simps)
  have "0 \<le> ?d" if le: "t2 \<le> t1"
  proof -
    have "0 \<le> ts_ns t1 - ts_ns t2" using le t by (simp add: ts_le_iff_ns)
    then have "- 1000 < 1000 * ?d" using b e by linarith
    then show ?thesis by simp
  qed
  moreover have "calcdiff t1 t2 w = (Done ?d, w)"
    using assms by (simp add: calcdiff_value)
  moreover have "\<bar>1000 * ?d - (ts_ns t1 - ts_ns t2)\<bar> < 1000" unfolding e abs_minus_cancel by (rule b)
  ultimately show ?thesis by blast
qed

theorem calcdiff_accurate_witness:
  "\<exists>d. calcdiff (TimeSpec 11 50) (TimeSpec 10 999999000) () = (Done d, ()) \<and> \<bar>1000 * d - 1050\<bar> < 1000 \<and> 0 \<le> d"
  using calcdiff_accurate [of "TimeSpec 11 50" "TimeSpec 10 999999000" "()"]
  by (auto simp: ts_normal_def ts_ns_def less_eq_timespec_def)

text \<open>
  The statistics of a sequence of delays, and what they are meant to be.
\<close>

definition stats_after :: "int list \<Rightarrow> thread_stat \<Rightarrow> thread_stat" where
  "stats_after ds st = foldl (\<lambda>st d. stat_update (to_u64 d) st) st ds"






text \<open>
  A wake-up before the deadline spoils the maximum.  The delay is then negative, the comparison
  with the maximum is unsigned and takes it for a huge number: the negative delay becomes the maximum,
  and stays so for all later delays that are not negative.  The minimum never shows it.
\<close>

theorem early_wakeup_spoils_max:
  assumes d: "- (2 ^ 63) \<le> d" "d < 0" and st: "0 \<le> st_max st" "st_max st < 2 ^ 63" "0 \<le> st_min st" "st_min st < 2 ^ 63"
    and later: "\<forall>e \<in> set es. 0 \<le> e \<and> e < 2 ^ 63"
  shows "st_max (stats_after (d # es) st) = d \<and> 0 \<le> st_min (stats_after (d # es) st)"
proof -
  have sd: "sint (to_u64 d) = d"
    using d by (simp add: to_u64_def sint_sbintrunc' signed_take_bit_int_eq_self)
  have gt: "to_u64 x < to_u64 d" if "0 \<le> x" "x < 2 ^ 63" for x
    using d that uint_to_u64 [of x] uint_to_u64_neg [of d] by (simp add: word_less_def)
  have "st_max (stats_after es st') = d \<and> 0 \<le> st_min (stats_after es st')"
    if "st_max st' = d" "0 \<le> st_min st'" "st_min st' < 2 ^ 63" for st'
    using later that
  proof (induction es arbitrary: st')
    case (Cons e es)
    let ?s = "stat_update (to_u64 e) st'"
    have se: "sint (to_u64 e) = e"
      using Cons.prems(1) by (simp add: to_u64_def sint_sbintrunc' signed_take_bit_int_eq_self)
    have "\<not> to_u64 d < to_u64 e" using gt [of e] Cons.prems(1) by simp
    then have "st_max ?s = d \<and> 0 \<le> st_min ?s \<and> st_min ?s < 2 ^ 63"
      using Cons.prems se by (simp add: stat_update_def Let_def)
    with Cons.IH [of ?s] Cons.prems(1) show ?case by (simp add: stats_after_def)
  qed (simp add: stats_after_def)
  moreover have "st_max (stat_update (to_u64 d) st) = d \<and> st_min (stat_update (to_u64 d) st) = st_min st"
    using gt [of "st_max st"] gt [of "st_min st"] st sd by (auto simp: stat_update_def Let_def)
  ultimately show ?thesis using st by (simp add: stats_after_def)
qed

theorem early_wakeup_spoils_max_witness:
  "st_max (stats_after [- 3, 60, 71] (thread_stat_zero\<lparr>st_min := 1000000\<rparr>)) = - 3"
  using early_wakeup_spoils_max [of "- 3" "thread_stat_zero\<lparr>st_min := 1000000\<rparr>" "[60, 71]"]
  by (simp add: thread_stat_zero_def)

text \<open>
  The header the pacer writes: every field in network byte order.
\<close>

definition pacer_hdr :: "timespec \<Rightarrow> u32 \<Rightarrow> pktgen_hdr" where
  "pacer_hdr ts sq = \<lparr>pgh_magic = htonl PKTGEN_MAGIC, seq_num = htonl sq,
     tv_sec32 = htonl (word_of_int (tv_sec ts)), tv_usec32 = htonl (word_of_int (cdiv (tv_nsec ts) 1000))\<rparr>"

text \<open>
  C31.  \<open>fill_buf_pktgen\<close> writes one header at the start of the packet and nothing else, where the
  packet has room for it; does nothing in packets of less than eight bytes; and writes past the end
  of a buffer of eight to fifteen bytes, because its guard compares the length with the size of a
  pointer.
\<close>

theorem fill_buf_pktgen_cases:
  assumes bs: "heap w b = Some bs" "length bs = nat len" and len: "0 \<le> len" "len \<le> INT_MAX"
  shows "(len < 8 \<longrightarrow> fill_buf_pktgen (Ptr b 0) len ts sq w = (Done (), w))
    \<and> (8 \<le> len \<and> len < 16 \<longrightarrow> fst (fill_buf_pktgen (Ptr b 0) len ts sq w) = UB Out_of_bounds)
    \<and> (16 \<le> len \<longrightarrow> fill_buf_pktgen (Ptr b 0) len ts sq w
          = (Done (), set_block b (Some (hdr_bytes (pacer_hdr ts sq) @ drop 16 bs)) w))"
proof -
  have guard: "to_u64 len < to_u64 8 \<longleftrightarrow> len < 8"
    using len by (intro to_u64_less_iff) (auto simp: INT_MAX_def)
  have four: "overwrite (overwrite (overwrite (overwrite bs 8 c) 12 d) 0 a) 4 e = a @ e @ c @ d @ drop 16 bs"
    if "length a = 4" "length e = 4" "length c = 4" "length d = 4" "16 \<le> length bs" for a e c d :: bytes
    using that by (simp add: overwrite_def)
  show ?thesis
    using bs len guard
    by (auto simp: fill_buf_pktgen_def bnd_def store_def four hdr_bytes_def pacer_hdr_def split: if_splits)
qed

theorem fill_buf_pktgen_cases_witness:
  "fst (fill_buf_pktgen (Ptr 0 0) 12 (TimeSpec 1 0) 5 ((boot ())\<lparr>heap := [0 \<mapsto> replicate 12 0]\<rparr>)) = UB Out_of_bounds"
  using fill_buf_pktgen_cases [of "(boot ())\<lparr>heap := [0 \<mapsto> replicate 12 0]\<rparr>" 0 "replicate 12 0" 12 "TimeSpec 1 0" 5]
  by (simp add: INT_MAX_def)

text \<open>
  The receiver misreads the pacer's headers.  The magic number is accepted, but the times are
  compared as they lie in memory: of two packets sent at 255 and at 256 seconds, the later one counts
  as out of order.
\<close>

theorem pacer_header_misread:
  "ntohl (pgh_magic (pacer_hdr ts sq)) = PKTGEN_MAGIC
   \<and> out_of_order (pacer_hdr (TimeSpec 255 n) s) (pacer_hdr (TimeSpec 256 n') s')"
proof -
  have "htonl 256 = (0x10000 :: u32)" "htonl 255 = (0xff000000 :: u32)" by (simp_all add: htonl_def le32_def)
  then show ?thesis by (simp add: pacer_hdr_def out_of_order_def)
qed

section \<open>The invariant\<close>

text \<open>The deadlines the timer thread has slept for, in nanoseconds, in their order.\<close>

fun deadlines :: "(sysreq \<times> sysres) list \<Rightarrow> int list" where
  "deadlines [] = []"
| "deadlines ((Rq_clock_nanosleep _ t, _) # es) = ts_ns t # deadlines es"
| "deadlines (_ # es) = deadlines es"

lemma deadlines_append [simp]: "deadlines (xs @ ys) = deadlines xs @ deadlines ys"
  by (induction xs rule: deadlines.induct) simp_all

definition schedule :: "int \<Rightarrow> int \<Rightarrow> nat \<Rightarrow> int list" where
  "schedule s iv n = map (\<lambda>i. s + (int i + 1) * iv) [0..<n]"

lemma schedule_simps [simp]:
  "schedule s iv 0 = []" "schedule s iv (Suc n) = schedule s iv n @ [s + (int n + 1) * iv]"
  by (simp_all add: schedule_def)

text \<open>What a step leaves alone.\<close>

definition frame :: "('k, 'm) pacer_world_scheme \<Rightarrow> ('k, 'm) pacer_world_scheme \<Rightarrow> bool" where
  "frame w w' \<longleftrightarrow> heap w' = heap w \<and> next_blk w' = next_blk w \<and> the_par w' = the_par w
     \<and> the_stat w' = the_stat w \<and> shutdown_global w' = shutdown_global w
     \<and> deadlines (trace w') = deadlines (trace w)"

lemma pacer_fields [simp]:
  "shutdown_global (after_call K rq w) = shutdown_global w" "shutdown_global (say m w) = shutdown_global w"
  "shutdown_global (set_block b x w) = shutdown_global w" "shutdown_global (new_block bs w) = shutdown_global w"
  "the_par (after_call K rq w) = the_par w" "the_par (say m w) = the_par w"
  "the_par (set_block b x w) = the_par w" "the_par (new_block bs w) = the_par w"
  "the_stat (after_call K rq w) = the_stat w" "the_stat (say m w) = the_stat w"
  "the_stat (set_block b x w) = the_stat w" "the_stat (new_block bs w) = the_stat w"
  by (simp_all add: after_call_def say_def set_block_def new_block_def)

lemma frame_refl [simp]: "frame w w"
  and frame_trans: "frame u v \<Longrightarrow> frame v w \<Longrightarrow> frame u w"
  and frame_say: "frame w (say m w)"
  by (simp_all add: frame_def)

text \<open>The clock: normal times of less than \<open>2 ^ 30\<close> seconds, which is 34 years after the boot.\<close>

definition sane_clock :: "'k kernel \<Rightarrow> bool" where
  "sane_clock K \<longleftrightarrow> (\<forall>rq k. let t = r_time (fst (K rq k)) in
     ts_normal t \<and> 0 \<le> tv_sec t \<and> tv_sec t < 2 ^ 30)"

lemma sane_clockD:
  "sane_clock K \<Longrightarrow> ts_normal (r_time (reply K rq w)) \<and> 0 \<le> tv_sec (r_time (reply K rq w))
     \<and> tv_sec (r_time (reply K rq w)) < 2 ^ 30"
  by (simp add: sane_clock_def reply_def Let_def)

text \<open>
  Usable settings: a bounded number of cycles whose last deadline lies less than \<open>2 ^ 30\<close> seconds
  ahead, and packets that are empty of a header or hold a whole one.
\<close>

definition usable :: "thread_param \<Rightarrow> bool" where
  "usable P \<longleftrightarrow> 0 < tp_max_cycles P
     \<and> (uint (tp_max_cycles P) + 1) * uint (tp_interval P) < 2 ^ 30 * 1000000
     \<and> (0 \<le> tp_msg_sz P \<and> tp_msg_sz P < 8 \<or> 16 \<le> tp_msg_sz P \<and> tp_msg_sz P \<le> INT_MAX)"

abbreviation iv_ns :: "thread_param \<Rightarrow> int" where
  "iv_ns P \<equiv> uint (tp_interval P) * 1000"

definition shared_live :: "ptr \<Rightarrow> thread_param \<Rightarrow> ('k, 'm) pacer_world_scheme \<Rightarrow> bool" where
  "shared_live param P w \<longleftrightarrow> (\<exists>b c x y. param = Ptr b 0 \<and> tp_stats P = Ptr c 0 \<and> b \<noteq> c
     \<and> heap w b = Some x \<and> length x = 48 \<and> heap w c = Some y \<and> length y = 56)"

definition buf_live :: "ptr \<Rightarrow> thread_param \<Rightarrow> ptr \<Rightarrow> ('k, 'm) pacer_world_scheme \<Rightarrow> bool" where
  "buf_live param P buf w \<longleftrightarrow> (\<exists>b z. buf = Ptr b 0 \<and> heap w b = Some z \<and> length z = nat (tp_msg_sz P)
     \<and> (\<forall>a. param \<noteq> Ptr b a \<and> tp_stats P \<noteq> Ptr b a))"

definition on_schedule :: "thread_param \<Rightarrow> ('k, 'm) pacer_world_scheme \<Rightarrow> bool" where
  "on_schedule P w \<longleftrightarrow> (\<exists>s n. deadlines (trace w) = schedule s (iv_ns P) n \<and> n \<le> unat (tp_max_cycles P))"

definition loop_inv :: "thread_param \<Rightarrow> timer_vars \<Rightarrow> ('k, 'm) pacer_world_scheme \<Rightarrow> bool" where
  "loop_inv P v w \<longleftrightarrow> tv_stat v = tp_stats P \<and> tv_msg_sz v = tp_msg_sz P
     \<and> tv_interval v = interval_of (tp_interval P) \<and> cycles (the_stat w) < tp_max_cycles P
     \<and> ts_normal (tv_next v) \<and> 0 \<le> tv_sec (tv_next v)
     \<and> (\<exists>s. 0 \<le> s \<and> s < 2 ^ 30 * 1000000000
          \<and> ts_ns (tv_next v) = s + (uint (cycles (the_stat w)) + 1) * iv_ns P
          \<and> deadlines (trace w) = schedule s (iv_ns P) (unat (cycles (the_stat w))))"

fun thread_inv :: "ptr \<Rightarrow> thread_param \<Rightarrow> thread_pc \<Rightarrow> ('k, 'm) pacer_world_scheme \<Rightarrow> bool" where
  "thread_inv param P T_setup w \<longleftrightarrow> thread_started (the_stat w) = 1 \<and> cycles (the_stat w) = 0
     \<and> deadlines (trace w) = []"
| "thread_inv param P (T_loop v) w \<longleftrightarrow> thread_started (the_stat w) = 2 \<and> buf_live param P (tv_buf v) w
     \<and> loop_inv P v w"
| "thread_inv param P (T_ended st buf) w \<longleftrightarrow> thread_started (the_stat w) = 2 \<and> st = tp_stats P
     \<and> buf_live param P buf w"
| "thread_inv param P (T_out st buf) w \<longleftrightarrow> thread_started (the_stat w) \<in> {1, 2} \<and> st = tp_stats P
     \<and> buf_live param P buf w"
| "thread_inv param P (T_merr st) w \<longleftrightarrow> thread_started (the_stat w) = 1 \<and> st = tp_stats P"
| "thread_inv param P T_done w \<longleftrightarrow> thread_started (the_stat w) = - 1 \<and> shutdown_global w \<noteq> 0"

fun main_inv :: "ptr \<Rightarrow> thread_param \<Rightarrow> main_pc \<Rightarrow> thread_pc \<Rightarrow> ('k, 'm) pacer_world_scheme \<Rightarrow> bool" where
  "main_inv param P M_free t w \<longleftrightarrow> t = T_done \<and> shared_live param P w"
| "main_inv param P (M_exit c) t w \<longleftrightarrow> t = T_done \<and> c = EXIT_OK
     \<and> (\<exists>b b'. param = Ptr b 0 \<and> tp_stats P = Ptr b' 0 \<and> heap w b = None \<and> heap w b' = None)"
| "main_inv param P _ t w \<longleftrightarrow> shared_live param P w"

fun psys_inv :: "ptr \<Rightarrow> thread_param \<Rightarrow> ('k, 'm) pacer_world_scheme psys \<Rightarrow> bool" where
  "psys_inv param P (Running m t w) \<longleftrightarrow> the_par w = P \<and> wf_heap w \<and> on_schedule P w
     \<and> thread_inv param P t w \<and> main_inv param P m t w"
| "psys_inv param P (Crashed f) \<longleftrightarrow> False"

section \<open>The steps of the timer thread\<close>

lemma wp_shared:
  assumes "shared_live param P w"
  shows "wp (get_par param) Q E w = Q (the_par w) w"
    and "wp (get_stat (tp_stats P)) S E w = S (the_stat w) w"
    and "wp (set_stat (tp_stats P) f) R E w = R () (w\<lparr>the_stat := f (the_stat w)\<rparr>)"
  using assms
  by (auto simp: shared_live_def get_par_def get_stat_def set_stat_def wp_simps c_consts)

lemma shared_live_upd [simp]:
  "shared_live param P (w\<lparr>the_stat := s\<rparr>) = shared_live param P w"
  "shared_live param P (w\<lparr>shutdown_global := g\<rparr>) = shared_live param P w"
  "shared_live param P (say m w) = shared_live param P w"
  "shared_live param P (after_call K rq w) = shared_live param P w"
  "buf_live param P b (w\<lparr>the_stat := s\<rparr>) = buf_live param P b w"
  "buf_live param P b (w\<lparr>shutdown_global := g\<rparr>) = buf_live param P b w"
  "buf_live param P b (say m w) = buf_live param P b w"
  "buf_live param P b (after_call K rq w) = buf_live param P b w"
  "wf_heap (w\<lparr>the_stat := s\<rparr>) = wf_heap w" "wf_heap (w\<lparr>shutdown_global := g\<rparr>) = wf_heap w"
  "wf_heap (say m w) = wf_heap w" "wf_heap (after_call K rq w) = wf_heap w"
  "on_schedule P (w\<lparr>the_stat := s\<rparr>) = on_schedule P w"
  "on_schedule P (w\<lparr>shutdown_global := g\<rparr>) = on_schedule P w"
  "on_schedule P (say m w) = on_schedule P w"
  by (simp_all add: shared_live_def buf_live_def wf_heap_def on_schedule_def)

lemma live_frame:
  assumes "frame w w'"
  shows "shared_live param P w' = shared_live param P w" "buf_live param P b w' = buf_live param P b w"
    "wf_heap w' = wf_heap w" "on_schedule P w' = on_schedule P w"
  using assms by (simp_all add: frame_def shared_live_def buf_live_def wf_heap_def on_schedule_def)

lemma wp_socket_send:
  assumes buf: "buf_live param P buf w" and sz: "usable P"
    and Q: "\<And>r w'. frame w w' \<Longrightarrow> Q r w'"
  shows "wp (socket_send K fd buf (tp_msg_sz P) n) Q E w"
proof -
  from buf obtain b z where b: "buf = Ptr b 0" "heap w b = Some z" "length z = nat (tp_msg_sz P)"
    by (auto simp: buf_live_def)
  have n: "uint (to_u64 (tp_msg_sz P)) = tp_msg_sz P" "0 \<le> tp_msg_sz P"
    using sz by (auto simp: usable_def INT_MAX_def intro!: uint_to_u64)
  have "wp (for_break 0 n (\<lambda>cnt tot.
            bnd (load buf (uint (to_u64 (tp_msg_sz P)))) (\<lambda>data.
            bnd (syscall K (Rq_send fd data 0)) (\<lambda>res.
            if r_ret res < 0 then
              bnd (eprintf ''Managed to send %d packets'' [PI cnt]) (\<lambda>_.
              bnd (perror ''- send'') (\<lambda>_.
              ret (Inl (r_ret res))))
            else ret (Inr (tot + to_u64 (r_ret res)))))) (0 :: u64)) (\<lambda>_ w'. frame w w') E w"
    by (rule wp_for_break [where I = "\<lambda>_ _ w'. frame w w'"])
      (use b n in \<open>auto simp: wp_simps frame_def\<close>)
  then show ?thesis
    unfolding socket_send_def by (auto simp: wp_simps intro: Q elim!: wp_conseq)
qed

lemma wp_fill_buf_pktgen:
  assumes buf: "buf_live param P buf w" and sz: "usable P"
    and Q: "\<And>w'. buf_live param P buf w' \<Longrightarrow> shared_live param P w' = shared_live param P w \<Longrightarrow>
      wf_heap w' = wf_heap w \<Longrightarrow> the_par w' = the_par w \<Longrightarrow> the_stat w' = the_stat w \<Longrightarrow>
      shutdown_global w' = shutdown_global w \<Longrightarrow> trace w' = trace w \<Longrightarrow> Q () w'"
  shows "wp (fill_buf_pktgen buf (tp_msg_sz P) ts sq) Q E w"
proof -
  from buf obtain b z where b: "buf = Ptr b 0" "heap w b = Some z" "length z = nat (tp_msg_sz P)"
    "\<And>a. param \<noteq> Ptr b a" "\<And>a. tp_stats P \<noteq> Ptr b a"
    by (auto simp: buf_live_def)
  have post: "Q () (set_block b (Some z') w)" if "length z' = length z" for z'
    using b that by (intro Q) (auto simp: buf_live_def shared_live_def wf_heap_def, metis)+
  have guard: "to_u64 (tp_msg_sz P) < to_u64 8 \<longleftrightarrow> tp_msg_sz P < 8"
    using sz by (intro to_u64_less_iff) (auto simp: usable_def INT_MAX_def)
  show ?thesis
  proof (cases "tp_msg_sz P < 8")
    case True
    then show ?thesis
      using guard post [of z] b(2) by (simp add: fill_buf_pktgen_def wp_simps set_block_same del: ret_run)
  next
    case False
    then have len: "16 \<le> length z" using sz b(3) by (auto simp: usable_def)
    show ?thesis
      using False guard b(1,2) len post
      by (simp add: fill_buf_pktgen_def wp_simps)
  qed
qed

lemma usable_interval: "usable P \<Longrightarrow> uint (tp_interval P) < 2 ^ 30 * 1000000"
proof -
  assume "usable P"
  then have b: "(uint (tp_max_cycles P) + 1) * uint (tp_interval P) < 2 ^ 30 * 1000000"
    by (simp add: usable_def)
  have "1 * uint (tp_interval P) \<le> (uint (tp_max_cycles P) + 1) * uint (tp_interval P)"
    by (intro mult_right_mono) simp_all
  with b show ?thesis by linarith
qed

lemma interval_sec_bound: "usable P \<Longrightarrow> tv_sec (interval_of (tp_interval P)) < 2 ^ 30"
  using usable_interval [of P] zdiv_mono1 [of "uint (tp_interval P)" "2 ^ 30 * 1000000 - 1" 1000000]
  by (simp add: interval_of_sec)

lemma next_sec_bound:
  assumes u: "usable P" and inv: "loop_inv P v w"
  shows "tv_sec (tv_next v) < 2 ^ 31"
proof -
  let ?c = "uint (cycles (the_stat w))"
  obtain s where s: "0 \<le> s" "s < 2 ^ 30 * 1000000000" "ts_ns (tv_next v) = s + (?c + 1) * iv_ns P"
    and n: "ts_normal (tv_next v)" using inv by (auto simp: loop_inv_def)
  have "?c \<le> uint (tp_max_cycles P)"
    using inv by (simp add: loop_inv_def word_less_def)
  then have "(?c + 1) * uint (tp_interval P) \<le> (uint (tp_max_cycles P) + 1) * uint (tp_interval P)"
    by (intro mult_right_mono) simp_all
  also have "\<dots> < 2 ^ 30 * 1000000" using u by (simp add: usable_def)
  finally have "(?c + 1) * iv_ns P < 2 ^ 30 * 1000000000" by (simp add: mult.commute)
  with s(2) have "ts_ns (tv_next v) < 2 ^ 30 * 1000000000 + 2 ^ 30 * 1000000000"
    unfolding s(3) by (rule add_strict_mono)
  then have "ts_ns (tv_next v) < 2 ^ 31 * 1000000000" by simp
  then show ?thesis using n by (simp only: ts_ns_less_iff)
qed

lemma stat_update_fields [simp]:
  "thread_started (stat_update d st) = thread_started st" "cycles (stat_update d st) = cycles st + 1"
  by (simp_all add: stat_update_def Let_def)

lemma unat_inc:
  fixes x y :: "'a::len word"
  assumes "x < y"
  shows "unat (x + 1) = Suc (unat x)"
proof -
  have "unat y < 2 ^ LENGTH('a)" "unat x < unat y" using assms by (simp_all add: word_less_nat_alt)
  then have "Suc (unat x) < 2 ^ LENGTH('a)" by linarith
  then show ?thesis by (simp add: unat_word_ariths)
qed

text \<open>What a cycle establishes: it goes on with the next deadline, or it leaves the loop.\<close>

definition cycle_post :: "ptr \<Rightarrow> thread_param \<Rightarrow> ('k, 'm) pacer_world_scheme
    \<Rightarrow> bool + timer_vars \<Rightarrow> ('k, 'm) pacer_world_scheme \<Rightarrow> bool" where
  "cycle_post param P w x w' \<longleftrightarrow> the_par w' = P \<and> wf_heap w' \<and> shared_live param P w' \<and> on_schedule P w'
     \<and> shutdown_global w' = shutdown_global w
     \<and> (case x of
          Inl _ \<Rightarrow> thread_started (the_stat w') = 2
        | Inr v' \<Rightarrow> thread_inv param P (T_loop v') w'
            \<and> unat (cycles (the_stat w')) = Suc (unat (cycles (the_stat w))))"

lemma on_scheduleI: "deadlines (trace w) = schedule s (iv_ns P) n \<Longrightarrow> n \<le> unat (tp_max_cycles P) \<Longrightarrow> on_schedule P w"
  by (auto simp: on_schedule_def)

lemma wp_timer_work:
  assumes now: "ts_normal now" "0 \<le> tv_sec now" "tv_sec now < 2 ^ 30" and u: "usable P"
    and live: "shared_live param P w" "wf_heap w" "buf_live param P (tv_buf v) w"
    and par: "the_par w = P" "thread_started (the_stat w) = 2"
    and v: "tv_stat v = tp_stats P" "tv_msg_sz v = tp_msg_sz P" "tv_interval v = interval_of (tp_interval P)"
      "ts_normal (tv_next v)" "0 \<le> tv_sec (tv_next v)" "tv_sec (tv_next v) < 2 ^ 31"
    and c: "cycles (the_stat w) < tp_max_cycles P"
    and s: "0 \<le> s" "s < 2 ^ 30 * 1000000000"
      "ts_ns (tv_next v) = s + (uint (cycles (the_stat w)) + 1) * iv_ns P"
      "deadlines (trace w) = schedule s (iv_ns P) (Suc (unat (cycles (the_stat w))))"
  shows "wp (timer_work K param v now) (\<lambda>x w'. cycle_post param P w x w' \<and>
      buf_live param P (tv_buf v) w' \<and> (case x of Inl _ \<Rightarrow> True | Inr v' \<Rightarrow> tv_buf v' = tv_buf v)) E w"
    (is "wp _ ?Q E w")
proof -
  let ?c = "unat (cycles (the_stat w))"
  let ?d = "1000000 * (tv_sec now - tv_sec (tv_next v)) + cdiv (tv_nsec now - tv_nsec (tv_next v)) 1000"
  let ?w1 = "w\<lparr>the_stat := stat_update (to_u64 ?d) (the_stat w)\<rparr>"
  have cd: "calcdiff now (tv_next v) = ret ?d"
    using now v(4-6) by (intro calcdiff_value) simp_all
  have Suc_c: "unat (cycles (the_stat w) + 1) = Suc ?c" using c by (rule unat_inc)
  have uc: "uint (cycles (the_stat w) + 1) = uint (cycles (the_stat w)) + 1"
    using arg_cong [OF Suc_c, of int] by simp
  have cN: "Suc ?c \<le> unat (tp_max_cycles P)" using c by (simp add: word_less_nat_alt)
  have last: "cycles (the_stat w) + 1 \<noteq> tp_max_cycles P \<Longrightarrow> cycles (the_stat w) + 1 < tp_max_cycles P"
    using cN Suc_c by (metis le_neq_implies_less word_less_nat_alt word_unat_eq_iff)
  have tail: "wp (bnd (gets verbose) (\<lambda>vb.
     bnd (get_stat (tv_stat v)) (\<lambda>st.
     bnd (when_do (1 \<le> vb) (printf ''Diff at cycle:%lu min:%ld cur:%ld max:%ld''
            [PI (uint (cycles st)), PI (st_min st), PI (st_act st), PI (st_max st)])) (\<lambda>_.
     bnd (advance (tv_next v) (tv_interval v)) (\<lambda>nxt.
     bnd (get_par param) (\<lambda>par.
     if tp_max_cycles par \<noteq> 0 \<and> tp_max_cycles par = cycles st then ret (Inl False)
     else ret (Inr (v\<lparr>tv_next := nxt\<rparr>))))))))  ?Q E u"
    if uu: "buf_live param P (tv_buf v) u" "shared_live param P u" "wf_heap u" "the_par u = P"
      "the_stat u = the_stat ?w1" "shutdown_global u = shutdown_global w"
      "deadlines (trace u) = schedule s (iv_ns P) (Suc ?c)" for u
  proof -
    have ns: "ts_ns t = s + (uint (cycles (the_stat w) + 1) + 1) * iv_ns P" if "ts_ns t = ts_ns (tv_next v) + ts_ns (tv_interval v)" for t
      using that s(3) v(3) uc by (simp add: interval_of_ns algebra_simps)
    have os: "on_schedule P u" using uu(7) cN by (rule on_scheduleI)
    have sec: "tv_sec (tv_next v) + tv_sec (tv_interval v) < 2 ^ 62"
      using v(3,6) interval_sec_bound [OF u] by simp
    have "wp (advance (tv_next v) (tv_interval v)) (\<lambda>nxt. wp (bnd (get_par param) (\<lambda>par.
       if tp_max_cycles par \<noteq> 0 \<and> tp_max_cycles par = cycles (the_stat ?w1) then ret (Inl False)
       else ret (Inr (v\<lparr>tv_next := nxt\<rparr>)))) ?Q E) E u'"
      if u': "frame u u'" for u'
    proof (rule wp_advance)
      fix t assume t: "ts_normal t" "ts_ns t = ts_ns (tv_next v) + ts_ns (tv_interval v)" "0 \<le> tv_sec t"
      have sl: "shared_live param P u'" using uu(2) live_frame [OF u'] by simp
      show "wp (bnd (get_par param) (\<lambda>par.
       if tp_max_cycles par \<noteq> 0 \<and> tp_max_cycles par = cycles (the_stat ?w1) then ret (Inl False)
       else ret (Inr (v\<lparr>tv_next := t\<rparr>)))) ?Q E u'"
        using uu os u' live_frame [OF u'] sl t ns [OF t(2)] Suc_c uc cN last v par s(1,2) c
        by (auto simp: wp_simps wp_shared [OF sl] cycle_post_def frame_def loop_inv_def
            intro!: exI [of _ s])
    qed (use v sec interval_of_normal interval_of_sec in simp_all)
    then show ?thesis
      unfolding v(1) using uu by (simp add: wp_simps wp_shared [OF uu(2)] frame_say)
  qed
  have "wp (fill_buf_pktgen (tv_buf v) (tp_msg_sz P) now sq) (\<lambda>_. wp (bnd (get_par param) (\<lambda>par.
      bnd (socket_send K (tp_sockfd par) (tv_buf v) (tp_msg_sz P) (tp_batch par)) (\<lambda>_. tail_prog))) ?Q E) E ?w1"
    if "\<And>u. buf_live param P (tv_buf v) u \<Longrightarrow> shared_live param P u \<Longrightarrow> wf_heap u \<Longrightarrow> the_par u = P \<Longrightarrow>
      the_stat u = the_stat ?w1 \<Longrightarrow> shutdown_global u = shutdown_global w \<Longrightarrow>
      deadlines (trace u) = schedule s (iv_ns P) (Suc ?c) \<Longrightarrow> wp tail_prog ?Q E u" for tail_prog sq
  proof (rule wp_fill_buf_pktgen [where P = P and param = param], goal_cases)
    case (3 w2)
    have sl: "shared_live param P w2" using 3 live by simp
    show ?case
      unfolding wp_bnd wp_shared(1) [OF sl]
      by (rule wp_socket_send [OF 3(1) u], rule that)
        (use 3 live par s(4) in \<open>auto simp: frame_def wf_heap_def shared_live_def buf_live_def\<close>)
  qed (use live u in simp_all)
  note send = this
  show ?thesis
    unfolding timer_work_def cd bnd_ret Let_def v(1,2)
    by (subst wp_bnd, subst wp_shared(3) [OF live(1)], subst wp_bnd) (rule send, rule tail [unfolded v(1)])
qed

lemma wp_timer_cycle:
  assumes K: "sane_clock K" and u: "usable P" and live: "shared_live param P w" "wf_heap w"
    and par: "the_par w = P" and inv: "thread_inv param P (T_loop v) w"
  shows "wp (timer_cycle K param v) (\<lambda>x w'. cycle_post param P w x w' \<and>
      buf_live param P (tv_buf v) w' \<and> (case x of Inl _ \<Rightarrow> True | Inr v' \<Rightarrow> tv_buf v' = tv_buf v)) E w"
    (is "wp _ ?Q E w")
proof -
  let ?c = "unat (cycles (the_stat w))" and ?gt = "Rq_clock_gettime (tv_clock v)"
  let ?w1 = "after_call K (Rq_clock_nanosleep (tv_clock v) (tv_next v)) w"
  let ?w2 = "after_call K ?gt ?w1"
  from inv obtain s where s: "0 \<le> s" "s < 2 ^ 30 * 1000000000"
      "ts_ns (tv_next v) = s + (uint (cycles (the_stat w)) + 1) * iv_ns P" "deadlines (trace w) = schedule s (iv_ns P) ?c"
    and v: "tv_stat v = tp_stats P" "tv_msg_sz v = tp_msg_sz P" "tv_interval v = interval_of (tp_interval P)"
      "ts_normal (tv_next v)" "0 \<le> tv_sec (tv_next v)" "cycles (the_stat w) < tp_max_cycles P"
    and st: "thread_started (the_stat w) = 2" "buf_live param P (tv_buf v) w"
    and li: "loop_inv P v w"
    by (auto simp: loop_inv_def)
  have cN: "Suc ?c \<le> unat (tp_max_cycles P)" using v(6) by (simp add: word_less_nat_alt)
  have err: "wp (timer_error msg e) ?Q E u"
    if "heap u = heap w" "next_blk u = next_blk w" "the_par u = P" "the_stat u = the_stat w"
      "shutdown_global u = shutdown_global w" "deadlines (trace u) = schedule s (iv_ns P) (Suc ?c)" for msg e u
    using that live st cN
    by (auto simp: timer_error_def wp_simps cycle_post_def wf_heap_def shared_live_def buf_live_def
        intro!: on_scheduleI)
  have work: "wp (timer_work K param v (r_time (reply K ?gt ?w1))) ?Q E ?w2"
    using sane_clockD [OF K, of ?gt ?w1] next_sec_bound [OF u li] live st par s v u
      wp_timer_work [of "r_time (reply K ?gt ?w1)" P param ?w2 v s K E]
    by (simp add: wf_heap_def cycle_post_def cong: sum.case_cong)
  show ?thesis
    unfolding timer_cycle_def using par work s by (simp add: wp_simps err)
qed

lemma live_new_block:
  assumes live: "shared_live param P w" "wf_heap w"
    and u: "heap u = (heap w)(next_blk w \<mapsto> z)" "next_blk u = Suc (next_blk w)" "length z = nat (tp_msg_sz P)"
  shows "shared_live param P u \<and> wf_heap u \<and> buf_live param P (Ptr (next_blk w) 0) u"
proof -
  from live(1) obtain b c x y where b: "param = Ptr b 0" "tp_stats P = Ptr c 0" "b \<noteq> c"
    "heap w b = Some x" "length x = 48" "heap w c = Some y" "length y = 56"
    by (auto simp: shared_live_def)
  have ne: "b \<noteq> next_blk w" "c \<noteq> next_blk w" using b wf_heap_fresh [OF live(2)] by auto
  then have "shared_live param P u" using b u by (simp add: shared_live_def)
  moreover have "wf_heap u" using live(2) u by (simp add: wf_heap_def)
  moreover have "buf_live param P (Ptr (next_blk w) 0) u" using b ne u by (simp add: buf_live_def)
  ultimately show ?thesis by simp
qed

lemma on_schedule_0: "deadlines (trace w) = [] \<Longrightarrow> on_schedule P w"
  by (rule on_scheduleI [of _ 0 _ 0]) simp_all

lemma wp_timer_start:
  fixes w :: "('a, 'b) pacer_world_scheme"
  assumes K: "sane_clock K" and u: "usable P" and live: "shared_live param P w" "buf_live param P buf w"
    and st: "thread_started (the_stat w) = 1" "cycles (the_stat w) = 0" "deadlines (trace w) = []"
    and Q: "\<And>v w'. the_par w' = the_par w \<Longrightarrow> wf_heap w' = wf_heap w \<Longrightarrow> shared_live param P w' \<Longrightarrow>
      on_schedule P w' \<Longrightarrow> shutdown_global w' = shutdown_global w \<Longrightarrow>
      thread_inv param P (T_loop v) w' \<Longrightarrow> cycles (the_stat w') = 0 \<Longrightarrow> Q v w'"
  shows "wp (timer_start K P buf) Q E w"
proof -
  let ?gt = "Rq_clock_gettime (tp_clock P)" and ?I = "interval_of (tp_interval P)"
  let ?w1 = "after_call K ?gt w" and ?tm = "r_time (reply K (Rq_clock_gettime (tp_clock P)) w)"
  have tm: "ts_normal ?tm" "0 \<le> tv_sec ?tm" "tv_sec ?tm < 2 ^ 30"
    using sane_clockD [OF K, of ?gt w] by simp_all
  have s: "0 \<le> ts_ns ?tm" "ts_ns ?tm < 2 ^ 30 * 1000000000"
    using tm by (simp_all only: ts_ns_nonneg ts_ns_less_iff)
  have cyc: "0 < tp_max_cycles P" using u by (simp add: usable_def)
  have sl: "shared_live param P ?w1" using live by simp
  have "wp (advance ?tm ?I) (\<lambda>nxt. wp (bnd (set_stat (tp_stats P) (\<lambda>st. st\<lparr>thread_started := thread_started st + 1\<rparr>)) (\<lambda>_.
      ret \<lparr>tv_stat = tp_stats P, tv_buf = buf, tv_msg_sz = tp_msg_sz P,
           tv_clock = tp_clock P, tv_next = nxt, tv_interval = ?I\<rparr>)) Q E) E ?w1"
  proof (rule wp_advance)
    fix t assume t: "ts_normal t" "ts_ns t = ts_ns ?tm + ts_ns ?I" "0 \<le> tv_sec t"
    show "wp (bnd (set_stat (tp_stats P) (\<lambda>st. st\<lparr>thread_started := thread_started st + 1\<rparr>)) (\<lambda>_.
      ret \<lparr>tv_stat = tp_stats P, tv_buf = buf, tv_msg_sz = tp_msg_sz P,
           tv_clock = tp_clock P, tv_next = t, tv_interval = ?I\<rparr>)) Q E ?w1"
      unfolding wp_bnd wp_shared(3) [OF sl] wp_ret
      by (rule Q) (use live st cyc t s in \<open>auto simp: loop_inv_def interval_of_ns intro!: on_schedule_0\<close>)
  qed (use tm interval_of_normal interval_of_sec interval_sec_bound [OF u] in simp_all)
  then show ?thesis by (simp add: timer_start_def Let_def wp_simps)
qed

lemma wp_timer_setup:
  fixes w :: "('a, 'b) pacer_world_scheme"
  assumes K: "sane_clock K" and u: "usable P" and live: "shared_live param P w" "wf_heap w"
    and par: "the_par w = P" and inv: "thread_inv param P T_setup w"
  shows "wp (timer_setup K param) (\<lambda>x w'. the_par w' = P \<and> wf_heap w' \<and> shared_live param P w'
      \<and> on_schedule P w' \<and> shutdown_global w' = shutdown_global w
      \<and> (case x of
           Inl None \<Rightarrow> thread_inv param P (T_merr (tp_stats P)) w'
         | Inl (Some buf) \<Rightarrow> thread_inv param P (T_out (tp_stats P) buf) w'
         | Inr v \<Rightarrow> thread_inv param P (T_loop v) w' \<and> cycles (the_stat w') = 0)) E w"
    (is "wp _ ?Q E w")
proof -
  let ?n = "to_u64 (tp_msg_sz P)"
  let ?w1 = "new_block (replicate (unat ?n) 0) (after_call K (Rq_malloc ?n) w)"
  have "uint ?n = tp_msg_sz P" using u by (auto simp: usable_def INT_MAX_def intro!: uint_to_u64)
  then have n: "unat ?n = nat (tp_msg_sz P)" by (simp only: unat_eq_nat_uint)
  have w1: "shared_live param P ?w1" "wf_heap ?w1" "buf_live param P (Ptr (next_blk w) 0) ?w1"
    using live_new_block [OF live, of ?w1] n by simp_all
  have start: "wp (timer_start K P (Ptr (next_blk w) 0)) (\<lambda>v. ?Q (Inr v)) E v"
    if "heap v = heap ?w1" "next_blk v = next_blk ?w1" "the_par v = P" "the_stat v = the_stat w"
      "shutdown_global v = shutdown_global w" "deadlines (trace v) = []" for v
  proof -
    have "shared_live param P v = shared_live param P ?w1" "wf_heap v = wf_heap ?w1"
      "buf_live param P (Ptr (next_blk w) 0) v = buf_live param P (Ptr (next_blk w) 0) ?w1"
      using that(1,2) by (simp_all add: shared_live_def buf_live_def wf_heap_def)
    with that w1 inv show ?thesis
      by (intro wp_timer_start [OF K u, where param = param]) simp_all
  qed
  show ?thesis
    unfolding timer_setup_def
    using par live inv w1 start
    by (auto simp: wp_simps wp_shared [OF live(1)] intro!: on_schedule_0 simp del: ret_run)
qed

lemma live_free:
  assumes "buf_live param P buf w" "shared_live param P w" "wf_heap w" "on_schedule P w"
    and "\<And>b. buf = Ptr b 0 \<Longrightarrow> shared_live param P (set_block b None w) \<Longrightarrow> wf_heap (set_block b None w) \<Longrightarrow>
      on_schedule P (set_block b None w) \<Longrightarrow> Q () (set_block b None w)"
  shows "wp (free buf) Q E w"
proof -
  from assms(1) obtain b z where b: "buf = Ptr b 0" "heap w b = Some z"
    "\<And>a. param \<noteq> Ptr b a" "\<And>a. tp_stats P \<noteq> Ptr b a" by (auto simp: buf_live_def)
  from assms(2) obtain c d where "param = Ptr c 0" "tp_stats P = Ptr d 0" by (auto simp: shared_live_def)
  with b have "c \<noteq> b" "d \<noteq> b" "param = Ptr c 0" "tp_stats P = Ptr d 0" by auto
  then have "shared_live param P (set_block b None w)" using assms(2) by (auto simp: shared_live_def)
  moreover have "wf_heap (set_block b None w)" using assms(3) by (simp add: wf_heap_def)
  moreover have "on_schedule P (set_block b None w)" using assms(4) by (simp add: on_schedule_def)
  ultimately show ?thesis using assms(5) b by (simp add: wp_simps)
qed

lemma wp_timer_merr:
  assumes "shared_live param P w"
  shows "wp (timer_merr (tp_stats P)) Q E w
    = Q () (w\<lparr>shutdown_global := 1, the_stat := (the_stat w)\<lparr>thread_started := - 1\<rparr>\<rparr>)"
  using assms wp_shared(3) [of param P "w\<lparr>shutdown_global := 1\<rparr>"]
  by (simp add: timer_merr_def wp_simps)

text \<open>The steps the timer thread still has to do, at most.\<close>

fun thread_left :: "thread_param \<Rightarrow> thread_pc \<Rightarrow> ('k, 'm) pacer_world_scheme \<Rightarrow> nat" where
  "thread_left P T_setup w = unat (tp_max_cycles P) + 4"
| "thread_left P (T_loop v) w = unat (tp_max_cycles P) - unat (cycles (the_stat w)) + 3"
| "thread_left P (T_ended st buf) w = 2"
| "thread_left P (T_out st buf) w = 1"
| "thread_left P (T_merr st) w = 1"
| "thread_left P T_done w = 0"

lemma wp_thread_step:
  fixes w :: "('a, 'b) pacer_world_scheme"
  assumes K: "sane_clock K" and u: "usable P" and t: "t \<noteq> T_done" and m: "\<not> exited m"
    and inv: "psys_inv param P (Running m t w)"
  shows "wp (thread_step K param t) (\<lambda>t' w'. psys_inv param P (Running m t' w')
      \<and> thread_left P t' w' < thread_left P t w) (\<lambda>_ _. False) w"
    (is "wp _ ?Q _ w")
proof -
  have w: "the_par w = P" "wf_heap w" "on_schedule P w" "thread_inv param P t w" and mi: "main_inv param P m t w"
    using inv by simp_all
  have sl: "shared_live param P w" using mi t m by (cases m) auto
  have mi': "main_inv param P m t' w'" if "shared_live param P w'" for t' and w' :: "('a, 'b) pacer_world_scheme"
    using mi that t m by (cases m) auto
  have merr: "wp (timer_merr (tp_stats P)) (\<lambda>_ w'. psys_inv param P (Running m T_done w')) (\<lambda>_ _. False) v"
    if "the_par v = P" "wf_heap v" "on_schedule P v" "shared_live param P v" for v :: "('a, 'b) pacer_world_scheme"
    using that unfolding wp_timer_merr [OF that(4)] by (simp add: mi')
  show ?thesis
  proof (cases t)
    case T_setup
    have "wp (timer_setup K param) (\<lambda>x. wp (bnd (get_par param) (\<lambda>par.
         ret (case x of Inl None \<Rightarrow> T_merr (tp_stats par) | Inl (Some buf) \<Rightarrow> T_out (tp_stats par) buf
              | Inr v \<Rightarrow> T_loop v))) ?Q (\<lambda>_ _. False)) (\<lambda>_ _. False) w"
      by (rule wp_conseq [OF wp_timer_setup [OF K u sl w(2,1), where E = "\<lambda>_ _. False"]])
        (use w T_setup mi' in \<open>auto simp: wp_simps wp_shared split: sum.splits option.splits simp del: ret_run\<close>)
    then show ?thesis using T_setup by (simp add: thread_step_def wp_simps)
  next
    case (T_loop v)
    have "wp (timer_cycle K param v) (\<lambda>x. wp (ret (case x of
          Inl True \<Rightarrow> T_out (tv_stat v) (tv_buf v) | Inl False \<Rightarrow> T_ended (tv_stat v) (tv_buf v)
        | Inr v' \<Rightarrow> T_loop v')) ?Q (\<lambda>_ _. False)) (\<lambda>_ _. False) w"
      by (rule wp_conseq [OF wp_timer_cycle [OF K u sl w(2,1), where E = "\<lambda>_ _. False"]])
        (use w T_loop mi' in \<open>auto simp: cycle_post_def loop_inv_def word_less_nat_alt wp_simps split: sum.splits bool.splits simp del: ret_run\<close>)
    then show ?thesis using T_loop w sl by (simp add: thread_step_def wp_simps mi' loop_inv_def)
  next
    case (T_ended st buf)
    then show ?thesis using w sl by (simp add: thread_step_def timer_report_def wp_simps wp_shared [OF sl] mi')
  next
    case (T_out st buf)
    then have "wp (free buf) (\<lambda>_. wp (timer_merr st) (\<lambda>_ w'. psys_inv param P (Running m T_done w')) (\<lambda>_ _. False))
        (\<lambda>_ _. False) w"
      using w sl merr by (intro live_free [where P = P and param = param]) simp_all
    then show ?thesis using T_out by (simp add: thread_step_def timer_out_def wp_simps)
  next
    case (T_merr st)
    then show ?thesis using w sl merr by (simp add: thread_step_def wp_simps)
  qed (use t in simp)
qed

section \<open>The steps of the main thread\<close>

fun main_left :: "main_pc \<Rightarrow> nat" where
  "main_left M_wait = 5"
| "main_left M_kill = 4"
| "main_left M_choose = 3"
| "main_left M_join = 2"
| "main_left M_free = 1"
| "main_left (M_exit c) = 0"

lemma thread_inv_frame: "frame w w' \<Longrightarrow> thread_inv param P t w' = thread_inv param P t w"
  by (cases t) (auto simp: live_frame loop_inv_def, auto simp: frame_def)

lemma main_inv_frame: "frame w w' \<Longrightarrow> main_inv param P m t w' = main_inv param P m t w"
  by (cases m) (auto simp: live_frame, auto simp: frame_def)

lemmas inv_frame = thread_inv_frame main_inv_frame live_frame

lemma inv_say [simp]:
  "thread_inv param P t (say m w) = thread_inv param P t w" "main_inv param P a t (say m w) = main_inv param P a t w"
  by (simp_all add: inv_frame frame_say)

lemma inv_call [simp]:
  assumes "deadlines [(rq, reply K rq w)] = []"
  shows "thread_inv param P t (after_call K rq w) = thread_inv param P t w"
    "main_inv param P m t (after_call K rq w) = main_inv param P m t w"
    "on_schedule P (after_call K rq w) = on_schedule P w"
proof -
  have "frame w (after_call K rq w)" using assms by (simp add: frame_def)
  then show "thread_inv param P t (after_call K rq w) = thread_inv param P t w"
    "main_inv param P m t (after_call K rq w) = main_inv param P m t w"
    "on_schedule P (after_call K rq w) = on_schedule P w"
    by (simp_all add: inv_frame)
qed

lemma wp_main_step:
  fixes w :: "('a, 'b) pacer_world_scheme"
  assumes rd: "main_ready m t" and inv: "psys_inv param P (Running m t w)"
  shows "wp (main_step K param m) (\<lambda>m' w'. psys_inv param P (Running m' t w')
      \<and> (t = T_done \<longrightarrow> main_left m' < main_left m)) (\<lambda>_ _. False) w"
proof -
  have w: "the_par w = P" "wf_heap w" "on_schedule P w" "thread_inv param P t w" "main_inv param P m t w"
    using inv by simp_all
  have ex: "\<not> exited m" and jn: "m = M_join \<longrightarrow> t = T_done" using rd by (simp_all add: main_ready_def)
  have sl: "shared_live param P w" using w(5) ex by (cases m) auto
  have started: "thread_started (the_stat w) \<noteq> 0" using w(4) by (cases t) auto
  show ?thesis
  proof (cases m)
    case M_free
    from sl obtain b c x y where b: "param = Ptr b 0" "tp_stats P = Ptr c 0" "b \<noteq> c"
      "heap w b = Some x" "heap w c = Some y" by (auto simp: shared_live_def)
    show ?thesis
      unfolding main_step_def M_free main_pc.case wp_bnd wp_shared(1) [OF sl] w(1) b(2)
      using w b M_free by (simp add: wp_simps wf_heap_def on_schedule_def)
  qed (use w sl ex jn started in \<open>auto simp: main_step_def wp_simps wp_shared [OF sl]\<close>)
qed

lemma wp_sighand:
  fixes w :: "('a, 'b) pacer_world_scheme"
  assumes inv: "psys_inv param P (Running m t w)"
  shows "wp (sighand K) (\<lambda>_ w'. psys_inv param P (Running m t w')) (\<lambda>_ _. False) w"
proof -
  have "thread_inv param P t (w\<lparr>shutdown_global := 1\<rparr>)"
    using inv by (cases t) (auto simp: loop_inv_def)
  moreover have "main_inv param P m t (w\<lparr>shutdown_global := 1\<rparr>) = main_inv param P m t w"
    by (cases m) auto
  ultimately show ?thesis
    using inv by (simp add: sighand_def wp_simps)
qed

section \<open>All interleavings\<close>

lemma psys_inv_step:
  assumes "sane_clock K" "usable P" "psys_inv param P s" "pstep K param s s'"
  shows "psys_inv param P s'"
proof (cases s)
  case (Running m t w)
  from assms(4) [unfolded Running] show ?thesis
    by (rule pstepE) (use assms Running wp_thread_step [OF assms(1,2), of t m param w]
      wp_main_step [of m t param P w K] wp_sighand [of param P m t w K] in \<open>auto simp: wp_def\<close>)
qed (use assms in simp)

lemma psys_inv_steps:
  assumes "sane_clock K" "usable P" "(pstep K param)\<^sup>*\<^sup>* s s'" "psys_inv param P s"
  shows "psys_inv param P s'"
  using assms(3,4) by (induction rule: rtranclp_induct) (auto intro: psys_inv_step [OF assms(1,2)])

text \<open>The timer thread runs to its end, and then the main thread does.\<close>

lemma thread_runs:
  assumes "sane_clock K" "usable P" "psys_inv param P (Running m t w)" "\<not> exited m"
  shows "\<exists>w'. (pstep K param)\<^sup>*\<^sup>* (Running m t w) (Running m T_done w')"
  using assms(3)
proof (induction "thread_left P t w" arbitrary: t w rule: less_induct)
  case less
  show ?case
  proof (cases "t = T_done")
    case False
    from wp_thread_step [OF assms(1,2) False assms(4) less.prems] show ?thesis
    proof (cases rule: wp_cases)
      case (Done t' w')
      then have "pstep K param (Running m t w) (Running m t' w')"
        using False assms(4) by (intro pstep.thread)
      moreover obtain w'' where "(pstep K param)\<^sup>*\<^sup>* (Running m t' w') (Running m T_done w'')"
        using less.hyps [of t' w'] Done by auto
      ultimately show ?thesis by (blast intro: converse_rtranclp_into_rtranclp)
    qed simp
  qed blast
qed

lemma main_runs:
  assumes "psys_inv param P (Running m T_done w)"
  shows "\<exists>w'. (pstep K param)\<^sup>*\<^sup>* (Running m T_done w) (Running (M_exit EXIT_OK) T_done w')"
  using assms
proof (induction "main_left m" arbitrary: m w rule: less_induct)
  case less
  show ?case
  proof (cases "exited m")
    case True
    then have "m = M_exit EXIT_OK" using less.prems by (cases m) auto
    then show ?thesis by blast
  next
    case False
    then have rd: "main_ready m T_done" by (simp add: main_ready_def)
    from wp_main_step [OF rd less.prems, of K] show ?thesis
    proof (cases rule: wp_cases)
      case (Done m' w')
      then have "pstep K param (Running m T_done w) (Running m' T_done w')"
        using rd by (intro pstep.main)
      moreover obtain w'' where "(pstep K param)\<^sup>*\<^sup>* (Running m' T_done w') (Running (M_exit EXIT_OK) T_done w'')"
        using less.hyps [of m' w'] Done by auto
      ultimately show ?thesis by (blast intro: converse_rtranclp_into_rtranclp)
    qed simp
  qed
qed

lemma system_ends:
  assumes K: "sane_clock K" and u: "usable P" and inv: "psys_inv param P s"
  shows "\<exists>v. (pstep K param)\<^sup>*\<^sup>* s (Running (M_exit EXIT_OK) T_done v)"
proof -
  obtain m t v where s: "s = Running m t v" using inv by (cases s) auto
  show ?thesis
  proof (cases "exited m")
    case True
    then have "t = T_done" using inv s by (cases m) auto
    then show ?thesis using main_runs inv s by blast
  next
    case False
    obtain v' where v': "(pstep K param)\<^sup>*\<^sup>* s (Running m T_done v')"
      using thread_runs [OF K u _ False] inv s by blast
    then obtain v'' where "(pstep K param)\<^sup>*\<^sup>* (Running m T_done v') (Running (M_exit EXIT_OK) T_done v'')"
      using main_runs psys_inv_steps [OF K u v' inv] by blast
    with v' show ?thesis by (blast intro: rtranclp_trans)
  qed
qed

section \<open>The start of the program\<close>

lemma keeps_pacer_parse:
  "keeps (\<lambda>w. (heap w, next_blk w, deadlines (trace w))) (pacer_parse argv0 opts p)"
proof (induction opts arbitrary: p)
  case (Cons x xs)
  then show ?case
    by (auto simp: pacer_option_def pacer_usage_def intro!: keeps_rules)
qed (simp add: keeps_rules)

lemma keeps_setup_socket:
  "keeps (\<lambda>w. (heap w, next_blk w, deadlines (trace w))) (setup_socket K p ip)"
  by (auto simp: setup_socket_def intro!: keeps_rules)

lemma wp_setup_pthread:
  fixes w :: "('a, 'b) pacer_world_scheme"
  assumes "wf_heap w" "deadlines (trace w) = []"
  shows "wp (setup_pthread K cfg) (\<lambda>param w'. psys_inv param (the_par w') (Running M_wait T_setup w'))
    (\<lambda>_ _. True) w"
proof -
  have "heap w (next_blk w) = None" using assms(1) by (rule wf_heap_fresh)
  then show ?thesis
    using assms
    by (auto simp: setup_pthread_def pacer_mem_error_def wp_simps c_consts to_u64_def set_stat_def
        shared_live_def wf_heap_def pthread_par_def thread_stat_zero_def intro!: on_schedule_0)
qed

lemma main_setup_inv:
  fixes w w0 :: "('a, 'b) pacer_world_scheme"
  assumes run: "pacer_main_setup K argv0 opts args w = (Done (Inr thread), w0)"
    and w: "wf_heap w" "deadlines (trace w) = []"
  shows "psys_inv thread (the_par w0) (Running M_wait T_setup w0)"
proof -
  let ?f = "\<lambda>w. (heap w, next_blk w, deadlines (trace w))"
  from run obtain p w1 ip rest where p: "pacer_parse argv0 opts pacer_init_params w = (Done (Inr p), w1)"
    and args: "args = ip # rest"
  proof -
    obtain x w1 where x: "pacer_parse argv0 opts pacer_init_params w = (Done x, w1)"
      using run unfolding pacer_main_setup_def bnd_Done [of "pacer_parse _ _ _"] by blast
    with run that show thesis
      by (cases x; cases args) (auto simp: pacer_main_setup_def bnd_Done)
  qed
  let ?show = "when_do (0 < verbose w1) (printf ''Destination IP:%s port:%d'' [PS ip, PI (uint (pc_dest_port p))])"
  let ?pre = "bnd ?show (\<lambda>_. bnd (setup_socket K p ip) (\<lambda>p'.
     bnd (syscall K (Rq_signal SIGINT)) (\<lambda>_. bnd (syscall K (Rq_signal SIGTERM)) (\<lambda>_.
     bnd (syscall K (Rq_signal SIGUSR1)) (\<lambda>_. ret p')))))"
  have "bnd ?pre (\<lambda>p'. bnd (setup_pthread K p') (\<lambda>thread. ret (Inr thread))) w1 = (Done (Inr thread), w0)"
    using run p args by (auto simp: pacer_main_setup_def bnd_Done bnd_assoc)
  then obtain p' w2 where pre: "?pre w1 = (Done p', w2)" and th: "setup_pthread K p' w2 = (Done thread, w0)"
    by (auto simp: bnd_Done [of ?pre] bnd_Done [of "setup_pthread _ _"])
  have "keeps ?f ?pre" by (auto intro!: keeps_rules keeps_setup_socket)
  from keepsD [OF this pre] keepsD [OF keeps_pacer_parse p] w
  have "wf_heap w2" "deadlines (trace w2) = []" by (simp_all add: wf_heap_def)
  from wp_Done [OF wp_setup_pthread [OF this] th] show ?thesis .
qed

section \<open>A run of the program\<close>

text \<open>A machine that grants every request and whose clock stands at ten seconds.\<close>

definition steady :: "unit kernel" where
  "steady rq k = ((sysres_of (case rq of Rq_malloc _ \<Rightarrow> 1 | Rq_inet_pton _ _ \<Rightarrow> 1 | _ \<Rightarrow> 0) 0)
     \<lparr>r_time := TimeSpec 10 0\<rparr>, k)"

lemma steady_sane: "sane_clock steady"
  by (simp add: sane_clock_def steady_def ts_normal_def)

definition pacer_boot :: "unit pacer_world" where
  "pacer_boot = \<lparr>kern = (), errno = 0, verbose = 0, heap = Map.empty, next_blk = 0, trace = [], out = [],
     shutdown_global = 0, the_par = thread_param_zero, the_stat = thread_stat_zero\<rparr>"

lemma pacer_boot_ok: "wf_heap pacer_boot" "deadlines (trace pacer_boot) = []"
  by (simp_all add: pacer_boot_def wf_heap_def)

lemma pacer_demo:
  obtains thread w0 where "pacer_main_setup steady ''udp_pacer'' [] [''192.0.2.1''] pacer_boot = (Done (Inr thread), w0)"
    "usable (the_par w0)"
proof -
  have "wp (pacer_main_setup steady ''udp_pacer'' [] [''192.0.2.1'']) (\<lambda>x w0. \<exists>thread. x = Inr thread \<and> usable (the_par w0))
      (\<lambda>_ _. False) pacer_boot"
    by (simp add: pacer_main_setup_def wp_simps setup_socket_def setup_sockaddr_def Let_def pacer_init_params_def
        Socket_def sockaddr_len_def Connect_def setup_pthread_def c_consts reply_def steady_def sysres_of_def
        set_stat_def pthread_par_def usable_def to_u64_def INT_MAX_def pacer_boot_def
        del: ret_run bnd_gets bnd_modify)
  then show thesis using that by (cases rule: wp_cases) auto
qed

section \<open>Properties of the program\<close>



text \<open>
  C9.  The deadlines do not drift.  In every state the program can reach, the timer thread has slept
  until \<open>start + interval\<close>, \<open>start + 2 * interval\<close>, \<open>start + 3 * interval\<close> and so on, for one time
  \<open>start\<close>, exactly and in this order, however late it woke up and however long sending took, and at most \<open>--count\<close> times.
\<close>

theorem pacer_no_drift:
  fixes w w0 :: "('k, 'm) pacer_world_scheme"
  assumes K: "sane_clock K" and w: "wf_heap w" "deadlines (trace w) = []"
    and start: "pacer_main_setup K argv0 opts args w = (Done (Inr thread), w0)"
    and u: "usable (the_par w0)"
    and run: "(pstep K thread)\<^sup>*\<^sup>* (Running M_wait T_setup w0) (Running m t v)"
  shows "\<exists>begin n. n \<le> unat (tp_max_cycles (the_par w0)) \<and>
    deadlines (trace v) = map (\<lambda>i. begin + (int i + 1) * (uint (tp_interval (the_par w0)) * 1000)) [0..<n]"
proof -
  have "psys_inv thread (the_par w0) (Running m t v)"
    by (rule psys_inv_steps [OF K u run main_setup_inv [OF start w]])
  then show ?thesis by (auto simp: on_schedule_def schedule_def)
qed

theorem pacer_no_drift_witness:
  "\<exists>thread w0 v begin n. pacer_main_setup steady ''udp_pacer'' [] [''192.0.2.1''] pacer_boot = (Done (Inr thread), w0)
    \<and> (pstep steady thread)\<^sup>*\<^sup>* (Running M_wait T_setup w0) (Running (M_exit EXIT_OK) T_done v)
    \<and> n \<le> unat (tp_max_cycles (the_par w0))
    \<and> deadlines (trace v) = map (\<lambda>i. begin + (int i + 1) * (uint (tp_interval (the_par w0)) * 1000)) [0..<n]"
proof -
  obtain thread w0 where start: "pacer_main_setup steady ''udp_pacer'' [] [''192.0.2.1''] pacer_boot = (Done (Inr thread), w0)"
    and u: "usable (the_par w0)" by (rule pacer_demo)
  obtain v where v: "(pstep steady thread)\<^sup>*\<^sup>* (Running M_wait T_setup w0) (Running (M_exit EXIT_OK) T_done v)"
    using system_ends [OF steady_sane u main_setup_inv [OF start pacer_boot_ok]] by blast
  from pacer_no_drift [OF steady_sane pacer_boot_ok start u v] start v show ?thesis by blast
qed



end
