(* ===== verification/Decimal.thy ===== *)
theory Decimal
  imports Common
begin

text \<open>
  Decimal text: what the conversions \<open>%d\<close> and \<open>%5d\<close> of the C library's \<open>printf\<close> family write, where
  a program sends that text instead of printing it, and that \<open>atoi\<close> reads the number back.
\<close>

definition digit :: "nat \<Rightarrow> char" where
  "digit n = char_of (48 + n)"

fun dec_nat :: "nat \<Rightarrow> string" where
  "dec_nat n = (if n < 10 then [digit n] else dec_nat (n div 10) @ [digit (n mod 10)])"

declare dec_nat.simps [simp del]

definition dec :: "int \<Rightarrow> string" where
  "dec i = (if i < 0 then CHR ''-'' # dec_nat (nat (- i)) else dec_nat (nat i))"

definition pad :: "nat \<Rightarrow> string \<Rightarrow> string" where
  "pad n s = replicate (n - length s) (CHR '' '') @ s"

text \<open>The bytes of a text, and \<open>inet_ntoa\<close>'s dotted form of an IPv4 address.\<close>

definition text_bytes :: "string \<Rightarrow> bytes" where
  "text_bytes s = map of_char s"

definition inet_ntoa :: "bytes \<Rightarrow> string" where
  "inet_ntoa bs = (case map (dec_nat \<circ> unat) bs of
       [] \<Rightarrow> []
     | d # ds \<Rightarrow> d @ concat (map ((#) (CHR ''.'')) ds))"

section \<open>Lemmas\<close>

lemma of_char_digit: "n < 10 \<Longrightarrow> of_char (digit n) = 48 + n"
  by (simp add: digit_def)

lemma digit_is: "n < 10 \<Longrightarrow> is_digit (digit n)" "n < 10 \<Longrightarrow> \<not> is_space (digit n)"
  "n < 10 \<Longrightarrow> digit n \<noteq> CHR ''-''" "n < 10 \<Longrightarrow> digit n \<noteq> CHR ''+''"
proof -
  assume n: "n < 10"
  then show "is_digit (digit n)" "\<not> is_space (digit n)"
    by (simp_all add: is_digit_def is_space_def of_char_digit)
  have "of_char (digit n) \<noteq> (of_char (CHR ''-'') :: nat)" "of_char (digit n) \<noteq> (of_char (CHR ''+'') :: nat)"
    using n by (simp_all add: of_char_digit)
  then show "digit n \<noteq> CHR ''-''" "digit n \<noteq> CHR ''+''" by metis+
qed

lemma dec_nat_digits: "\<forall>c \<in> set (dec_nat n). \<exists>k < 10. c = digit k"
proof (induction n rule: dec_nat.induct)
  case (1 n)
  have "n mod 10 < 10" by simp
  with 1 show ?case by (subst dec_nat.simps) (auto intro: exI [of _ "n mod 10"])
qed

lemma dec_nat_is_digit: "\<forall>c \<in> set (dec_nat n). is_digit c"
  using dec_nat_digits [of n] by (auto simp: digit_is)

lemma dec_nat_hd: "\<exists>k < 10. \<exists>cs. dec_nat n = digit k # cs"
proof -
  have "dec_nat n \<noteq> []" by (subst dec_nat.simps) simp
  then show ?thesis using dec_nat_digits [of n] by (cases "dec_nat n") auto
qed

lemma digits_val_append:
  "\<forall>c \<in> set xs. is_digit c \<Longrightarrow> digits_val m (xs @ ys) = digits_val (digits_val m xs) ys"
  by (induction xs arbitrary: m) auto

lemma digits_val_dec: "digits_val 0 (dec_nat n) = int n"
proof (induction n rule: dec_nat.induct)
  case (1 n)
  show ?case
  proof (cases "n < 10")
    case True
    then show ?thesis by (subst dec_nat.simps) (simp add: digit_is of_char_digit)
  next
    case False
    have "\<forall>c \<in> set (dec_nat (n div 10)). is_digit c"
      by (rule dec_nat_is_digit)
    then have "digits_val 0 (dec_nat n) = int (n div 10) * 10 + int (n mod 10)"
      using False 1 by (subst dec_nat.simps) (simp add: digits_val_append digit_is of_char_digit)
    also have "\<dots> = int (n div 10 * 10 + n mod 10)" by (simp only: of_nat_add of_nat_mult of_nat_numeral)
    finally show ?thesis by simp
  qed
qed

lemma length_dec_nat: "n < 10 ^ Suc k \<Longrightarrow> length (dec_nat n) \<le> Suc k"
proof (induction k arbitrary: n)
  case 0
  then show ?case by (subst dec_nat.simps) simp
next
  case (Suc k)
  then have "n div 10 < 10 ^ Suc k" by (simp add: less_mult_imp_div_less ac_simps)
  with Suc.IH show ?case by (subst dec_nat.simps) simp
qed

lemma length_dec: "is_i32 i \<Longrightarrow> length (dec i) \<le> 11"
proof -
  assume "is_i32 i"
  then have "nat i < 10 ^ Suc 9" "nat (- i) < 10 ^ Suc 9"
    by (simp_all add: is_i32_def INT_MIN_def INT_MAX_def) linarith+
  from this [THEN length_dec_nat] show ?thesis by (simp add: dec_def)
qed

text \<open>Reading a number back from a text that goes on with something else.\<close>

lemma atoi_dec:
  assumes i: "is_i32 i" and rest: "rest = [] \<or> \<not> is_digit (hd rest)"
  shows "atoi (dec i @ rest) = i"
proof -
  have val: "digits_val 0 (dec_nat n @ rest) = int n" for n
  proof -
    have "\<forall>c \<in> set (dec_nat n). is_digit c" by (rule dec_nat_is_digit)
    moreover have "digits_val m rest = m" for m using rest by (cases rest) auto
    ultimately show ?thesis by (simp add: digits_val_append digits_val_dec)
  qed
  have sgn: "split_sign (dropWhile is_space (dec i @ rest))
      = (if i < 0 then (- 1, dec_nat (nat (- i)) @ rest) else (1, dec_nat (nat i) @ rest))"
  proof (cases "i < 0")
    case True
    then show ?thesis by (simp add: dec_def split_sign_def is_space_def)
  next
    case False
    obtain k cs where "k < 10" "dec_nat (nat i) = digit k # cs" using dec_nat_hd by blast
    with False show ?thesis by (simp add: dec_def split_sign_def digit_is)
  qed
  have "max (- (2 ^ 63)) (min (2 ^ 63 - 1) i) = i"
    using i by (simp add: is_i32_def INT_MIN_def INT_MAX_def)
  with i show ?thesis by (auto simp: atoi_def sgn val)
qed

end
