(* ===== verification/TcpSink.thy ===== *)
theory TcpSink
  imports CommonSocket Decimal
begin

text \<open>
  \<open>src/src/tcp_sink.c\<close>: a server that accepts \<open>--count\<close> TCP connections one after the other,
  writes a line into each where \<open>--write-back\<close> is set, and closes it.  The state is the process with
  the file's static variables, which \<open>getopt_long\<close> sets through the pointers of the option table.
\<close>

section \<open>Definitions\<close>

record 'k tcp_world = "'k world" +
  so_reuse :: int
  write_something :: int
  use_epoll :: int

type_synonym ('k, 'm, 'a) tprog = "(('k, 'm) tcp_world_scheme, 'a) prog"

datatype tcp_flag = Fl_verbose | Fl_reuseport | Fl_write | Fl_epoll

text \<open>
  A row of the table: the name, whether it takes an argument, and the short option or the variable
  the row sets and its value.
\<close>

type_synonym tcp_row = "string \<times> int \<times> (char + tcp_flag \<times> int)"

definition tcp_long_options :: "tcp_row list" where
  "tcp_long_options =
     [(''ipv4'', no_argument, Inl (CHR ''4'')),
      (''ipv6'', no_argument, Inl (CHR ''6'')),
      (''listen-port'', required_argument, Inl (CHR ''l'')),
      (''count'', required_argument, Inl (CHR ''c'')),
      (''verbose'', optional_argument, Inl (CHR ''v'')),
      (''quiet'', no_argument, Inr (Fl_verbose, 0)),
      (''reuseport'', no_argument, Inr (Fl_reuseport, 1)),
      (''no-reuseport'', no_argument, Inr (Fl_reuseport, 0)),
      (''write-back'', no_argument, Inr (Fl_write, 1))]"

fun get_flag :: "tcp_flag \<Rightarrow> ('k, 'm) tcp_world_scheme \<Rightarrow> int" where
  "get_flag Fl_verbose w = verbose w"
| "get_flag Fl_reuseport w = so_reuse w"
| "get_flag Fl_write w = write_something w"
| "get_flag Fl_epoll w = use_epoll w"

fun set_flag :: "tcp_flag \<Rightarrow> int \<Rightarrow> ('k, 'm) tcp_world_scheme \<Rightarrow> ('k, 'm) tcp_world_scheme" where
  "set_flag Fl_verbose v w = w\<lparr>verbose := v\<rparr>"
| "set_flag Fl_reuseport v w = w\<lparr>so_reuse := v\<rparr>"
| "set_flag Fl_write v w = w\<lparr>write_something := v\<rparr>"
| "set_flag Fl_epoll v w = w\<lparr>use_epoll := v\<rparr>"

text \<open>The table as \<open>usage\<close> lists it, with the current values of the variables.\<close>

definition tcp_rows :: "tcp_row list \<Rightarrow> ('k, 'm) tcp_world_scheme \<Rightarrow> long_opt list" where
  "tcp_rows table w = map (\<lambda>(n, a, x). case x of
       Inl c \<Rightarrow> \<lparr>opt_name = n, opt_has_arg = a, opt_flag = None, opt_val = of_char c\<rparr>
     | Inr (f, v) \<Rightarrow> \<lparr>opt_name = n, opt_has_arg = a, opt_flag = Some (get_flag f w), opt_val = v\<rparr>) table"

definition tcp_usage :: "tcp_row list \<Rightarrow> string \<Rightarrow> ('k, 'm, int) tprog" where
  "tcp_usage table argv0 =
     bnd (printf ''-= ERROR: Parameter problems =-'' []) (\<lambda>_.
     bnd (printf '' Usage: %s (options-see-below)'' [PS argv0]) (\<lambda>_.
     bnd (printf '' Listing options:'' []) (\<lambda>_.
     bnd (gets (tcp_rows table)) (\<lambda>rows.
     bnd (list_options '' --%s'' rows) (\<lambda>_.
     bnd (printf '''' []) (\<lambda>_.
     ret EXIT_FAIL_OPTION))))))"

record tcp_cfg =
  tc_count :: int
  tc_family :: int
  tc_port :: u16

definition tcp_cfg0 :: tcp_cfg where
  "tcp_cfg0 = \<lparr>tc_count = 1000000, tc_family = AF_INET, tc_port = 6666\<rparr>"

text \<open>
  One option.  Where \<open>getopt_long\<close> returns 0 it has set the variable of the row; the program then
  only reports it.
\<close>

definition tcp_flag_option :: "tcp_row list \<Rightarrow> optres \<Rightarrow> ('k, 'm, unit) tprog" where
  "tcp_flag_option table x =
     (if length table \<le> o_longindex x then ub Out_of_bounds
      else
        bnd (case snd (snd (table ! o_longindex x)) of
               Inl _ \<Rightarrow> ret ()
             | Inr (f, v) \<Rightarrow> modify (set_flag f v)) (\<lambda>_.
        bnd (gets verbose) (\<lambda>v.
        when_do (v \<noteq> 0)
          (bnd (printf ''Flag option %s'' [PS (fst (table ! o_longindex x))]) (\<lambda>_.
           bnd (case o_arg x of None \<Rightarrow> ret () | Some a \<Rightarrow> printf '' with arg %s'' [PS a]) (\<lambda>_.
           printf '''' []))))))"

definition tcp_option :: "tcp_row list \<Rightarrow> optres \<Rightarrow> tcp_cfg \<Rightarrow> ('k, 'm, tcp_cfg) tprog" where
  "tcp_option table x g =
     (if o_c x = 0 then bnd (tcp_flag_option table x) (\<lambda>_. ret g)
      else if opt_is x (CHR ''c'') then bnd (atoi_arg (o_arg x)) (\<lambda>n. ret (g\<lparr>tc_count := n\<rparr>))
      else if opt_is x (CHR ''l'') then
        bnd (atoi_arg (o_arg x)) (\<lambda>n. ret (g\<lparr>tc_port := word_of_int n\<rparr>))
      else if opt_is x (CHR ''4'') then ret (g\<lparr>tc_family := AF_INET\<rparr>)
      else if opt_is x (CHR ''6'') then ret (g\<lparr>tc_family := AF_INET6\<rparr>)
      else if opt_is x (CHR ''w'') then bnd (modify (set_flag Fl_write 1)) (\<lambda>_. ret g)
      else if opt_is x (CHR ''v'') then bnd (set_verbose (o_arg x)) (\<lambda>_. ret g)
      else ret g)"

fun tcp_parse :: "tcp_row list \<Rightarrow> string \<Rightarrow> optres list \<Rightarrow> tcp_cfg \<Rightarrow> ('k, 'm, int + tcp_cfg) tprog" where
  "tcp_parse table argv0 [] g = ret (Inr g)"
| "tcp_parse table argv0 (x # xs) g =
     bnd (tcp_option table x g) (\<lambda>g'.
     if opt_is x (CHR ''?'') then bnd (tcp_usage table argv0) (\<lambda>c. ret (Inl c))
     else tcp_parse table argv0 xs g')"

subsection \<open>The listening socket\<close>

abbreviation (input) SOCKOPT_REUSEPORT :: int where "SOCKOPT_REUSEPORT \<equiv> 15"

definition tcp_listen :: "'k kernel \<Rightarrow> int \<Rightarrow> tcp_cfg \<Rightarrow> ('k, 'm, int) tprog" where
  "tcp_listen K pid g =
     bnd (gets verbose) (\<lambda>v.
     bnd (when_do (0 < v) (printf ''IP%s TCP listen port %d PID:[%d]''
            [PS (if tc_family g = AF_INET6 then ''v6'' else ''v4''), PI (uint (tc_port g)), PI pid])) (\<lambda>_.
     bnd (Socket K (tc_family g) SOCK_STREAM IPPROTO_IP) (\<lambda>listenfd.
     bnd (gets so_reuse) (\<lambda>reuse.
     bnd (when_do (reuse \<noteq> 0)
            (bnd (syscall K (Rq_setsockopt listenfd SOL_SOCKET SOCKOPT_REUSEPORT (OptInt reuse))) (\<lambda>r.
             if r_ret r < 0 then
               bnd (printf ''ERROR: No support for SO_REUSEPORT'' []) (\<lambda>_.
               bnd (perror ''- setsockopt(SO_REUSEPORT)'') (\<lambda>_.
               exit_with EXIT_FAIL_SOCKOPT))
             else when_do (v \<noteq> 0) (printf '' - Enabled SO_REUSEPORT'' [])))) (\<lambda>_.
     bnd (Bind K listenfd (sockaddr_zero\<lparr>ss_family := tc_family g, sin_port := htons (tc_port g)\<rparr>)) (\<lambda>_.
     bnd (syscall K (Rq_listen listenfd 1024)) (\<lambda>_.
     ret listenfd)))))))"

subsection \<open>The connections\<close>

text \<open>The line written back: \<open>PID:[%5d] cnt:%d\\r\\n\<close>, cut to the buffer of 1024 bytes.\<close>

definition reply_line :: "int \<Rightarrow> int \<Rightarrow> string" where
  "reply_line pid i =
     take 1023 (''PID:['' @ pad 5 (dec pid) @ ''] cnt:'' @ dec i @ [char_of (13 :: nat), char_of (10 :: nat)])"

definition tcp_conn :: "'k kernel \<Rightarrow> int \<Rightarrow> int \<Rightarrow> int \<Rightarrow> ('k, 'm, unit) tprog" where
  "tcp_conn K listenfd pid i =
     bnd (syscall K (Rq_accept listenfd)) (\<lambda>connfd.
     bnd (gets write_something) (\<lambda>ws.
     bnd (when_do (ws \<noteq> 0)
            (bnd (syscall K (Rq_write (r_ret connfd) (text_bytes (reply_line pid i)))) (\<lambda>_. ret ()))) (\<lambda>_.
     bnd (syscall K (Rq_close (r_ret connfd))) (\<lambda>_.
     bnd (gets verbose) (\<lambda>v.
     when_do (v \<noteq> 0) (printf ''PID:[%5d] Connection count: %d'' [PI pid, PI i]))))))"

text \<open>\<open>for (i = 1; i <= count; i++)\<close>: with the greatest \<open>count\<close>, the last increment overflows.\<close>

definition count_from_1 :: "int \<Rightarrow> (int \<Rightarrow> ('s, unit) prog) \<Rightarrow> ('s, unit) prog" where
  "count_from_1 count body =
     bnd (for_loop 1 (count + 1) (\<lambda>i _. body i) ()) (\<lambda>_.
     if count = INT_MAX then ub Signed_overflow else ret ())"

definition tcp_main :: "'k kernel \<Rightarrow> string \<Rightarrow> optres list \<Rightarrow> ('k, 'm, int) tprog" where
  "tcp_main K argv0 opts =
     bnd (syscall K Rq_getpid) (\<lambda>pid.
     bnd (tcp_parse tcp_long_options argv0 opts tcp_cfg0) (\<lambda>x.
     case x of Inl c \<Rightarrow> ret c | Inr g \<Rightarrow>
     bnd (tcp_listen K (r_ret pid) g) (\<lambda>listenfd.
     bnd (count_from_1 (tc_count g) (tcp_conn K listenfd (r_ret pid))) (\<lambda>_.
     bnd (syscall K (Rq_close listenfd)) (\<lambda>_.
     ret 0)))))"

section \<open>Lemmas\<close>

lemma tcp_fields [simp]:
  "so_reuse (after_call K rq w) = so_reuse w" "so_reuse (say m w) = so_reuse w"
  "write_something (after_call K rq w) = write_something w" "write_something (say m w) = write_something w"
  "use_epoll (after_call K rq w) = use_epoll w" "use_epoll (say m w) = use_epoll w"
  by (simp_all add: after_call_def say_def)

lemma wp_count_from_1:
  assumes "I 0 w" "count < INT_MAX"
    and "\<And>i v. 1 \<le> i \<Longrightarrow> i \<le> count \<Longrightarrow> I (nat (i - 1)) v \<Longrightarrow> wp (body i) (\<lambda>_. I (nat i)) E v"
    and "\<And>v. I (nat count) v \<Longrightarrow> Q () v"
  shows "wp (count_from_1 count body) Q E w"
proof -
  have "wp (for_loop 1 (count + 1) (\<lambda>i _. body i) ()) (\<lambda>_. I (nat count)) E w"
    by (rule wp_for_loop [where I = "\<lambda>i _. I (nat (i - 1))"])
      (use assms in \<open>auto simp: max_def split: if_splits\<close>)
  then show ?thesis
    unfolding count_from_1_def
    using assms(2,4) by (auto simp: wp_simps elim!: wp_conseq simp del: ret_run)
qed

text \<open>The calls of one connection, and of the first \<open>n\<close>.\<close>

definition conn_events :: "int \<Rightarrow> int \<Rightarrow> bool \<Rightarrow> int \<Rightarrow> sysres \<times> sysres \<times> sysres \<Rightarrow> (sysreq \<times> sysres) list" where
  "conn_events fd pid ws i = (\<lambda>(a, b, c).
     [(Rq_accept fd, a)]
     @ (if ws then [(Rq_write (r_ret a) (text_bytes (reply_line pid i)), b)] else [])
     @ [(Rq_close (r_ret a), c)])"

definition served :: "int \<Rightarrow> int \<Rightarrow> bool \<Rightarrow> nat \<Rightarrow> (sysreq \<times> sysres) list \<Rightarrow> bool" where
  "served fd pid ws n es \<longleftrightarrow> (\<exists>rs. length rs = n \<and>
     es = concat (map (\<lambda>i. conn_events fd pid ws (int i + 1) (rs ! i)) [0..<n]))"

lemma served_0 [simp]: "served fd pid ws 0 []"
  by (simp add: served_def)

lemma served_Suc:
  assumes "served fd pid ws n es"
  shows "served fd pid ws (Suc n) (es @ conn_events fd pid ws (int n + 1) r)"
proof -
  from assms obtain rs where "length rs = n"
    "es = concat (map (\<lambda>i. conn_events fd pid ws (int i + 1) (rs ! i)) [0..<n])"
    by (auto simp: served_def)
  then show ?thesis unfolding served_def
    by (intro exI [of _ "rs @ [r]"]) (auto simp: nth_append intro!: arg_cong [of _ _ concat])
qed

lemma wp_tcp_conn:
  "wp (tcp_conn K fd pid i) Q E w = (let ws = write_something w \<noteq> 0;
     a = reply K (Rq_accept fd) w; w1 = after_call K (Rq_accept fd) w;
     wr = Rq_write (r_ret a) (text_bytes (reply_line pid i));
     w2 = (if ws then after_call K wr w1 else w1);
     w3 = after_call K (Rq_close (r_ret a)) w2
   in Q () (if verbose w \<noteq> 0 then say (Stdout ''PID:[%5d] Connection count: %d'' [PI pid, PI i]) w3 else w3))"
  by (simp add: tcp_conn_def wp_simps Let_def)

lemma wp_tcp_loop:
  fixes w :: "('k, 'm) tcp_world_scheme"
  assumes c: "count < INT_MAX"
    and Q: "\<And>v es. trace v = trace w @ es \<Longrightarrow> served fd pid (write_something w \<noteq> 0) (nat count) es \<Longrightarrow>
      heap v = heap w \<Longrightarrow> Q () v"
  shows "wp (count_from_1 count (tcp_conn K fd pid)) Q E w"
proof (rule wp_count_from_1 [where I = "\<lambda>n v. \<exists>es. trace v = trace w @ es \<and>
      served fd pid (write_something w \<noteq> 0) n es \<and> heap v = heap w \<and> write_something v = write_something w"])
  fix i and v :: "('k, 'm) tcp_world_scheme"
  assume i: "1 \<le> i" "i \<le> count" and "\<exists>es. trace v = trace w @ es \<and>
      served fd pid (write_something w \<noteq> 0) (nat (i - 1)) es \<and> heap v = heap w \<and> write_something v = write_something w"
  then obtain es where es: "trace v = trace w @ es" "served fd pid (write_something w \<noteq> 0) (nat (i - 1)) es"
    "heap v = heap w" "write_something v = write_something w" by blast
  let ?a = "reply K (Rq_accept fd) v" and ?v1 = "after_call K (Rq_accept fd) v"
  let ?wr = "Rq_write (r_ret ?a) (text_bytes (reply_line pid i))"
  let ?v2 = "if write_something v \<noteq> 0 then after_call K ?wr ?v1 else ?v1"
  let ?r = "(?a, reply K ?wr ?v1, reply K (Rq_close (r_ret ?a)) ?v2)"
  have n: "Suc (nat (i - 1)) = nat i" "int (nat (i - 1)) + 1 = i" using i by simp_all
  have "served fd pid (write_something w \<noteq> 0) (nat i) (es @ conn_events fd pid (write_something w \<noteq> 0) i ?r)"
    using served_Suc [OF es(2), of ?r] n by simp
  with es show "wp (tcp_conn K fd pid i) (\<lambda>_ v. \<exists>es. trace v = trace w @ es \<and>
      served fd pid (write_something w \<noteq> 0) (nat i) es \<and> heap v = heap w \<and> write_something v = write_something w) E v"
    unfolding wp_tcp_conn Let_def
    by (intro exI [of _ "es @ conn_events fd pid (write_something w \<noteq> 0) i ?r"])
      (simp add: conn_events_def)
qed (use c Q in auto)

text \<open>Setting the listening socket up accepts nothing.\<close>

fun accepts :: "(sysreq \<times> sysres) list \<Rightarrow> int list" where
  "accepts [] = []"
| "accepts ((Rq_accept _, r) # es) = r_ret r # accepts es"
| "accepts ((Rq_accept4 _ _, r) # es) = r_ret r # accepts es"
| "accepts (_ # es) = accepts es"

lemma accepts_append [simp]: "accepts (xs @ ys) = accepts xs @ accepts ys"
  by (induction xs rule: accepts.induct) simp_all

lemma set_up_tcp:
  fixes w v :: "('k, 'm) tcp_world_scheme"
  assumes "set_up w v"
  shows "\<exists>es. trace v = trace w @ es \<and> accepts es = []" "write_something v = write_something w"
    "use_epoll v = use_epoll w" "so_reuse v = so_reuse w"
proof -
  have "list_all (is_setup \<circ> fst) es \<Longrightarrow> accepts es = []" for es
    by (induction es rule: accepts.induct) simp_all
  then show "\<exists>es. trace v = trace w @ es \<and> accepts es = []" using assms by (auto simp: set_up_def)
  have "world.more v = world.more w" using assms by (simp add: set_up_def)
  then show "write_something v = write_something w" "use_epoll v = use_epoll w" "so_reuse v = so_reuse w"
    by (cases v; cases w; simp)+
qed

lemma wp_tcp_listen:
  fixes w :: "('k, 'm) tcp_world_scheme"
  assumes Q: "\<And>fd v. set_up w v \<Longrightarrow> Q fd v"
    and E: "\<And>c v. set_up w v \<Longrightarrow> c \<in> {EXIT_FAIL_SOCK, EXIT_FAIL_SOCKOPT} \<Longrightarrow> E c v"
  shows "wp (tcp_listen K pid g) Q E w"
proof -
  let ?addr = "sockaddr_zero\<lparr>ss_family := tc_family g, sin_port := htons (tc_port g)\<rparr>"
  have bind: "wp (Bind K fd ?addr) (\<lambda>_ v. Q fd (after_call K (Rq_listen fd 1024) v)) E u" if "set_up w u" for fd u
    by (rule wp_wrappers) (use that in \<open>auto intro!: Q E intro: set_up_trans\<close>)
  have "wp (Socket K (tc_family g) SOCK_STREAM IPPROTO_IP) (\<lambda>fd. wp (bnd (gets so_reuse) (\<lambda>reuse.
     bnd (when_do (reuse \<noteq> 0)
            (bnd (syscall K (Rq_setsockopt fd SOL_SOCKET SOCKOPT_REUSEPORT (OptInt reuse))) (\<lambda>r.
             if r_ret r < 0 then
               bnd (printf ''ERROR: No support for SO_REUSEPORT'' []) (\<lambda>_.
               bnd (perror ''- setsockopt(SO_REUSEPORT)'') (\<lambda>_.
               exit_with EXIT_FAIL_SOCKOPT))
             else when_do (verbose w \<noteq> 0) (printf '' - Enabled SO_REUSEPORT'' [])))) (\<lambda>_.
     bnd (Bind K fd ?addr) (\<lambda>_. bnd (syscall K (Rq_listen fd 1024)) (\<lambda>_. ret fd))))) Q E) E u"
    if u: "set_up w u" for u
  proof (rule wp_wrappers)
    fix fd v assume v: "set_up u v"
    have "set_up w v" using u v by (rule set_up_trans)
    then show "wp (bnd (gets so_reuse) (\<lambda>reuse.
     bnd (when_do (reuse \<noteq> 0)
            (bnd (syscall K (Rq_setsockopt fd SOL_SOCKET SOCKOPT_REUSEPORT (OptInt reuse))) (\<lambda>r.
             if r_ret r < 0 then
               bnd (printf ''ERROR: No support for SO_REUSEPORT'' []) (\<lambda>_.
               bnd (perror ''- setsockopt(SO_REUSEPORT)'') (\<lambda>_.
               exit_with EXIT_FAIL_SOCKOPT))
             else when_do (verbose w \<noteq> 0) (printf '' - Enabled SO_REUSEPORT'' [])))) (\<lambda>_.
     bnd (Bind K fd ?addr) (\<lambda>_. bnd (syscall K (Rq_listen fd 1024)) (\<lambda>_. ret fd))))) Q E v"
      by (auto simp: wp_simps intro!: bind E simp del: ret_run bnd_gets)
  qed (use u in \<open>auto intro: E set_up_trans\<close>)
  then show ?thesis
    unfolding tcp_listen_def by (auto simp: wp_simps simp del: ret_run bnd_gets)
qed

text \<open>The frame of both programs: listen, serve the connections, close the listening socket.\<close>

definition serving :: "int \<Rightarrow> (int \<Rightarrow> bool) \<Rightarrow> bool \<Rightarrow> nat \<Rightarrow> ('k, 'm) tcp_world_scheme
    \<Rightarrow> ('k, 'm) tcp_world_scheme \<Rightarrow> bool" where
  "serving fd P ws n w v \<longleftrightarrow> (\<exists>es0 es p. trace v = trace w @ es0 @ es \<and> accepts es0 = [] \<and> P p
     \<and> served fd p ws n es)"

lemma servingI:
  "trace v = trace w @ es0 @ es \<Longrightarrow> accepts es0 = [] \<Longrightarrow> P p \<Longrightarrow> served fd p ws n es \<Longrightarrow> serving fd P ws n w v"
  by (auto simp: serving_def)

lemma wp_listen_and_serve:
  fixes w :: "('k, 'm) tcp_world_scheme"
  assumes loop: "\<And>fd E v. set_up w v \<Longrightarrow> wp (loop fd) (\<lambda>_. serving fd P ws n w) E v"
  shows "wp (bnd (tcp_listen K pid g) (\<lambda>fd. bnd (loop fd) (\<lambda>_. bnd (syscall K (Rq_close fd)) (\<lambda>_. ret 0))))
    (\<lambda>x v. x = 0 \<and> (\<exists>fd r u. serving fd P ws n w u \<and> trace v = trace u @ [(Rq_close fd, r)]))
    (\<lambda>c v. c \<in> {EXIT_FAIL_SOCK, EXIT_FAIL_SOCKOPT} \<and> (\<exists>es. trace v = trace w @ es \<and> accepts es = [])) w"
  unfolding wp_bnd
proof (rule wp_tcp_listen)
  fix fd and v :: "('k, 'm) tcp_world_scheme"
  let ?E = "\<lambda>c v. c \<in> {EXIT_FAIL_SOCK, EXIT_FAIL_SOCKOPT} \<and> (\<exists>es. trace v = trace w @ es \<and> accepts es = [])"
  assume "set_up w v"
  from loop [OF this]
  show "wp (loop fd) (\<lambda>_. wp (syscall K (Rq_close fd)) (\<lambda>_. wp (ret 0)
      (\<lambda>x v. x = 0 \<and> (\<exists>fd r u. serving fd P ws n w u \<and> trace v = trace u @ [(Rq_close fd, r)])) ?E) ?E) ?E v"
    by (rule wp_conseq) (auto simp: wp_simps simp del: ret_run)
qed (use set_up_tcp(1) in blast)

lemma listen_and_serve_result:
  fixes w :: "('k, 'm) tcp_world_scheme"
  assumes run: "bnd (tcp_listen K pid g) (\<lambda>fd. bnd (loop fd) (\<lambda>_. bnd (syscall K (Rq_close fd)) (\<lambda>_. ret 0))) w = (x, w')"
    and loop: "\<And>fd E v. set_up w v \<Longrightarrow> wp (loop fd) (\<lambda>_. serving fd P ws n w) E v"
  shows "(x = Done 0 \<and> (\<exists>es0 es p fd r. trace w' = trace w @ es0 @ es @ [(Rq_close fd, r)] \<and> accepts es0 = []
            \<and> P p \<and> served fd p ws n es))
    \<or> (x \<in> {Exit EXIT_FAIL_SOCK, Exit EXIT_FAIL_SOCKOPT} \<and> (\<exists>es. trace w' = trace w @ es \<and> accepts es = []))"
proof -
  have "\<exists>es0 es p fd r. trace w' = trace w @ es0 @ es @ [(Rq_close fd, r)] \<and> accepts es0 = [] \<and> P p \<and> served fd p ws n es"
    if "serving fd P ws n w u" "trace w' = trace u @ [(Rq_close fd, r)]" for fd r u
  proof -
    from that(1) obtain es0 es p where "trace u = trace w @ es0 @ es" "accepts es0 = []" "P p" "served fd p ws n es"
      by (auto simp: serving_def)
    with that(2) show ?thesis by (intro exI [of _ es0] exI [of _ es] exI [of _ p] exI [of _ fd] exI [of _ r]) simp
  qed
  with wp_result [OF wp_listen_and_serve [OF loop] run] show ?thesis by blast
qed

section \<open>Properties\<close>

text \<open>The two numbers of a reply line, read back the way a client would.\<close>

definition line_pid :: "string \<Rightarrow> int" where
  "line_pid s = atoi (drop 5 s)"

definition line_cnt :: "string \<Rightarrow> int" where
  "line_cnt s = (let after = (\<lambda>t. tl (dropWhile (\<lambda>c. c \<noteq> CHR '':'') t)) in atoi (after (after s)))"

lemma dec_no_colon: "CHR '':'' \<notin> set (dec i)"
proof
  assume "CHR '':'' \<in> set (dec i)"
  then have "CHR '':'' \<in> set (dec_nat (nat i)) \<or> CHR '':'' \<in> set (dec_nat (nat (- i)))"
    by (auto simp: dec_def split: if_splits)
  then have "is_digit (CHR '':'')" using dec_nat_is_digit [of "nat i"] dec_nat_is_digit [of "nat (- i)"] by auto
  then show False by (simp add: is_digit_def)
qed

lemma atoi_spaces: "atoi (replicate n (CHR '' '') @ s) = atoi s"
  by (induction n) (simp_all add: atoi_def is_space_def)

text \<open>
  C28.  The line written back is complete and can be read back.  For every process id and count it
  fits the buffer with its end of line, and reading its two numbers with \<open>atoi\<close> gives the process id
  and the count.
\<close>

theorem reply_line_roundtrip:
  assumes "is_i32 pid" "is_i32 i"
  shows "length (reply_line pid i) < 1024
    \<and> (\<exists>s. reply_line pid i = s @ [char_of (13 :: nat), char_of (10 :: nat)])
    \<and> line_pid (reply_line pid i) = pid \<and> line_cnt (reply_line pid i) = i"
proof -
  let ?eol = "[char_of (13 :: nat), char_of (10 :: nat)] :: string"
  let ?p = "pad 5 (dec pid)"
  have "length ?p \<le> 11" using length_dec [OF assms(1)] by (simp add: pad_def)
  then have len: "length (''PID:['' @ ?p @ ''] cnt:'' @ dec i @ ?eol) < 1024"
    using length_dec [OF assms(2)] by simp
  then have line: "reply_line pid i = ''PID:['' @ ?p @ ''] cnt:'' @ dec i @ ?eol"
    unfolding reply_line_def by (intro take_all) simp
  have nd: "\<not> is_digit (char_of (13 :: nat))" "\<not> is_digit (CHR '']'')" by (simp_all add: is_digit_def)
  have "line_pid (reply_line pid i) = pid"
    unfolding line line_pid_def pad_def
    using atoi_dec [OF assms(1), of "''] cnt:'' @ dec i @ ?eol"] nd by (simp add: atoi_spaces)
  moreover have "line_cnt (reply_line pid i) = i"
  proof -
    have "\<forall>c \<in> set ?p. c \<noteq> CHR '':''" using dec_no_colon [of pid] by (auto simp: pad_def)
    then have "dropWhile (\<lambda>c. c \<noteq> CHR '':'') (?p @ ''] cnt:'' @ dec i @ ?eol) = '':'' @ dec i @ ?eol"
      by (simp add: dropWhile_append2)
    then have "line_cnt (reply_line pid i) = atoi (dec i @ ?eol)"
      unfolding line line_cnt_def Let_def by (simp add: dropWhile_append2)
    then show ?thesis using atoi_dec [OF assms(2), of ?eol] nd by simp
  qed
  moreover have "\<exists>s. reply_line pid i = s @ ?eol"
    unfolding line by (rule exI [of _ "''PID:['' @ ?p @ ''] cnt:'' @ dec i"]) simp
  ultimately show ?thesis using len line by simp
qed

theorem reply_line_roundtrip_witness:
  "line_pid (reply_line 4711 12) = 4711 \<and> line_cnt (reply_line 4711 12) = 12"
  using reply_line_roundtrip [of 4711 12] by (simp add: is_i32_def INT_MIN_def INT_MAX_def)

text \<open>
  C11.  \<open>tcp_sink\<close> serves exactly \<open>--count\<close> connections.  Whatever the kernel answers, once the
  options are read (with a count below the greatest \<open>int\<close>) the program either returns 0, having
  called \<open>accept\<close> \<open>--count\<close> times and, after each, written its line where \<open>--write-back\<close> is set and
  closed the descriptor it got before the next \<open>accept\<close>, and closed the listening socket last; or it
  exits because the socket could not be set up, and has accepted nothing.
\<close>

theorem tcp_sink_serves:
  fixes w w0 w' :: "('k, 'm) tcp_world_scheme"
  assumes pid: "syscall K Rq_getpid w = (Done pid, w0)"
    and parse: "tcp_parse tcp_long_options argv0 opts tcp_cfg0 w0 = (Done (Inr g), w1)"
    and count: "tc_count g < INT_MAX" and run: "tcp_main K argv0 opts w = (x, w')"
  shows "(x = Done 0 \<and> (\<exists>es0 es fd r. trace w' = trace w1 @ es0 @ es @ [(Rq_close fd, r)] \<and> accepts es0 = []
            \<and> served fd (r_ret pid) (write_something w1 \<noteq> 0) (nat (tc_count g)) es))
    \<or> (x \<in> {Exit EXIT_FAIL_SOCK, Exit EXIT_FAIL_SOCKOPT}
        \<and> (\<exists>es. trace w' = trace w1 @ es \<and> accepts es = []))"
proof -
  have "bnd (tcp_listen K (r_ret pid) g) (\<lambda>fd.
     bnd (count_from_1 (tc_count g) (tcp_conn K fd (r_ret pid))) (\<lambda>_.
     bnd (syscall K (Rq_close fd)) (\<lambda>_. ret 0))) w1 = (x, w')"
    using run pid parse by (simp add: tcp_main_def bnd_def del: tcp_parse.simps)
  moreover have "wp (count_from_1 (tc_count g) (tcp_conn K fd (r_ret pid)))
      (\<lambda>_. serving fd (\<lambda>p. p = r_ret pid) (write_something w1 \<noteq> 0) (nat (tc_count g)) w1) E v"
    if "set_up w1 v" for fd E and v :: "('k, 'm) tcp_world_scheme"
  proof -
    from set_up_tcp [OF that] obtain es0 where "trace v = trace w1 @ es0" "accepts es0 = []"
      "write_something v = write_something w1" by blast
    then show ?thesis by (intro wp_tcp_loop [OF count] servingI [of _ w1 es0]) simp_all
  qed
  ultimately show ?thesis by (auto dest!: listen_and_serve_result [where P = "\<lambda>p. p = r_ret pid"])
qed

definition tcp_boot :: "sysres list tcp_world" where
  "tcp_boot = \<lparr>kern = [], errno = 0, verbose = 0, heap = Map.empty, next_blk = 0, trace = [], out = [],
     so_reuse = 1, write_something = 0, use_epoll = 0\<rparr>"

definition two_connections :: "optres list" where
  "two_connections = [\<lparr>o_c = of_char (CHR ''c''), o_arg = Some ''2'', o_longindex = 0\<rparr>]"

lemma two_connections_parse:
  "tcp_parse tcp_long_options ''tcp_sink'' two_connections tcp_cfg0 w
    = (Done (Inr (tcp_cfg0\<lparr>tc_count := 2\<rparr>)), w)"
proof -
  have "atoi ''2'' = 2" by code_simp
  then show ?thesis by (simp add: two_connections_def tcp_option_def atoi_arg_def bnd_def)
qed

theorem tcp_sink_serves_witness:
  "\<exists>w'. tcp_main scripted ''tcp_sink'' two_connections tcp_boot = (Done 0, w')
    \<and> (\<exists>es0 es fd r. trace w' = (Rq_getpid, sysres_of 0 0) # es0 @ es @ [(Rq_close fd, r)] \<and> accepts es0 = []
        \<and> served fd 0 False 2 es)"
proof -
  obtain x w' where run: "tcp_main scripted ''tcp_sink'' two_connections tcp_boot = (x, w')" by fastforce
  have pid: "syscall scripted Rq_getpid tcp_boot = (Done (sysres_of 0 0), tcp_boot\<lparr>trace := [(Rq_getpid, sysres_of 0 0)]\<rparr>)"
    by (simp add: syscall_def reply_def after_call_def tcp_boot_def sysres_of_def)
  have "fst (tcp_main scripted ''tcp_sink'' two_connections tcp_boot) = Done 0" by code_simp
  with tcp_sink_serves [OF pid two_connections_parse _ run] run show ?thesis
    by (auto simp: tcp_cfg0_def INT_MAX_def tcp_boot_def sysres_of_def)
qed

end
