(* ===== verification/TcpSinkEpoll.thy ===== *)
theory TcpSinkEpoll
  imports TcpSink
begin

text \<open>
  \<open>src/src/tcp_sink_epoll.c\<close>: \<open>tcp_sink\<close> with a second way to wait for connections, \<open>--epoll\<close>.  The
  properties: without \<open>--epoll\<close> it serves its connections like \<open>tcp_sink\<close>; with it, on a kernel whose
  \<open>epoll_wait\<close> reports what it should, it stays inside its event array and closes only descriptors
  that are open connections.
\<close>

section \<open>Definitions\<close>

definition epoll_long_options :: "tcp_row list" where
  "epoll_long_options =
     [(''ipv4'', no_argument, Inl (CHR ''4'')),
      (''ipv6'', no_argument, Inl (CHR ''6'')),
      (''listen-port'', required_argument, Inl (CHR ''l'')),
      (''count'', required_argument, Inl (CHR ''c'')),
      (''verbose'', optional_argument, Inl (CHR ''v'')),
      (''quiet'', no_argument, Inr (Fl_verbose, 0)),
      (''reuseport'', no_argument, Inr (Fl_reuseport, 1)),
      (''no-reuseport'', no_argument, Inr (Fl_reuseport, 0)),
      (''write-back'', no_argument, Inr (Fl_write, 1)),
      (''epoll'', no_argument, Inr (Fl_epoll, 1))]"

text \<open>The same loop as in \<open>tcp_sink.c\<close>, with a process id of its own.\<close>

definition wait_for_connections :: "'k kernel \<Rightarrow> int \<Rightarrow> int \<Rightarrow> ('k, 'm, unit) tprog" where
  "wait_for_connections K listenfd count =
     bnd (syscall K Rq_getpid) (\<lambda>pid.
     count_from_1 count (tcp_conn K listenfd (r_ret pid)))"

definition MAX_EVENTS :: int where [c_consts]: "MAX_EVENTS = 10"

text \<open>\<open>events[n].data.fd\<close>, of the events the last \<open>epoll_wait\<close> has filled in.\<close>

definition event_fd :: "sysres \<Rightarrow> int \<Rightarrow> ('s, int) prog" where
  "event_fd r n =
     (if MAX_EVENTS \<le> n then ub Out_of_bounds
      else if int (length (r_fds r)) \<le> n then ub Uninit_read
      else ret (r_fds r ! nat n))"

definition epoll_fail :: "string \<Rightarrow> ('k, 'm, 'a) cprog" where
  "epoll_fail msg = bnd (perror msg) (\<lambda>_. exit_with EXIT_FAILURE)"

definition epoll_new :: "'k kernel \<Rightarrow> int \<Rightarrow> int \<Rightarrow> int \<Rightarrow> int \<Rightarrow> ('k, 'm, unit) tprog" where
  "epoll_new K epollfd listen_sock pid i =
     bnd (syscall K (Rq_accept4 listen_sock SOCK_NONBLOCK)) (\<lambda>connfd.
     if r_ret connfd = - 1 then epoll_fail ''accept''
     else
     bnd (syscall K (Rq_epoll_ctl epollfd EPOLL_CTL_ADD (r_ret connfd) (EPOLLIN OR EPOLLET) (r_ret connfd))) (\<lambda>r.
     if r_ret r = - 1 then epoll_fail ''epoll_ctl: conn_sock''
     else
     bnd (gets verbose) (\<lambda>v.
     when_do (v \<noteq> 0) (printf ''PID:[%5d] Connection count: %d'' [PI pid, PI i]))))"

definition epoll_ready :: "'k kernel \<Rightarrow> int \<Rightarrow> int \<Rightarrow> int \<Rightarrow> ('k, 'm, unit) tprog" where
  "epoll_ready K connfd pid i =
     bnd (gets write_something) (\<lambda>ws.
     bnd (when_do (ws \<noteq> 0)
            (bnd (syscall K (Rq_write connfd (text_bytes (reply_line pid i)))) (\<lambda>_. ret ()))) (\<lambda>_.
     bnd (syscall K (Rq_close connfd)) (\<lambda>_.
     ret ())))"

definition epoll_round :: "'k kernel \<Rightarrow> int \<Rightarrow> int \<Rightarrow> int \<Rightarrow> int \<Rightarrow> ('k, 'm, unit) tprog" where
  "epoll_round K epollfd listen_sock pid i =
     bnd (syscall K (Rq_epoll_wait epollfd MAX_EVENTS (- 1))) (\<lambda>r.
     if r_ret r = - 1 then epoll_fail ''epoll_pwait''
     else
       for_loop 0 (r_ret r) (\<lambda>n _.
         bnd (event_fd r n) (\<lambda>fd.
         if fd = listen_sock then epoll_new K epollfd listen_sock pid i
         else epoll_ready K fd pid i)) ())"

definition epoll_connections :: "'k kernel \<Rightarrow> int \<Rightarrow> int \<Rightarrow> int \<Rightarrow> ('k, 'm, unit) tprog" where
  "epoll_connections K epollfd listen_sock count =
     bnd (syscall K Rq_getpid) (\<lambda>pid.
     count_from_1 count (epoll_round K epollfd listen_sock (r_ret pid)))"

definition epoll_serve :: "'k kernel \<Rightarrow> int \<Rightarrow> int \<Rightarrow> ('k, 'm, unit) tprog" where
  "epoll_serve K listenfd count =
     bnd (syscall K (Rq_epoll_create1 0)) (\<lambda>epollfd.
     if r_ret epollfd = - 1 then epoll_fail ''epoll_create''
     else
     bnd (syscall K (Rq_epoll_ctl (r_ret epollfd) EPOLL_CTL_ADD listenfd EPOLLIN listenfd)) (\<lambda>r.
     if r_ret r = - 1 then epoll_fail '' - epoll_ctl: cannot add listen sock''
     else
     bnd (epoll_connections K (r_ret epollfd) listenfd count) (\<lambda>_.
     bnd (syscall K (Rq_close (r_ret epollfd))) (\<lambda>_.
     ret ()))))"

definition epoll_main :: "'k kernel \<Rightarrow> string \<Rightarrow> optres list \<Rightarrow> ('k, 'm, int) tprog" where
  "epoll_main K argv0 opts =
     bnd (syscall K Rq_getpid) (\<lambda>pid.
     bnd (tcp_parse epoll_long_options argv0 opts tcp_cfg0) (\<lambda>x.
     case x of Inl c \<Rightarrow> ret c | Inr g \<Rightarrow>
     bnd (tcp_listen K (r_ret pid) g) (\<lambda>listenfd.
     bnd (gets use_epoll) (\<lambda>e.
     bnd (if e \<noteq> 0 then epoll_serve K listenfd (tc_count g)
          else wait_for_connections K listenfd (tc_count g)) (\<lambda>_.
     bnd (syscall K (Rq_close listenfd)) (\<lambda>_.
     ret 0))))))"

section \<open>What the kernel reports, and what the program does with it\<close>

text \<open>The open connections after a sequence of calls, beginning with \<open>C\<close>.\<close>

fun conns :: "int set \<Rightarrow> (sysreq \<times> sysres) list \<Rightarrow> int set" where
  "conns C [] = C"
| "conns C ((Rq_accept4 _ _, r) # es) = conns (if r_ret r < 0 then C else insert (r_ret r) C) es"
| "conns C ((Rq_close fd, _) # es) = conns (C - {fd}) es"
| "conns C (_ # es) = conns C es"

text \<open>
  A kernel that keeps to its documentation: \<open>epoll_wait\<close> fills in as many events as it says, at most
  as many as there is room for, all different and all for registered descriptors that are open;
  \<open>accept4\<close> hands out a descriptor that is not in use, or -1.
\<close>

fun honest :: "int \<Rightarrow> int set \<Rightarrow> (sysreq \<times> sysres) list \<Rightarrow> bool" where
  "honest l C [] \<longleftrightarrow> True"
| "honest l C ((Rq_epoll_wait _ m _, r) # es) \<longleftrightarrow>
     r_ret r \<le> m \<and> (0 \<le> r_ret r \<longrightarrow> length (r_fds r) = nat (r_ret r)) \<and> distinct (r_fds r)
     \<and> set (r_fds r) \<subseteq> insert l C \<and> honest l C es"
| "honest l C ((Rq_accept4 _ _, r) # es) \<longleftrightarrow>
     - 1 \<le> r_ret r \<and> (0 \<le> r_ret r \<longrightarrow> r_ret r \<notin> insert l C)
     \<and> honest l (if r_ret r < 0 then C else insert (r_ret r) C) es"
| "honest l C ((Rq_close fd, _) # es) \<longleftrightarrow> honest l (C - {fd}) es"
| "honest l C (_ # es) \<longleftrightarrow> honest l C es"

text \<open>A program that closes, writes to and registers open connections only.\<close>

fun orderly :: "int set \<Rightarrow> (sysreq \<times> sysres) list \<Rightarrow> bool" where
  "orderly C [] \<longleftrightarrow> True"
| "orderly C ((Rq_accept4 _ _, r) # es) \<longleftrightarrow> orderly (if r_ret r < 0 then C else insert (r_ret r) C) es"
| "orderly C ((Rq_close fd, _) # es) \<longleftrightarrow> fd \<in> C \<and> orderly (C - {fd}) es"
| "orderly C ((Rq_write fd _, _) # es) \<longleftrightarrow> fd \<in> C \<and> orderly C es"
| "orderly C ((Rq_epoll_ctl _ _ fd _ _, _) # es) \<longleftrightarrow> fd \<in> C \<and> orderly C es"
| "orderly C (_ # es) \<longleftrightarrow> orderly C es"

lemma conns_append: "conns C (xs @ ys) = conns (conns C xs) ys"
  by (induction C xs rule: conns.induct) simp_all

lemma honest_append: "honest l C (xs @ ys) \<longleftrightarrow> honest l C xs \<and> honest l (conns C xs) ys"
  by (induction C xs rule: conns.induct) auto

lemma orderly_append: "orderly C (xs @ ys) \<longleftrightarrow> orderly C xs \<and> orderly (conns C xs) ys"
  by (induction C xs rule: conns.induct) (auto elim: orderly.elims)

text \<open>The state of a run: it has been orderly, unless the kernel was not honest.\<close>

definition behaved :: "int \<Rightarrow> (sysreq \<times> sysres) list \<Rightarrow> (int set \<Rightarrow> bool) \<Rightarrow> ('k, 'm) tcp_world_scheme \<Rightarrow> bool" where
  "behaved l t0 P v \<longleftrightarrow> (\<exists>es. trace v = t0 @ es \<and> (honest l {} es \<longrightarrow> orderly {} es \<and> P (conns {} es)))"

definition misled :: "int \<Rightarrow> (sysreq \<times> sysres) list \<Rightarrow> ('k, 'm) tcp_world_scheme \<Rightarrow> bool" where
  "misled l t0 v \<longleftrightarrow> (\<exists>es. trace v = t0 @ es \<and> \<not> honest l {} es)"

lemma behaved_say [simp]: "behaved l t0 P (say m v) = behaved l t0 P v"
  by (simp add: behaved_def)

lemma behaved_call:
  assumes "behaved l t0 P v"
    and "\<And>C. P C \<Longrightarrow> honest l C [(rq, reply K rq v)] \<Longrightarrow> orderly C [(rq, reply K rq v)] \<and> R (conns C [(rq, reply K rq v)])"
  shows "behaved l t0 R (after_call K rq v)"
proof -
  from assms(1) obtain es where "trace v = t0 @ es" "honest l {} es \<longrightarrow> orderly {} es \<and> P (conns {} es)"
    by (auto simp: behaved_def)
  then show ?thesis
    unfolding behaved_def using assms(2)
    by (intro exI [of _ "es @ [(rq, reply K rq v)]"])
      (auto simp: honest_append orderly_append conns_append simp del: honest.simps orderly.simps conns.simps)
qed

lemma behaved_mono: "behaved l t0 P v \<Longrightarrow> (\<And>C. P C \<Longrightarrow> R C) \<Longrightarrow> behaved l t0 R v"
  by (auto simp: behaved_def)

lemma behaved_False: "behaved l t0 (\<lambda>_. False) v \<Longrightarrow> misled l t0 v"
  by (auto simp: behaved_def misled_def)

text \<open>What an honest \<open>epoll_wait\<close> answers, and what is left of it after \<open>n\<close> events.\<close>

definition left_to_do :: "int \<Rightarrow> sysres \<Rightarrow> nat \<Rightarrow> int set \<Rightarrow> bool" where
  "left_to_do l r n C \<longleftrightarrow> r_ret r \<le> 10 \<and> (0 \<le> r_ret r \<longrightarrow> length (r_fds r) = nat (r_ret r))
     \<and> distinct (r_fds r) \<and> set (drop n (r_fds r)) \<subseteq> insert l C"

lemma left_to_do_next:
  assumes "left_to_do l r n C" "int n < r_ret r"
  shows "left_to_do l r (Suc n) C" "left_to_do l r (Suc n) (insert x C)"
    "left_to_do l r (Suc n) (C - {r_fds r ! n})" "r_fds r ! n \<in> insert l C"
proof -
  have n: "n < length (r_fds r)" using assms by (simp add: left_to_do_def)
  then have d: "drop n (r_fds r) = r_fds r ! n # drop (Suc n) (r_fds r)" by (simp add: Cons_nth_drop_Suc)
  have "distinct (drop n (r_fds r))" using assms by (simp add: left_to_do_def)
  then have "r_fds r ! n \<notin> set (drop (Suc n) (r_fds r))" using d by simp
  with d assms(1) show "left_to_do l r (Suc n) C" "left_to_do l r (Suc n) (insert x C)"
    "left_to_do l r (Suc n) (C - {r_fds r ! n})" "r_fds r ! n \<in> insert l C"
    by (auto simp: left_to_do_def)
qed

lemma wpf_epoll_new:
  assumes P: "behaved l t0 P v" and Q: "\<And>C x. P C \<Longrightarrow> R C \<and> R (insert x C)"
  shows "wpf (epoll_new K e l pid i) (\<lambda>_. behaved l t0 R) (\<lambda>c v. c = EXIT_FAILURE \<and> behaved l t0 (\<lambda>_. True) v)
    (\<lambda>_. misled l t0) v"
proof -
  let ?acc = "Rq_accept4 l SOCK_NONBLOCK"
  let ?r = "reply K ?acc v" and ?v1 = "after_call K ?acc v"
  let ?ctl = "Rq_epoll_ctl e EPOLL_CTL_ADD (r_ret ?r) (EPOLLIN OR EPOLLET) (r_ret ?r)"
  have v1: "behaved l t0 (\<lambda>C. (r_ret ?r = - 1 \<or> r_ret ?r \<in> C) \<and> R C) ?v1"
    by (rule behaved_call [OF P]) (use Q in auto)
  then have v2: "behaved l t0 R (after_call K ?ctl ?v1)" if "r_ret ?r \<noteq> - 1"
    by (rule behaved_call) (use that in auto)
  have "behaved l t0 (\<lambda>_. True) u" if "behaved l t0 R u" for u :: "('a, 'b) tcp_world_scheme"
    using that by (rule behaved_mono) simp
  then show ?thesis
    using v1 v2 behaved_mono [OF v1, of "\<lambda>_. True"]
    by (auto simp: epoll_new_def epoll_fail_def wpf_simps wpf_bind wpf_calls)
qed

lemma wpf_epoll_ready:
  assumes P: "behaved l t0 P v" and Q: "\<And>C. P C \<Longrightarrow> fd \<in> C \<and> R (C - {fd})"
  shows "wpf (epoll_ready K fd pid i) (\<lambda>_. behaved l t0 R) (\<lambda>c v. c = EXIT_FAILURE \<and> behaved l t0 (\<lambda>_. True) v)
    (\<lambda>_. misled l t0) v"
proof -
  have cl: "behaved l t0 R (after_call K (Rq_close fd) u)" if "behaved l t0 P u" for u :: "('a, 'b) tcp_world_scheme"
    using that by (rule behaved_call) (use Q in auto)
  have "behaved l t0 P (after_call K (Rq_write fd x) v)" for x
    using P by (rule behaved_call) (use Q in auto)
  with P show ?thesis by (auto simp: epoll_ready_def wpf_simps wpf_bind wpf_calls intro!: cl)
qed

lemma wpf_epoll_round:
  fixes v :: "('k, 'm) tcp_world_scheme"
  assumes v: "behaved l t0 (\<lambda>_. True) v"
  shows "wpf (epoll_round K e l pid i) (\<lambda>_. behaved l t0 (\<lambda>_. True))
    (\<lambda>c v. c = EXIT_FAILURE \<and> behaved l t0 (\<lambda>_. True) v) (\<lambda>_. misled l t0) v"
proof -
  let ?wait = "Rq_epoll_wait e MAX_EVENTS (- 1)"
  let ?r = "reply K ?wait v"
  have v1: "behaved l t0 (left_to_do l ?r 0) (after_call K ?wait v)"
    using v by (rule behaved_call) (auto simp: left_to_do_def MAX_EVENTS_def)
  have "wpf (for_loop 0 (r_ret ?r) (\<lambda>n _.
         bnd (event_fd ?r n) (\<lambda>fd. if fd = l then epoll_new K e l pid i else epoll_ready K fd pid i)) ())
      (\<lambda>_. behaved l t0 (\<lambda>_. True)) (\<lambda>c v. c = EXIT_FAILURE \<and> behaved l t0 (\<lambda>_. True) v) (\<lambda>_. misled l t0)
      (after_call K ?wait v)"
  proof (rule wpf_for_loop [where I = "\<lambda>n _. behaved l t0 (left_to_do l ?r (nat n))"])
    fix n a and u :: "('k, 'm) tcp_world_scheme"
    assume n: "0 \<le> n" "n < r_ret ?r" and u: "behaved l t0 (left_to_do l ?r (nat n)) u"
    have n1: "nat (n + 1) = Suc (nat n)" "int (nat n) < r_ret ?r" using n by simp_all
    show "wpf (bnd (event_fd ?r n) (\<lambda>fd. if fd = l then epoll_new K e l pid i else epoll_ready K fd pid i))
      (\<lambda>_. behaved l t0 (left_to_do l ?r (nat (n + 1)))) (\<lambda>c v. c = EXIT_FAILURE \<and> behaved l t0 (\<lambda>_. True) v)
      (\<lambda>_. misled l t0) u"
    proof (cases "n < MAX_EVENTS \<and> n < int (length (r_fds ?r))")
      case True
      then have ev: "event_fd ?r n = (ret (r_fds ?r ! nat n) :: (_, int) prog)"
        by (simp add: event_fd_def)
      have new: "wpf (epoll_new K e l pid i) (\<lambda>_. behaved l t0 (left_to_do l ?r (Suc (nat n))))
        (\<lambda>c v. c = EXIT_FAILURE \<and> behaved l t0 (\<lambda>_. True) v) (\<lambda>_. misled l t0) u"
        using u by (rule wpf_epoll_new) (use left_to_do_next [OF _ n1(2)] in blast)
      have old: "wpf (epoll_ready K (r_fds ?r ! nat n) pid i) (\<lambda>_. behaved l t0 (left_to_do l ?r (Suc (nat n))))
        (\<lambda>c v. c = EXIT_FAILURE \<and> behaved l t0 (\<lambda>_. True) v) (\<lambda>_. misled l t0) u"
        if "r_fds ?r ! nat n \<noteq> l"
        using u by (rule wpf_epoll_ready) (use that left_to_do_next [OF _ n1(2)] in blast)
      show ?thesis
        unfolding ev bnd_ret n1(1) using new old by simp
    next
      case False
      then have "behaved l t0 (\<lambda>_. False) u"
        using n u by (elim behaved_mono) (auto simp: left_to_do_def MAX_EVENTS_def)
      then have "misled l t0 u" by (rule behaved_False)
      with False show ?thesis by (auto simp: event_fd_def wpf_simps)
    qed
  qed (use v1 in \<open>auto elim: behaved_mono\<close>)
  then show ?thesis
    using behaved_mono [OF v1, of "\<lambda>_. True"]
    by (simp add: epoll_round_def epoll_fail_def wpf_simps wpf_bind wpf_calls)
qed

lemma wpf_epoll_connections:
  fixes v :: "('k, 'm) tcp_world_scheme"
  assumes count: "count < INT_MAX"
  shows "wpf (epoll_connections K e l count) (\<lambda>_. behaved l (trace v) (\<lambda>_. True))
    (\<lambda>c u. c = EXIT_FAILURE \<and> behaved l (trace v) (\<lambda>_. True) u) (\<lambda>_. misled l (trace v)) v"
proof -
  let ?v1 = "after_call K Rq_getpid v" and ?pid = "r_ret (reply K Rq_getpid v)"
  let ?I = "behaved l (trace v) (\<lambda>_. True) :: ('k, 'm) tcp_world_scheme \<Rightarrow> bool"
  have "?I v" by (auto simp: behaved_def intro: exI [of _ "[]"])
  then have v1: "?I ?v1" by (rule behaved_call) simp
  have "wpf (for_loop 1 (count + 1) (\<lambda>i _. epoll_round K e l ?pid i) ()) (\<lambda>_. ?I)
      (\<lambda>c u. c = EXIT_FAILURE \<and> ?I u) (\<lambda>_. misled l (trace v)) ?v1"
    by (rule wpf_for_loop [where I = "\<lambda>_ _. ?I"]) (use v1 in \<open>auto intro: wpf_epoll_round\<close>)
  then show ?thesis
    unfolding epoll_connections_def count_from_1_def wpf_bind wpf_calls
    using count by (simp add: wpf_simps)
qed

section \<open>Properties\<close>

text \<open>
  C27.  Without \<open>--epoll\<close>, \<open>tcp_sink_epoll\<close> keeps the contract of \<open>tcp_sink\<close>: once the options are read,
  with a count below the greatest \<open>int\<close>, it either returns 0 after exactly \<open>--count\<close> connections, each
  accepted, answered where \<open>--write-back\<close> is set, and closed before the next, and with the listening
  socket closed last; or it exits because the socket could not be set up, and has accepted nothing.
\<close>

theorem epoll_off_serves:
  fixes w w0 w' :: "('k, 'm) tcp_world_scheme"
  assumes pid: "syscall K Rq_getpid w = (Done pid, w0)"
    and parse: "tcp_parse epoll_long_options argv0 opts tcp_cfg0 w0 = (Done (Inr g), w1)"
    and off: "use_epoll w1 = 0"
    and count: "tc_count g < INT_MAX" and run: "epoll_main K argv0 opts w = (x, w')"
  shows "(x = Done 0 \<and> (\<exists>es0 es p fd r. trace w' = trace w1 @ es0 @ es @ [(Rq_close fd, r)] \<and> accepts es0 = []
            \<and> served fd p (write_something w1 \<noteq> 0) (nat (tc_count g)) es))
    \<or> (x \<in> {Exit EXIT_FAIL_SOCK, Exit EXIT_FAIL_SOCKOPT}
        \<and> (\<exists>es. trace w' = trace w1 @ es \<and> accepts es = []))"
proof -
  have 1: "bnd (tcp_listen K (r_ret pid) g) (\<lambda>fd.
     bnd (bnd (gets use_epoll) (\<lambda>e. if e \<noteq> 0 then epoll_serve K fd (tc_count g)
            else wait_for_connections K fd (tc_count g))) (\<lambda>_.
     bnd (syscall K (Rq_close fd)) (\<lambda>_. ret 0))) w1 = (x, w')"
    using run pid parse by (simp add: epoll_main_def bnd_def del: tcp_parse.simps cong: outcome.case_cong)
  have 2: "wp (bnd (gets use_epoll) (\<lambda>e. if e \<noteq> 0 then epoll_serve K fd (tc_count g)
        else wait_for_connections K fd (tc_count g)))
      (\<lambda>_. serving fd (\<lambda>_. True) (write_something w1 \<noteq> 0) (nat (tc_count g)) w1) E v"
    if "set_up w1 v" for fd E and v :: "('k, 'm) tcp_world_scheme"
  proof -
    from set_up_tcp [OF that] obtain es0 where v: "trace v = trace w1 @ es0" "accepts es0 = []"
      "write_something v = write_something w1" "use_epoll v = use_epoll w1" by blast
    let ?u = "after_call K Rq_getpid v"
    have "wp (count_from_1 (tc_count g) (tcp_conn K fd (r_ret (reply K Rq_getpid v))))
      (\<lambda>_. serving fd (\<lambda>_. True) (write_something w1 \<noteq> 0) (nat (tc_count g)) w1) E ?u"
      by (intro wp_tcp_loop [OF count] servingI [of _ w1 "es0 @ [(Rq_getpid, reply K Rq_getpid v)]"])
        (use v in simp_all)
    then show ?thesis using v off by (simp add: wait_for_connections_def wp_simps del: ret_run bnd_gets)
  qed
  from listen_and_serve_result [OF 1 2] show ?thesis by blast
qed

lemma two_connections_epoll_parse:
  "tcp_parse epoll_long_options ''tcp_sink_epoll'' two_connections tcp_cfg0 w
    = (Done (Inr (tcp_cfg0\<lparr>tc_count := 2\<rparr>)), w)"
proof -
  have "atoi ''2'' = 2" by code_simp
  then show ?thesis by (simp add: two_connections_def tcp_option_def atoi_arg_def bnd_def)
qed

theorem epoll_off_serves_witness:
  "\<exists>w'. epoll_main scripted ''tcp_sink_epoll'' two_connections tcp_boot = (Done 0, w')
    \<and> (\<exists>es0 es p fd r. trace w' = (Rq_getpid, sysres_of 0 0) # es0 @ es @ [(Rq_close fd, r)] \<and> accepts es0 = []
        \<and> served fd p False 2 es)"
proof -
  obtain x w' where run: "epoll_main scripted ''tcp_sink_epoll'' two_connections tcp_boot = (x, w')" by fastforce
  have pid: "syscall scripted Rq_getpid tcp_boot = (Done (sysres_of 0 0), tcp_boot\<lparr>trace := [(Rq_getpid, sysres_of 0 0)]\<rparr>)"
    by (simp add: syscall_def reply_def after_call_def tcp_boot_def sysres_of_def)
  have "fst (epoll_main scripted ''tcp_sink_epoll'' two_connections tcp_boot) = Done 0" by code_simp
  with epoll_off_serves [OF pid two_connections_epoll_parse _ _ run] run show ?thesis
    by (auto simp: tcp_cfg0_def INT_MAX_def tcp_boot_def sysres_of_def)
qed

text \<open>
  C12.  With \<open>--epoll\<close>, \<open>tcp_sink\<close> only touches connections it has open.  For every number of rounds
  below the greatest \<open>int\<close> and on every kernel whose answers during the run are honest (as many
  events as announced, at most ten, no descriptor twice, only registered descriptors; \<open>accept4\<close>
  returning -1 or a descriptor not in use), the event loop never reads outside its event array: it
  comes to its end or exits with \<open>EXIT_FAILURE\<close> after a failed call, and each descriptor it registered,
  wrote to or closed was a connection accepted before and not yet closed.
\<close>

theorem epoll_closes_open_only:
  fixes w :: "('k, 'm) tcp_world_scheme"
  assumes count: "count < INT_MAX" and run: "epoll_connections K e l count w = (x, w')"
    and honest: "\<And>es. trace w' = trace w @ es \<Longrightarrow> honest l {} es"
  shows "x \<in> {Done (), Exit EXIT_FAILURE} \<and> (\<exists>es. trace w' = trace w @ es \<and> orderly {} es)"
  using wpf_result [OF wpf_epoll_connections [OF count] run] honest
  by (auto simp: behaved_def misled_def)

text \<open>Two rounds: a new connection on socket 5, then data on it.\<close>

definition event_answers :: "sysres list" where
  "event_answers = [sysres_of 100 0, (sysres_of 1 0)\<lparr>r_fds := [3]\<rparr>, sysres_of 5 0, sysres_of 0 0,
     (sysres_of 1 0)\<lparr>r_fds := [5]\<rparr>, sysres_of 0 0]"

definition event_calls :: "sysreq list" where
  "event_calls = [Rq_getpid, Rq_epoll_wait 4 10 (- 1), Rq_accept4 3 SOCK_NONBLOCK,
     Rq_epoll_ctl 4 EPOLL_CTL_ADD 5 (EPOLLIN OR EPOLLET) 5, Rq_epoll_wait 4 10 (- 1), Rq_close 5]"

lemma epoll_example:
  "fst (epoll_connections scripted 4 3 2 (tcp_boot\<lparr>kern := event_answers\<rparr>)) = Done ()"
  "trace (snd (epoll_connections scripted 4 3 2 (tcp_boot\<lparr>kern := event_answers\<rparr>)))
    = zip event_calls event_answers"
  by code_simp+

theorem epoll_closes_open_only_witness:
  "\<exists>w'. epoll_connections scripted 4 3 2 (tcp_boot\<lparr>kern := event_answers\<rparr>) = (Done (), w')
    \<and> trace w' = zip event_calls event_answers \<and> orderly {} (zip event_calls event_answers)"
proof -
  obtain x w' where run: "epoll_connections scripted 4 3 2 (tcp_boot\<lparr>kern := event_answers\<rparr>) = (x, w')"
    by fastforce
  then have xw: "x = Done ()" "trace w' = zip event_calls event_answers" using epoll_example by simp_all
  have "honest 3 {} (zip event_calls event_answers)"
    by (simp add: event_calls_def event_answers_def sysres_of_def)
  with epoll_closes_open_only [OF _ run] run xw show ?thesis
    by (auto simp: tcp_boot_def INT_MAX_def)
qed

end
