(* ===== verification/TcpSinkClient.thy ===== *)
theory TcpSinkClient
  imports CommonSocket "HOL-Library.Multiset"
begin

text \<open>
  \<open>src/src/tcp_sink_client.c\<close>: the client of \<open>tcp_sink\<close>, which opens \<open>--count\<close> connections one after the
  other and closes each at once, or keeps it with \<open>--no-close\<close>.  The properties: what
  \<open>connect_retries\<close> does with every sequence of answers, and that the program connects exactly as often
  as it was asked to and leaves no socket open.
\<close>

section \<open>Definitions\<close>

record 'k client_world = "'k world" +
  close_conn :: int







definition connect_error :: "'k kernel \<Rightarrow> int \<Rightarrow> string \<Rightarrow> parg list \<Rightarrow> int \<Rightarrow> ('k, 'm, 'a) cprog" where
  "connect_error K sockfd msg args code =
     bnd (eprintf msg args) (\<lambda>_.
     bnd (perror ''- connect'') (\<lambda>_.
     bnd (syscall K (Rq_close sockfd)) (\<lambda>_.
     exit_with code)))"

text \<open>From the label \<open>retry\<close> on, after \<open>retries\<close> attempts.\<close>

function retry :: "'k kernel \<Rightarrow> int \<Rightarrow> sockaddr_storage \<Rightarrow> int \<Rightarrow> int \<Rightarrow> ('k, 'm, int) cprog" where
  "retry K sockfd dest_addr max_retries retries =
     bnd (sockaddr_len dest_addr) (\<lambda>len.
     bnd (syscall K (Rq_connect sockfd dest_addr len)) (\<lambda>res.
     if 0 \<le> r_ret res then ret (r_ret res)
     else if INT_MAX \<le> retries then ub Signed_overflow
     else
     bnd (gets errno) (\<lambda>e.
     if max_retries < retries + 1 then
       connect_error K sockfd ''ERROR: exceed conn attempts (%d) errno(%d) '' [PI (retries + 1), PI e]
         EXIT_FAIL_SOCK
     else if e = EADDRNOTAVAIL then
       bnd (eprintf ''RETRY(%d): re-connect() errno(%d) '' [PI (retries + 1), PI e]) (\<lambda>_.
       bnd (perror ''- connect'') (\<lambda>_.
       retry K sockfd dest_addr max_retries (retries + 1)))
     else if e = ECONNRESET then
       connect_error K sockfd ''ERROR: Likely SO_REUSEPORT failed errno(%d) '' [PI e] EXIT_FAIL_REUSEPORT
     else
       connect_error K sockfd ''ERROR: connect() failed errno(%d) '' [PI e] EXIT_FAIL_SOCK)))"
  by pat_completeness auto
termination
  by (relation "measure (\<lambda>(_, _, _, m, r). nat (m - r))") auto

declare retry.simps [simp del]

definition connect_retries :: "'k kernel \<Rightarrow> int \<Rightarrow> sockaddr_storage \<Rightarrow> int \<Rightarrow> ('k, 'm, int) cprog" where
  "connect_retries K sockfd dest_addr max_retries = retry K sockfd dest_addr max_retries 0"









section \<open>Connecting\<close>

text \<open>
  The reference: what becomes of a sequence of answers to \<open>connect\<close> when \<open>n\<close> more retries are
  allowed.  \<open>None\<close> where the answers do not settle it, or go on after they have.
\<close>

fun verdict :: "nat \<Rightarrow> sysres list \<Rightarrow> int outcome option" where
  "verdict n [] = None"
| "verdict n (r # rs) =
     (if r_ret r < 0 \<and> r_errno r = EADDRNOTAVAIL \<and> 0 < n then verdict (n - 1) rs
      else if rs \<noteq> [] then None
      else if 0 \<le> r_ret r then Some (Done (r_ret r))
      else if r_errno r = ECONNRESET \<and> 0 < n then Some (Exit EXIT_FAIL_REUSEPORT)
      else Some (Exit EXIT_FAIL_SOCK))"

lemma verdict_length: "verdict n rs = Some x \<Longrightarrow> rs \<noteq> [] \<and> length rs \<le> Suc n"
  by (induction n rs rule: verdict.induct) (auto split: if_splits)

definition connects :: "int \<Rightarrow> sockaddr_storage \<Rightarrow> int \<Rightarrow> sysres list \<Rightarrow> (sysreq \<times> sysres) list" where
  "connects fd a len rs = map (\<lambda>r. (Rq_connect fd a len, r)) rs"

lemma connects_simps [simp]:
  "connects fd a len [] = []" "connects fd a len (r # rs) = (Rq_connect fd a len, r) # connects fd a len rs"
  by (simp_all add: connects_def)

definition retried :: "int \<Rightarrow> sockaddr_storage \<Rightarrow> int \<Rightarrow> nat \<Rightarrow> ('k, 'm) world_scheme \<Rightarrow> int outcome
    \<Rightarrow> ('k, 'm) world_scheme \<Rightarrow> bool" where
  "retried fd a len n w x v \<longleftrightarrow> (\<exists>rs cl. verdict n rs = Some x \<and> trace v = trace w @ connects fd a len rs @ cl
     \<and> (case x of Done _ \<Rightarrow> cl = [] | _ \<Rightarrow> (\<exists>r. cl = [(Rq_close fd, r)]))
     \<and> heap v = heap w \<and> verbose v = verbose w \<and> world.more v = world.more w)"

lemma retried_again:
  assumes "retried fd a len n (after_call K rq w) x v" "rq = Rq_connect fd a len"
    "r_ret (reply K rq w) < 0" "r_errno (reply K rq w) = EADDRNOTAVAIL"
  shows "retried fd a len (Suc n) w x v"
proof -
  from assms(1) obtain rs cl where rs: "verdict n rs = Some x"
    "trace v = trace (after_call K rq w) @ connects fd a len rs @ cl"
    "case x of Done _ \<Rightarrow> cl = [] | _ \<Rightarrow> (\<exists>r. cl = [(Rq_close fd, r)])"
    "heap v = heap w" "verbose v = verbose w" "world.more v = world.more w"
    by (auto simp: retried_def after_call_def)
  then show ?thesis
    unfolding retried_def
    by (intro exI [of _ "reply K rq w # rs"] exI [of _ cl]) (use assms in simp)
qed

lemma retried_say [simp]: "retried fd a len n (say m w) = retried fd a len n w"
  by (simp add: retried_def fun_eq_iff say_def)

lemma wp_retry:
  fixes w :: "('k, 'm) world_scheme"
  assumes "ss_family a \<in> {AF_INET, AF_INET6}" "0 \<le> k" "k \<le> m" "m < INT_MAX"
    "len = (if ss_family a = AF_INET then sizeof_sockaddr_in else sizeof_sockaddr_in6)"
  shows "wp (retry K fd a m k) (\<lambda>x. retried fd a len (nat (m - k)) w (Done x))
    (\<lambda>c. retried fd a len (nat (m - k)) w (Exit c)) w"
  using assms
proof (induction "nat (m - k)" arbitrary: k w)
  case 0
  then have k: "k = m" by simp
  have len: "sockaddr_len a = ret len" using "0.prems" by (auto simp: sockaddr_len_def)
  show ?case
    by (subst retry.simps)
      (use "0.prems" in \<open>auto simp: k len connect_error_def wp_simps retried_def after_call_def say_def
        intro!: exI [of _ "[reply K (Rq_connect fd a len) w]"] simp del: ret_run bnd_gets\<close>)
next
  case (Suc n)
  then have k: "nat (m - (k + 1)) = n" "k < m" "nat (m - k) = Suc n" by simp_all
  have len: "sockaddr_len a = ret len" using Suc.prems by (auto simp: sockaddr_len_def)
  let ?rq = "Rq_connect fd a len"
  have IH: "wp (retry K fd a m (k + 1)) (\<lambda>x. retried fd a len n w' (Done x)) (\<lambda>c. retried fd a len n w' (Exit c)) w'"
    for w' :: "('k, 'm) world_scheme"
    using Suc.hyps(1) [of "k + 1" w'] k Suc.prems by simp
  have again: "wp (retry K fd a m (k + 1)) (\<lambda>x. retried fd a len (Suc n) w (Done x))
      (\<lambda>c. retried fd a len (Suc n) w (Exit c)) (say m2 (say m1 (after_call K ?rq w)))"
    if "r_ret (reply K ?rq w) < 0" "r_errno (reply K ?rq w) = EADDRNOTAVAIL" for m1 m2
    using IH [of "say m2 (say m1 (after_call K ?rq w))"]
    by (rule wp_conseq) (use that in \<open>auto intro: retried_again\<close>)
  show ?case
    by (subst retry.simps, unfold k(3))
      (use Suc.prems k again in \<open>auto simp: len connect_error_def wp_simps retried_def after_call_def say_def
        intro!: exI [of _ "[reply K (Rq_connect fd a len) w]"] simp del: ret_run bnd_gets\<close>)
qed

lemma wp_connect_retries:
  assumes "ss_family a \<in> {AF_INET, AF_INET6}" "0 \<le> m" "m < INT_MAX"
    and "\<And>x v. retried fd a (if ss_family a = AF_INET then sizeof_sockaddr_in else sizeof_sockaddr_in6) (nat m) w
        (Done x) v \<Longrightarrow> Q x v"
    and "\<And>c v. retried fd a (if ss_family a = AF_INET then sizeof_sockaddr_in else sizeof_sockaddr_in6) (nat m) w
        (Exit c) v \<Longrightarrow> E c v"
  shows "wp (connect_retries K fd a m) Q E w"
  unfolding connect_retries_def
  by (rule wp_conseq [OF wp_retry]) (use assms in auto)

section \<open>The connections of a run\<close>

fun successes :: "(sysreq \<times> sysres) list \<Rightarrow> nat" where
  "successes [] = 0"
| "successes ((Rq_connect _ _ _, r) # es) = (if r_ret r < 0 then 0 else 1) + successes es"
| "successes (_ # es) = successes es"

text \<open>The sockets opened and not closed, after a sequence of calls that begins with \<open>M\<close> open.\<close>

fun unclosed :: "int multiset \<Rightarrow> (sysreq \<times> sysres) list \<Rightarrow> int multiset" where
  "unclosed M [] = M"
| "unclosed M ((Rq_socket _ _ _, r) # es) = unclosed (if r_ret r < 0 then M else add_mset (r_ret r) M) es"
| "unclosed M ((Rq_close fd, _) # es) = unclosed (M - {#fd#}) es"
| "unclosed M (_ # es) = unclosed M es"

lemma successes_append [simp]: "successes (xs @ ys) = successes xs + successes ys"
  by (induction xs rule: successes.induct) simp_all

lemma unclosed_append [simp]: "unclosed M (xs @ ys) = unclosed (unclosed M xs) ys"
  by (induction M xs rule: unclosed.induct) simp_all

lemma unclosed_connects [simp]: "unclosed M (connects fd a len rs) = M"
  by (induction rs) simp_all





lemma client_fields [simp]:
  "close_conn (after_call K rq w) = close_conn w" "close_conn (say m w) = close_conn w"
  by (simp_all add: after_call_def say_def)










section \<open>Properties\<close>

text \<open>
  C19.  \<open>connect_retries\<close> ends after at most \<open>max_retries + 1\<close> attempts and does what the reference says.
  For every kernel and every address of a known family there is a sequence of answers to \<open>connect\<close>,
  at most \<open>max_retries + 1\<close> of them, of which all but the last failed with \<open>EADDRNOTAVAIL\<close>, and the last
  decides: success returns its value and leaves the socket open; a reset ends the process with
  \<open>EXIT_FAIL_REUSEPORT\<close>, every other error and the last allowed attempt with \<open>EXIT_FAIL_SOCK\<close>, both after
  closing the socket.
\<close>

theorem connect_retries_verdict:
  assumes "ss_family a \<in> {AF_INET, AF_INET6}" "0 \<le> m" "m < INT_MAX"
    and run: "connect_retries K fd a m w = (x, w')"
  shows "\<exists>rs cl. verdict (nat m) rs = Some x \<and> length rs \<le> nat m + 1
    \<and> trace w' = trace w @ map (\<lambda>r. (Rq_connect fd a
        (if ss_family a = AF_INET then sizeof_sockaddr_in else sizeof_sockaddr_in6), r)) rs @ cl
    \<and> (case x of Done _ \<Rightarrow> cl = [] | _ \<Rightarrow> (\<exists>r. cl = [(Rq_close fd, r)]))"
proof -
  let ?len = "if ss_family a = AF_INET then sizeof_sockaddr_in else sizeof_sockaddr_in6"
  have "wp (connect_retries K fd a m) (\<lambda>x. retried fd a ?len (nat m) w (Done x)) (\<lambda>c. retried fd a ?len (nat m) w (Exit c)) w"
    using assms(1-3) by (rule wp_connect_retries)
  from wp_result [OF this run] have "retried fd a ?len (nat m) w x w'" by auto
  then show ?thesis
    unfolding retried_def connects_def by (metis verdict_length Suc_eq_plus1)
qed

theorem connect_retries_verdict_witness:
  "\<exists>x w'. connect_retries scripted 3 (sockaddr_zero\<lparr>ss_family := AF_INET\<rparr>) 2
       (boot [sysres_of (- 1) EADDRNOTAVAIL, sysres_of (- 1) ECONNRESET]) = (x, w')
     \<and> x = Exit EXIT_FAIL_REUSEPORT \<and> (\<exists>rs. length rs \<le> 3 \<and> verdict 2 rs = Some x)"
proof -
  obtain x w' where run: "connect_retries scripted 3 (sockaddr_zero\<lparr>ss_family := AF_INET\<rparr>) 2
       (boot [sysres_of (- 1) EADDRNOTAVAIL, sysres_of (- 1) ECONNRESET]) = (x, w')" by fastforce
  have "fst (connect_retries scripted 3 (sockaddr_zero\<lparr>ss_family := AF_INET\<rparr>) 2
       (boot [sysres_of (- 1) EADDRNOTAVAIL, sysres_of (- 1) ECONNRESET])) = Exit EXIT_FAIL_REUSEPORT" by code_simp
  with run connect_retries_verdict [OF _ _ _ run] show ?thesis by (auto simp: INT_MAX_def)
qed






end
