(* ===== verification/UdpEcho.thy ===== *)
theory UdpEcho
  imports CommonSocket Traffic Decimal
begin

text \<open>
  \<open>src/src/udp_echo.c\<close>: a server that sends every datagram back to where it came from, together with
  the ancillary data it came with, so that the reply leaves from the address the request was sent to.
  The loop of the program is also the one of \<open>src/src/udp_example02.c\<close>; what differs is the report
  it prints of each datagram, which is the interface of the locale \<open>echo_report\<close> below.
\<close>

section \<open>Definitions\<close>

definition PORT :: u16 where [c_consts]: "PORT = 4040"

text \<open>
  The walk over the ancillary data.  \<open>None\<close> is a structure that nothing has been written to yet.
\<close>

definition cmsg_copy :: "cmsg \<Rightarrow> nat \<Rightarrow> ('s, bytes) prog" where
  "cmsg_copy c n = (if length (cmsg_data c) < n then ub Out_of_bounds else ret (take n (cmsg_data c)))"

definition unknown_cmsg :: "cmsg \<Rightarrow> ('k, 'm, unit) cprog" where
  "unknown_cmsg c = eprintf ''Unknown ancillary data, len=%lu, level=%d, type=%d''
     [PI (cmsg_len c), PI (cmsg_level c), PI (cmsg_type c)]"

fun pktinfo_walk :: "cmsg list \<Rightarrow> int \<times> bytes option \<times> bytes option
    \<Rightarrow> ('k, 'm, int \<times> bytes option \<times> bytes option) cprog" where
  "pktinfo_walk [] x = ret x"
| "pktinfo_walk (c # cs) (res, pktinfo, pktinfo6) =
     (if cmsg_level c = IPPROTO_IP \<and> cmsg_type c = IP_PKTINFO then
        bnd (cmsg_copy c 12) (\<lambda>d. pktinfo_walk cs (AF_INET, Some d, pktinfo6))
      else if cmsg_level c = IPPROTO_IPV6 \<and> cmsg_type c = IPV6_PKTINFO then
        bnd (cmsg_copy c 20) (\<lambda>d. pktinfo_walk cs (AF_INET6, pktinfo, Some d))
      else bnd (unknown_cmsg c) (\<lambda>_. pktinfo_walk cs (res, pktinfo, pktinfo6)))"

definition controls :: "msghdr \<Rightarrow> cmsg list" where
  "controls m = (if msg_controllen m = 0 then [] else case msg_control m of None \<Rightarrow> [] | Some cs \<Rightarrow> cs)"

definition pktinfo_get :: "msghdr \<Rightarrow> ('k, 'm, int \<times> bytes option \<times> bytes option) cprog" where
  "pktinfo_get my_hdr = pktinfo_walk (controls my_hdr) (- 1, None, None)"

text \<open>The fields of \<open>in_pktinfo\<close> and \<open>in6_pktinfo\<close>.\<close>

definition ipi_ifindex :: "bytes \<Rightarrow> int" where "ipi_ifindex d = sint (un_le32 (take 4 d))"
definition ipi_spec_dst :: "bytes \<Rightarrow> bytes" where "ipi_spec_dst d = take 4 (drop 4 d)"
definition ipi_addr :: "bytes \<Rightarrow> bytes" where "ipi_addr d = take 4 (drop 8 d)"
definition ipi6_addr :: "bytes \<Rightarrow> bytes" where "ipi6_addr d = take 16 d"

text \<open>\<open>inet_ntop\<close> into an array on the stack, which stays as it was where the call fails.\<close>

definition ntop_into :: "'k kernel \<Rightarrow> int \<Rightarrow> bytes \<Rightarrow> ('k, 'm, string option) cprog" where
  "ntop_into K family addr =
     bnd (syscall K (Rq_inet_ntop family addr)) (\<lambda>r.
     bnd (when_do (r_text r = None) (perror ''inet_ntop'')) (\<lambda>_.
     ret (r_text r)))"

definition info_addresses ::
  "'k kernel \<Rightarrow> msghdr \<Rightarrow> int \<Rightarrow> bytes option \<Rightarrow> bytes option
   \<Rightarrow> ('k, 'm, u16 option \<times> string option \<times> string option) cprog" where
  "info_addresses K my_hdr addr_family pktinfo pktinfo6 =
     (if addr_family = AF_INET then
        bnd (initialised (msg_name my_hdr)) (\<lambda>rem_addr.
        bnd (ntop_into K addr_family (sin_addr rem_addr)) (\<lambda>from_addr.
        bnd (initialised pktinfo) (\<lambda>d.
        bnd (ntop_into K addr_family (ipi_spec_dst d)) (\<lambda>to_addr.
        ret (Some (sin_port rem_addr), from_addr, to_addr)))))
      else if addr_family = AF_INET6 then
        bnd (initialised (msg_name my_hdr)) (\<lambda>rem_addr.
        bnd (ntop_into K addr_family (sin6_addr rem_addr)) (\<lambda>from_addr.
        bnd (initialised pktinfo6) (\<lambda>d.
        bnd (ntop_into K addr_family (ipi6_addr d)) (\<lambda>to_addr.
        ret (Some (sin_port rem_addr), from_addr, to_addr)))))
      else
        bnd (eprintf ''No destination IP data found (ancillary data)'' []) (\<lambda>_.
        ret (None, None, None)))"

definition print_addresses ::
  "int \<Rightarrow> bytes option \<Rightarrow> u16 option \<times> string option \<times> string option \<Rightarrow> ('k, 'm, unit) cprog" where
  "print_addresses addr_family pktinfo = (\<lambda>(rem_port, from_addr, to_addr).
     bnd (initialised to_addr) (\<lambda>t.
     bnd (printf ''Got contacted on dst addr=%s '' [PS t]) (\<lambda>_.
     bnd (initialised from_addr) (\<lambda>f.
     bnd (printf ''From src addr=%s '' [PS f]) (\<lambda>_.
     bnd (initialised rem_port) (\<lambda>p.
     bnd (printf ''port=%d'' [PI (uint (htons p))]) (\<lambda>_.
     bnd (gets verbose) (\<lambda>v.
     when_do (v \<noteq> 0 \<and> addr_family = AF_INET)
       (bnd (printf '' Extra data:'' []) (\<lambda>_.
        bnd (initialised pktinfo) (\<lambda>d.
        bnd (printf '' - Header destination address (pktinfo.ipi_addr)=%s'' [PS (inet_ntoa (ipi_addr d))]) (\<lambda>_.
        printf '' - Interface index (pktinfo.ipi_ifindex)=%d'' [PI (ipi_ifindex d)]))))))))))))"

definition print_info :: "'k kernel \<Rightarrow> msghdr \<Rightarrow> ('k, 'm, unit) cprog" where
  "print_info K my_hdr =
     bnd (pktinfo_get my_hdr) (\<lambda>(addr_family, pktinfo, pktinfo6).
     bnd (info_addresses K my_hdr addr_family pktinfo pktinfo6) (\<lambda>names.
     print_addresses addr_family pktinfo names))"

subsection \<open>The loop\<close>

definition sizeof_frame :: nat where [c_consts]: "sizeof_frame = 8192"

text \<open>The header handed to \<open>recvmsg\<close>, with \<open>namelen\<close> bytes for the sender's address.\<close>

definition echo_msghdr :: "ptr \<Rightarrow> int \<Rightarrow> msghdr" where
  "echo_msghdr frame namelen = \<lparr>msg_name = Some sockaddr_zero, msg_namelen = namelen,
     msg_iov = [\<lparr>iov_base = frame, iov_len = of_nat sizeof_frame\<rparr>], msg_iovlen = 1,
     msg_control = Some [], msg_controllen = 512\<rparr>"

text \<open>
  One round, without the count: \<open>Inl\<close> where \<open>recvmsg\<close> failed.  \<open>report\<close> is what the program prints.
\<close>

definition echo_round ::
  "'k kernel \<Rightarrow> int \<Rightarrow> ptr \<Rightarrow> int \<Rightarrow> (msghdr \<Rightarrow> int \<Rightarrow> 'a \<Rightarrow> ('k, 'm, 'a) cprog) \<Rightarrow> 'a \<Rightarrow> ('k, 'm, unit + 'a) cprog" where
  "echo_round K fd frame namelen report st =
     bnd (recvmsg K fd (echo_msghdr frame namelen) 0) (\<lambda>(res, m).
     if res = - 1 then ret (Inl ())
     else
       bnd (report m res st) (\<lambda>st'.
       let m' = m\<lparr>msg_iov := [\<lparr>iov_base = frame, iov_len = to_u64 res\<rparr>]\<rparr> in
       bnd (gather (msg_iov m')) (\<lambda>data.
       bnd (syscall K (Rq_sendmsg_hdr fd m' data 0)) (\<lambda>_.
       ret (Inr st')))))"

text \<open>
  \<open>while (1)\<close> with \<open>if (--count == 0) break\<close>: the decrement of the least \<open>int\<close> overflows.
\<close>

function echo_loop ::
  "'k kernel \<Rightarrow> int \<Rightarrow> ptr \<Rightarrow> int \<Rightarrow> (msghdr \<Rightarrow> int \<Rightarrow> 'a \<Rightarrow> ('k, 'm, 'a) cprog) \<Rightarrow> int \<Rightarrow> 'a \<Rightarrow> ('k, 'm, unit) cprog" where
  "echo_loop K fd frame namelen report count st =
     bnd (echo_round K fd frame namelen report st) (\<lambda>x.
     case x of
       Inl _ \<Rightarrow> ret ()
     | Inr st' \<Rightarrow>
         (if count \<le> INT_MIN then ub Signed_overflow
          else if count - 1 = 0 then ret ()
          else echo_loop K fd frame namelen report (count - 1) st'))"
  by pat_completeness auto
termination
  by (relation "measure (\<lambda>(_, _, _, _, _, n, _). nat (n - INT_MIN))") auto

declare echo_loop.simps [simp del]

text \<open>The report of \<open>udp_echo\<close>, with no variables of its own that last.\<close>

definition echo_verbose :: "'k kernel \<Rightarrow> msghdr \<Rightarrow> int \<Rightarrow> unit \<Rightarrow> ('k, 'm, unit) cprog" where
  "echo_verbose K m res _ =
     bnd (gets verbose) (\<lambda>v.
     when_do (0 < v)
       (bnd (print_info K m) (\<lambda>_.
        printf '' Echo back packet, size=%d'' [PI res])))"

record echo_cfg =
  ec_count :: int
  ec_port :: u16
  ec_family :: int

definition echo_cfg0 :: echo_cfg where
  "echo_cfg0 = \<lparr>ec_count = 1000000, ec_port = PORT, ec_family = AF_INET6\<rparr>"

definition echo_option :: "optres \<Rightarrow> echo_cfg \<Rightarrow> ('k, 'm, echo_cfg) cprog" where
  "echo_option x g =
     (if opt_is x (CHR ''c'') then bnd (atoi_arg (o_arg x)) (\<lambda>n. ret (g\<lparr>ec_count := n\<rparr>))
      else if opt_is x (CHR ''l'') then bnd (atoi_arg (o_arg x)) (\<lambda>n. ret (g\<lparr>ec_port := word_of_int n\<rparr>))
      else if opt_is x (CHR ''4'') then ret (g\<lparr>ec_family := AF_INET\<rparr>)
      else if opt_is x (CHR ''6'') then ret (g\<lparr>ec_family := AF_INET6\<rparr>)
      else if opt_is x (CHR ''v'') then
        bnd (atoi_arg (o_arg x)) (\<lambda>n. bnd (modify (\<lambda>w. w\<lparr>verbose := n\<rparr>)) (\<lambda>_. ret g))
      else ret g)"

fun echo_parse :: "optres list \<Rightarrow> echo_cfg \<Rightarrow> ('k, 'm, echo_cfg) cprog" where
  "echo_parse [] g = ret g"
| "echo_parse (x # xs) g = bnd (echo_option x g) (echo_parse xs)"

text \<open>From the socket on.  \<open>stack\<close> is what lies in the array \<open>frame\<close> at the start.\<close>

definition echo_serve :: "'k kernel \<Rightarrow> bytes \<Rightarrow> echo_cfg \<Rightarrow> ('k, 'm, int) cprog" where
  "echo_serve K stack g =
     bnd (Socket K (ec_family g) SOCK_DGRAM 0) (\<lambda>fd.
     bnd (syscall K (Rq_bind fd (sockaddr_zero\<lparr>ss_family := ec_family g, sin_port := htons (ec_port g)\<rparr>)
            sizeof_sockaddr_storage)) (\<lambda>r.
     if r_ret r = - 1 then bnd (perror ''bind'') (\<lambda>_. ret 1)
     else
     bnd (syscall K (Rq_setsockopt fd SOL_IP IP_PKTINFO (OptInt 1))) (\<lambda>_.
     bnd (syscall K (Rq_setsockopt fd IPPROTO_IPV6 IPV6_RECVPKTINFO (OptInt 1))) (\<lambda>_.
     bnd (stack_array sizeof_frame stack) (\<lambda>frame.
     bnd (echo_loop K fd frame sizeof_sockaddr_storage (echo_verbose K) (ec_count g) ()) (\<lambda>_.
     ret 0))))))"

definition echo_main :: "'k kernel \<Rightarrow> bytes \<Rightarrow> optres list \<Rightarrow> ('k, 'm, int) cprog" where
  "echo_main K stack opts = bnd (echo_parse opts echo_cfg0) (echo_serve K stack)"

section \<open>What an echo server promises\<close>

definition traffic :: "(sysreq \<times> sysres) list \<Rightarrow> (sysreq \<times> sysres) list" where
  "traffic es = filter (\<lambda>e. is_rx (fst e) \<or> is_tx (fst e)) es"

lemma traffic_simps [simp]:
  "traffic [] = []" "traffic (xs @ ys) = traffic xs @ traffic ys"
  "traffic ((rq, r) # es) = (if is_rx rq \<or> is_tx rq then (rq, r) # traffic es else traffic es)"
  by (simp_all add: traffic_def)

text \<open>
  The second call answers the first: the same payload, to the address it came from, with the
  ancillary data it came with.
\<close>

definition answers :: "int \<Rightarrow> sysreq \<times> sysres \<Rightarrow> sysreq \<times> sysres \<Rightarrow> bool" where
  "answers fd e f \<longleftrightarrow> (let x = first_msg (snd e) in
     (\<exists>m. fst e = Rq_recvmsg fd m 0) \<and> 0 \<le> r_ret (snd e)
     \<and> (\<exists>m. fst f = Rq_sendmsg_hdr fd m (rx_data x) 0 \<and> msg_name m = Some (rx_name x)
          \<and> msg_namelen m = rx_namelen x \<and> msg_control m = Some (rx_control x)
          \<and> msg_controllen m = rx_controllen x))"

definition echoes :: "int \<Rightarrow> nat \<Rightarrow> (sysreq \<times> sysres) list \<Rightarrow> bool" where
  "echoes fd n es \<longleftrightarrow> length es = 2 * n \<and> (\<forall>i < n. answers fd (es ! (2 * i)) (es ! (2 * i + 1)))"

lemma echoes_0 [simp]: "echoes fd 0 es \<longleftrightarrow> es = []"
  by (simp add: echoes_def)

lemma echoes_Suc: "echoes fd (Suc n) (e # f # es) \<longleftrightarrow> answers fd e f \<and> echoes fd n es"
proof -
  have "(\<forall>i < Suc n. answers fd ((e # f # es) ! (2 * i)) ((e # f # es) ! (2 * i + 1)))
      \<longleftrightarrow> answers fd e f \<and> (\<forall>i < n. answers fd (es ! (2 * i)) (es ! (2 * i + 1)))"
    by (simp add: All_less_Suc2)
  then show ?thesis by (auto simp: echoes_def)
qed

text \<open>All datagrams answered, or all until \<open>recvmsg\<close> failed.\<close>

definition served_all :: "int \<Rightarrow> nat \<Rightarrow> (sysreq \<times> sysres) list \<Rightarrow> bool" where
  "served_all fd n es \<longleftrightarrow> echoes fd n es
     \<or> (\<exists>k < n. \<exists>es' m r. es = es' @ [(Rq_recvmsg fd m 0, r)] \<and> echoes fd k es' \<and> r_ret r = - 1)"

lemma served_all_step: "answers fd e f \<Longrightarrow> served_all fd n es \<Longrightarrow> served_all fd (Suc n) (e # f # es)"
  unfolding served_all_def
  by (metis Suc_mono append_Cons echoes_Suc)

lemma served_all_stop: "r_ret r = - 1 \<Longrightarrow> 0 < n \<Longrightarrow> served_all fd n [(Rq_recvmsg fd m 0, r)]"
  unfolding served_all_def by (intro disjI2 exI [of _ 0] exI [of _ "[]"]) auto

text \<open>A program that neither sends nor receives and leaves the memory alone.\<close>

definition quiet :: "('k, 'm) world_scheme \<Rightarrow> ('k, 'm) world_scheme \<Rightarrow> bool" where
  "quiet w v \<longleftrightarrow> heap v = heap w \<and> next_blk v = next_blk w \<and> (\<exists>es. trace v = trace w @ es \<and> traffic es = [])"

lemma quiet_refl [simp, intro!]: "quiet w w"
  by (simp add: quiet_def)

lemma quiet_say [simp]: "quiet u (say m w) = quiet u w"
  by (auto simp: quiet_def)

lemma quiet_call [simp]: "\<not> is_rx rq \<Longrightarrow> \<not> is_tx rq \<Longrightarrow> quiet u w \<Longrightarrow> quiet u (after_call K rq w)"
  by (auto simp: quiet_def)

text \<open>What the server relies on of \<open>recvmsg\<close> beside the sizes: an error is -1, and what it reports of a
  datagram is complete.\<close>

definition delivers :: "(msghdr \<Rightarrow> bool) \<Rightarrow> 'k kernel \<Rightarrow> bool" where
  "delivers informed K \<longleftrightarrow> keeps_to_buffers K \<and> (\<forall>fd m flags k. let r = fst (K (Rq_recvmsg fd m flags) k) in
     - 1 \<le> r_ret r \<and> (0 \<le> r_ret r \<longrightarrow> informed (take_rx m (first_msg r))))"

lemma deliversD:
  assumes "delivers informed K" "r = reply K (Rq_recvmsg fd m flags) w"
  shows "- 1 \<le> r_ret r" "0 \<le> r_ret r \<Longrightarrow> informed (take_rx m (first_msg r))"
  using assms by (simp_all add: delivers_def reply_def Let_def)

locale echo_report =
  fixes report :: "'k kernel \<Rightarrow> msghdr \<Rightarrow> int \<Rightarrow> 'a \<Rightarrow> (('k, 'm) world_scheme, 'a) prog"
    and resolves :: "'k kernel \<Rightarrow> bool"
    and informed :: "msghdr \<Rightarrow> bool"
  assumes report_quiet: "resolves K \<Longrightarrow> informed m \<Longrightarrow> wp (report K m res st) (\<lambda>_. quiet w) (\<lambda>_ _. False) w"
begin

definition ready :: "'k kernel \<Rightarrow> bool" where
  "ready K \<longleftrightarrow> resolves K \<and> delivers informed K"

lemma round_answers:
  fixes w :: "('k, 'm) world_scheme"
  assumes K: "ready K" and h: "heap w b = Some bs" "length bs = sizeof_frame"
    and stop: "\<And>v m r. trace v = trace w @ [(Rq_recvmsg fd m 0, r)] \<Longrightarrow> r_ret r = - 1 \<Longrightarrow> Q (Inl ()) v"
    and go: "\<And>v bs' es st' e f. trace v = trace w @ es \<Longrightarrow> traffic es = [e, f] \<Longrightarrow> answers fd e f \<Longrightarrow>
      heap v b = Some bs' \<Longrightarrow> length bs' = sizeof_frame \<Longrightarrow> Q (Inr st') v"
  shows "wp (echo_round K fd (Ptr b 0) nl (report K) st) Q E w"
proof -
  let ?m = "echo_msghdr (Ptr b 0) nl"
  let ?rq = "Rq_recvmsg fd ?m 0"
  let ?rest = "\<lambda>(res, m). if res = - 1 then ret (Inl ()) else bnd (report K m res st) (\<lambda>st'.
       let m' = m\<lparr>msg_iov := [\<lparr>iov_base = Ptr b 0, iov_len = to_u64 res\<rparr>]\<rparr> in
       bnd (gather (msg_iov m')) (\<lambda>data.
       bnd (syscall K (Rq_sendmsg_hdr fd m' data 0)) (\<lambda>_. ret (Inr st'))))"
  have D: "delivers informed K" "resolves K" using K by (simp_all add: ready_def)
  then have kb: "keeps_to_buffers K" by (simp add: delivers_def)
  have "wp (recvmsg K fd ?m 0) (\<lambda>x. wp (?rest x) Q E) E w"
  proof (rule wp_recvmsg_one [OF kb, where b = b and n = "of_nat sizeof_frame" and bs = bs])
    show "msg_iov ?m = [\<lparr>iov_base = Ptr b 0, iov_len = of_nat sizeof_frame\<rparr>]" by (simp add: echo_msghdr_def)
    show "heap w b = Some bs" "unat (of_nat sizeof_frame :: u64) \<le> length bs" using h by (simp_all add: sizeof_frame_def)
  next
    fix r assume "r = reply K ?rq w" "r_ret r < 0"
    moreover from this have "r_ret r = - 1" using deliversD(1) [OF D(1), of r fd ?m 0 w] by simp
    ultimately show "wp (?rest (r_ret r, ?m)) Q E (after_call K ?rq w)"
      by (simp add: wp_simps stop)
  next
    fix r assume r: "r = reply K ?rq w" and n: "r_ret r = int (length (rx_data (first_msg r)))"
      "length (rx_data (first_msg r)) \<le> unat (of_nat sizeof_frame :: u64)"
    let ?x = "first_msg r" and ?w1 = "set_block b (Some (overwrite bs 0 (rx_data (first_msg r)))) (after_call K ?rq w)"
    let ?m1 = "take_rx ?m ?x"
    have len: "length (rx_data ?x) \<le> sizeof_frame" using n by (simp add: sizeof_frame_def)
    have "r_ret r \<noteq> - 1" "informed ?m1" using deliversD(2) [OF D(1) r] n(1) by simp_all
    then have "wp (report K ?m1 (r_ret r) st) (\<lambda>_. quiet ?w1) (\<lambda>_ _. False) ?w1"
      by (intro report_quiet D)
    moreover
    let ?m2 = "?m1\<lparr>msg_iov := [\<lparr>iov_base = Ptr b 0, iov_len = to_u64 (r_ret r)\<rparr>]\<rparr>"
    have u: "uint (to_u64 (r_ret r)) = int (length (rx_data ?x))"
      using n(1) len by (subst uint_to_u64) (simp_all add: sizeof_frame_def)
    have "wp (bnd (gather (msg_iov ?m2)) (\<lambda>data. bnd (syscall K (Rq_sendmsg_hdr fd ?m2 data 0)) (\<lambda>_. ret (Inr st')))) Q E v"
      if v: "quiet ?w1 v" for v st'
    proof -
      from v obtain es where es: "trace v = trace w @ (?rq, r) # es" "traffic es = []"
        and hv: "heap v b = Some (overwrite bs 0 (rx_data ?x))"
        by (auto simp: quiet_def r)
      let ?tx = "Rq_sendmsg_hdr fd ?m2 (rx_data ?x) 0"
      have "Q (Inr st') (after_call K ?tx v)"
        by (rule go [where es = "(?rq, r) # es @ [(?tx, reply K ?tx v)]" and e = "(?rq, r)" and f = "(?tx, reply K ?tx v)"
              and bs' = "overwrite bs 0 (rx_data ?x)"])
          (use es hv h len n in \<open>simp_all add: answers_def echo_msghdr_def take_rx_def\<close>)
      moreover have "take (length (rx_data ?x)) (overwrite bs 0 (rx_data ?x)) = rx_data ?x"
        by (simp add: overwrite_def)
      ultimately show ?thesis
        using hv h len by (simp add: wp_simps u del: ret_run)
    qed
    ultimately show "wp (?rest (r_ret r, ?m1)) Q E ?w1"
      using \<open>r_ret r \<noteq> - 1\<close> by (simp add: wp_bnd Let_def del: gather.simps) (auto elim!: wp_conseq simp: wp_bnd simp del: gather.simps)
  qed
  then show ?thesis by (simp add: echo_round_def wp_bnd)
qed

lemma loop_answers:
  fixes w :: "('k, 'm) world_scheme"
  assumes K: "ready K" and h: "heap w b = Some bs" "length bs = sizeof_frame" and n: "0 < count"
  shows "wp (echo_loop K fd (Ptr b 0) nl (report K) count st)
    (\<lambda>_ v. \<exists>es. trace v = trace w @ es \<and> served_all fd (nat count) (traffic es)) (\<lambda>_ _. False) w"
  using h n
proof (induction "nat (count - 1)" arbitrary: count st w bs)
  case 0
  then have "count = 1" by simp
  have "wp (echo_round K fd (Ptr b 0) nl (report K) st) (\<lambda>_ v. \<exists>es. trace v = trace w @ es \<and> served_all fd 1 (traffic es))
      (\<lambda>_ _. False) w"
  proof (rule round_answers [OF K "0.prems"(1,2)])
    fix m r and v :: "('k, 'm) world_scheme"
    assume "trace v = trace w @ [(Rq_recvmsg fd m 0, r)]" "r_ret r = - 1"
    then show "\<exists>es. trace v = trace w @ es \<and> served_all fd 1 (traffic es)"
      by (auto simp: served_all_def)
  next
    fix es e f bs' and v :: "('k, 'm) world_scheme"
    assume "trace v = trace w @ es" "traffic es = [e, f]" "answers fd e f"
    then show "\<exists>es. trace v = trace w @ es \<and> served_all fd 1 (traffic es)"
      using echoes_Suc [of fd 0 e f "[]"] by (auto simp: served_all_def)
  qed
  then show ?case
    by (subst echo_loop.simps)
      (auto simp: wp_bnd \<open>count = 1\<close> INT_MIN_def wp_simps split: sum.splits elim!: wp_conseq simp del: ret_run)
next
  case (Suc k)
  then have n: "\<not> count \<le> INT_MIN" "count - 1 \<noteq> 0" "0 < count - 1" "k = nat (count - 1 - 1)" "nat count = Suc (nat (count - 1))"
    by (simp_all add: INT_MIN_def)
  let ?P = "\<lambda>w n v. \<exists>es. trace v = trace w @ es \<and> served_all fd n (traffic es)"
  have "wp (echo_round K fd (Ptr b 0) nl (report K) st) (\<lambda>x. wp (case x of Inl _ \<Rightarrow> ret () | Inr st' \<Rightarrow>
      echo_loop K fd (Ptr b 0) nl (report K) (count - 1) st') (\<lambda>_. ?P w (nat count)) (\<lambda>_ _. False)) (\<lambda>_ _. False) w"
  proof (rule round_answers [OF K Suc.prems(1,2)])
    fix m r and v :: "('k, 'm) world_scheme"
    assume "trace v = trace w @ [(Rq_recvmsg fd m 0, r)]" "r_ret r = - 1"
    then have "?P w (nat count) v" using Suc.prems(3) by (auto simp: served_all_stop)
    then show "wp (case Inl () of Inl _ \<Rightarrow> ret () | Inr st' \<Rightarrow>
      echo_loop K fd (Ptr b 0) nl (report K) (count - 1) st') (\<lambda>_. ?P w (nat count)) (\<lambda>_ _. False) v"
      by (simp add: wp_ret)
  next
    fix es e f bs' st' and v :: "('k, 'm) world_scheme"
    assume v: "trace v = trace w @ es" "traffic es = [e, f]" "answers fd e f" "heap v b = Some bs'" "length bs' = sizeof_frame"
    have "?P w (nat count) u" if "?P v (nat (count - 1)) u" for u :: "('k, 'm) world_scheme"
    proof -
      from that obtain es' where "trace u = trace v @ es'" "served_all fd (nat (count - 1)) (traffic es')" by blast
      with v(1-3) n(5) show ?thesis by (intro exI [of _ "es @ es'"]) (simp add: served_all_step)
    qed
    with Suc.hyps(1) [OF n(4) v(4,5) n(3), of st']
    show "wp (case Inr st' of Inl _ \<Rightarrow> ret () | Inr st' \<Rightarrow>
      echo_loop K fd (Ptr b 0) nl (report K) (count - 1) st') (\<lambda>_. ?P w (nat count)) (\<lambda>_ _. False) v"
      by (auto elim!: wp_conseq)
  qed
  then show ?case
    by (subst echo_loop.simps) (use n in \<open>simp add: wp_bnd del: unit_abs_eta_conv\<close>)
qed

end

section \<open>The report of \<open>udp_echo\<close>\<close>

definition is_v4_info :: "cmsg \<Rightarrow> bool" where
  "is_v4_info c \<longleftrightarrow> cmsg_level c = IPPROTO_IP \<and> cmsg_type c = IP_PKTINFO"

definition is_v6_info :: "cmsg \<Rightarrow> bool" where
  "is_v6_info c \<longleftrightarrow> cmsg_level c = IPPROTO_IPV6 \<and> cmsg_type c = IPV6_PKTINFO"

text \<open>
  The documented answers of the kernel once the two socket options are set: a datagram comes with a
  structure of packet information, and such a structure is never cut short.
\<close>

definition info_whole :: "cmsg \<Rightarrow> bool" where
  "info_whole c \<longleftrightarrow> (is_v4_info c \<longrightarrow> 12 \<le> length (cmsg_data c)) \<and> (is_v6_info c \<longrightarrow> 20 \<le> length (cmsg_data c))"

definition informed_of :: "msghdr \<Rightarrow> bool" where
  "informed_of m \<longleftrightarrow> msg_name m \<noteq> None \<and> list_all info_whole (controls m)
     \<and> list_ex (\<lambda>c. is_v4_info c \<or> is_v6_info c) (controls m)"

definition names_addresses :: "'k kernel \<Rightarrow> bool" where
  "names_addresses K \<longleftrightarrow> (\<forall>family addr k. r_text (fst (K (Rq_inet_ntop family addr) k)) \<noteq> None)"

fun found_info :: "int \<times> bytes option \<times> bytes option \<Rightarrow> bool" where
  "found_info (res, pktinfo, pktinfo6) \<longleftrightarrow> res = AF_INET \<and> pktinfo \<noteq> None \<or> res = AF_INET6 \<and> pktinfo6 \<noteq> None"

lemma wp_pktinfo_walk:
  assumes "list_all info_whole cs" "found_info x \<or> list_ex (\<lambda>c. is_v4_info c \<or> is_v6_info c) cs" "quiet u w"
  shows "wp (pktinfo_walk cs x) (\<lambda>y v. found_info y \<and> quiet u v) E w"
  using assms
proof (induction cs x arbitrary: w rule: pktinfo_walk.induct)
  case (2 c cs res i4 i6)
  have w: "list_all info_whole cs" "info_whole c" "\<And>m. quiet u (say m w)" using "2.prems" by simp_all
  consider "is_v4_info c" | "is_v6_info c" "\<not> is_v4_info c" | "\<not> is_v4_info c" "\<not> is_v6_info c" by blast
  then show ?case
  proof cases
    case 1
    then have c: "cmsg_level c = IPPROTO_IP \<and> cmsg_type c = IP_PKTINFO" "12 \<le> length (cmsg_data c)"
      using w(2) by (auto simp: is_v4_info_def info_whole_def)
    show ?thesis using c "2.IH"(1) [OF c(1) w(1) _ "2.prems"(3)] by (simp add: cmsg_copy_def)
  next
    case 2
    then have c: "\<not> (cmsg_level c = IPPROTO_IP \<and> cmsg_type c = IP_PKTINFO)"
      "cmsg_level c = IPPROTO_IPV6 \<and> cmsg_type c = IPV6_PKTINFO" "20 \<le> length (cmsg_data c)"
      using w(2) by (auto simp: is_v4_info_def is_v6_info_def info_whole_def)
    show ?thesis using c "2.IH"(2) [OF c(1,2) w(1) _ "2.prems"(3)] by (simp add: cmsg_copy_def)
  next
    case 3
    then have c: "\<not> (cmsg_level c = IPPROTO_IP \<and> cmsg_type c = IP_PKTINFO)"
      "\<not> (cmsg_level c = IPPROTO_IPV6 \<and> cmsg_type c = IPV6_PKTINFO)"
      "found_info (res, i4, i6) \<or> list_ex (\<lambda>c. is_v4_info c \<or> is_v6_info c) cs"
      using "2.prems"(2) by (auto simp: is_v4_info_def is_v6_info_def)
    have "wp (pktinfo_walk (c # cs) (res, i4, i6)) (\<lambda>y v. found_info y \<and> quiet u v) E w
      = wp (pktinfo_walk cs (res, i4, i6)) (\<lambda>y v. found_info y \<and> quiet u v) E (say (Stderr
          ''Unknown ancillary data, len=%lu, level=%d, type=%d'' [PI (cmsg_len c), PI (cmsg_level c), PI (cmsg_type c)]) w)"
      using c(1,2) by (auto simp: unknown_cmsg_def wp_bnd wp_eprintf)
    then show ?thesis using "2.IH"(3) [OF c(1,2) w(1) c(3) w(3)] by simp
  qed
qed (simp add: wp_ret del: ret_run)

lemma names_addressesD: "names_addresses K \<Longrightarrow> \<exists>s. r_text (reply K (Rq_inet_ntop family addr) w) = Some s"
  by (simp add: names_addresses_def reply_def)

lemma wp_ntop_into:
  assumes "names_addresses K" "\<And>s. Q (Some s) (after_call K (Rq_inet_ntop family addr) w)"
  shows "wp (ntop_into K family addr) Q E w"
proof -
  from assms(1) obtain s where "r_text (reply K (Rq_inet_ntop family addr) w) = Some s"
    by (metis names_addressesD)
  then show ?thesis using assms(2) by (simp add: ntop_into_def wp_simps)
qed

lemma wp_info_addresses:
  assumes K: "names_addresses K" and m: "msg_name m = Some a" and f: "found_info (fam, i4, i6)" and w: "quiet u w"
    and Q: "\<And>p f t v. quiet u v \<Longrightarrow> Q (Some p, Some f, Some t) v"
  shows "wp (info_addresses K m fam i4 i6) Q E w"
  unfolding info_addresses_def m initialised_def
  using f w by (auto simp: wp_bnd wp_ret intro!: wp_ntop_into [OF K] Q split: option.splits simp del: ret_run)

lemma wp_print_info:
  fixes w :: "('k, 'm) world_scheme"
  assumes K: "names_addresses K" and m: "informed_of m"
  shows "wp (print_info K m) (\<lambda>_. quiet w) (\<lambda>_ _. False) w"
proof -
  obtain a where a: "msg_name m = Some a" using m by (auto simp: informed_of_def)
  have print: "wp (print_addresses fam i4 (Some p, Some f, Some t)) (\<lambda>_. quiet w) (\<lambda>_ _. False) v"
    if "quiet w v" "found_info (fam, i4, i6)" for fam i4 i6 p f t and v :: "('k, 'm) world_scheme"
    using that by (auto simp: print_addresses_def initialised_def wp_simps)
  have "wp (pktinfo_get m) (\<lambda>y v. found_info y \<and> quiet w v) (\<lambda>_ _. False) w"
    unfolding pktinfo_get_def using m by (intro wp_pktinfo_walk) (simp_all add: informed_of_def)
  then show ?thesis
    unfolding print_info_def wp_bnd [of "pktinfo_get _"]
    by (rule wp_conseq)
      (auto simp: wp_bnd intro!: wp_info_addresses [OF K a] print simp del: found_info.simps)
qed

interpretation udp_echo: echo_report echo_verbose names_addresses informed_of
proof unfold_locales
  fix K :: "'k kernel" and m res st and w :: "('k, 'm) world_scheme"
  assume "names_addresses K" "informed_of m"
  from wp_print_info [OF this, of w] show "wp (echo_verbose K m res st) (\<lambda>_. quiet w) (\<lambda>_ _. False) w"
    by (auto simp: echo_verbose_def wp_simps elim!: wp_conseq simp del: ret_run bnd_gets)
qed

section \<open>Properties\<close>

lemma wp_echo_serve:
  fixes w :: "('k, 'm) world_scheme"
  assumes K: "names_addresses K" "delivers informed_of K" and n: "0 < ec_count g"
  shows "wp (echo_serve K stack g)
    (\<lambda>x v. \<exists>fd es. trace v = trace w @ es \<and> (x = 0 \<and> served_all fd (nat (ec_count g)) (traffic es) \<or> x = 1 \<and> traffic es = []))
    (\<lambda>c v. c = EXIT_FAIL_SOCK \<and> (\<exists>es. trace v = trace w @ es \<and> traffic es = [])) w"
proof -
  have loop: "wp (echo_loop K fd (Ptr b 0) nl (echo_verbose K) (ec_count g) ())
      (\<lambda>_ v. \<exists>fd es. trace v = trace w @ es \<and> served_all fd (nat (ec_count g)) (traffic es)) E u"
    if u: "trace u = trace w @ es0" "traffic es0 = []" "heap u b = Some bs" "length bs = sizeof_frame"
    for fd b nl E bs es0 and u :: "('k, 'm) world_scheme"
  proof -
    have "udp_echo.ready K" using K by (simp add: udp_echo.ready_def)
    from udp_echo.loop_answers [OF this u(3,4) n]
    show ?thesis by (rule wp_conseq) (use u(1,2) in auto)
  qed
  show ?thesis
    unfolding echo_serve_def wp_bnd [of "Socket _ _ _ _"]
    by (rule wp_Socket) (auto simp: wp_simps intro!: loop simp del: ret_run)
qed

text \<open>
  C18.  \<open>udp_echo\<close> sends every datagram back.  On a kernel that delivers datagrams with their packet
  information, once the options are read with a positive count, the program has no undefined
  behaviour: it returns 0 after answering exactly \<open>--count\<close> datagrams, or fewer where \<open>recvmsg\<close> failed,
  each before the next is received, with the same bytes, to the address it came from and with the
  ancillary data it came with; or it stops, before any traffic, because there was no socket or the port
  could not be bound.
\<close>

theorem echo_replies:
  fixes w w1 w' :: "('k, 'm) world_scheme"
  assumes K: "names_addresses K" "delivers informed_of K"
    and parse: "echo_parse opts echo_cfg0 w = (Done g, w1)" and count: "0 < ec_count g"
    and run: "echo_main K stack opts w = (x, w')"
  shows "\<exists>fd es. trace w' = trace w1 @ es \<and>
    (x = Done 0 \<and> served_all fd (nat (ec_count g)) (traffic es)
     \<or> x \<in> {Done 1, Exit EXIT_FAIL_SOCK} \<and> traffic es = [])"
proof -
  have "echo_serve K stack g w1 = (x, w')"
    using run parse by (simp add: echo_main_def bnd_def del: echo_parse.simps)
  from wp_result [OF wp_echo_serve [OF K count] this] show ?thesis by blast
qed

text \<open>A kernel on which the same greeting arrives over and over.\<close>

definition greeting :: rxmsg where
  "greeting = rxmsg_zero\<lparr>rx_data := [72, 105],
     rx_name := sockaddr_zero\<lparr>ss_family := AF_INET, sin_port := 9, sin_addr := [192, 0, 2, 7]\<rparr>, rx_namelen := 16,
     rx_control := [\<lparr>cmsg_len = 28, cmsg_level = IPPROTO_IP, cmsg_type = IP_PKTINFO,
       cmsg_data = [2, 0, 0, 0, 192, 0, 2, 1, 192, 0, 2, 1]\<rparr>], rx_controllen := 32\<rparr>"

definition greeter :: "unit kernel" where
  "greeter rq k = (case rq of
       Rq_recvmsg fd m flags \<Rightarrow>
         (if 2 \<le> (\<Sum>v \<leftarrow> msg_iov m. uint (iov_len v)) \<and> msg_name m \<noteq> None \<and> msg_control m \<noteq> None
          then (sysres_of 2 0)\<lparr>r_msgs := [greeting]\<rparr> else sysres_of (- 1) EAGAIN, k)
     | Rq_inet_ntop family addr \<Rightarrow> ((sysres_of 1 0)\<lparr>r_text := Some ''192.0.2.7''\<rparr>, k)
     | _ \<Rightarrow> (sysres_of 3 0, k))"

lemma greeter_ok: "names_addresses greeter" "delivers informed_of greeter"
  by (auto simp: names_addresses_def delivers_def keeps_to_buffers_def greeter_def first_msg_def greeting_def
      rxmsg_zero_def sysres_of_def informed_of_def take_rx_def controls_def info_whole_def is_v4_info_def
      is_v6_info_def Let_def)

lemma greeter_serves:
  "wp (echo_serve greeter [] (echo_cfg0\<lparr>ec_count := 2\<rparr>)) (\<lambda>x _. x = 0) (\<lambda>_ _. False) (boot ())"
proof -
  have "udp_echo.ready greeter" using greeter_ok by (simp add: udp_echo.ready_def)
  note loop = udp_echo.loop_answers [OF this, where count = 2]
  have "wp (echo_loop greeter fd (Ptr b 0) nl (echo_verbose greeter) 2 ()) (\<lambda>_ _. True) (\<lambda>_ _. False) u"
    if "heap u b = Some bs" "length bs = sizeof_frame" for fd b nl bs and u :: "unit world"
    by (rule wp_conseq [OF loop [OF that]]) simp_all
  then show ?thesis
    unfolding echo_serve_def Socket_def
    by (simp add: wp_simps reply_def greeter_def sysres_of_def echo_cfg0_def del: ret_run)
qed

definition answer_two :: "optres list" where
  "answer_two = [\<lparr>o_c = of_char (CHR ''c''), o_arg = Some ''2'', o_longindex = 0\<rparr>]"

theorem echo_replies_witness:
  "\<exists>w'. echo_main greeter [] answer_two (boot ()) = (Done 0, w') \<and> (\<exists>fd. served_all fd 2 (traffic (trace w')))"
proof -
  obtain x w' where run: "echo_main greeter [] answer_two (boot ()) = (x, w')" by fastforce
  have "atoi ''2'' = 2" by code_simp
  then have parse: "echo_parse answer_two echo_cfg0 (boot ()) = (Done (echo_cfg0\<lparr>ec_count := 2\<rparr>), boot ())"
    by (simp add: answer_two_def echo_option_def atoi_arg_def bnd_def)
  then have "echo_serve greeter [] (echo_cfg0\<lparr>ec_count := 2\<rparr>) (boot ()) = (x, w')"
    using run by (simp add: echo_main_def bnd_def del: echo_parse.simps)
  from wp_result [OF greeter_serves this] have "x = Done 0" by simp
  with run echo_replies [OF greeter_ok parse _ run] show ?thesis by auto
qed

text \<open>
  Without packet information the report uses variables that nothing has written.  For a datagram
  whose ancillary data holds no packet information, of either kind, \<open>udp_echo\<close> at its default
  verbosity runs into undefined behaviour: after the message that no destination was found it prints
  the two address buffers anyway.
\<close>

theorem echo_needs_pktinfo:
  fixes w :: "('k, 'm) world_scheme"
  assumes none: "\<not> list_ex (\<lambda>c. is_v4_info c \<or> is_v6_info c) (controls m)" and v: "0 < verbose w"
  shows "fst (echo_verbose K m res () w) = UB Uninit_read"
proof -
  have "\<exists>v. pktinfo_walk cs (- 1, None, None) u = (Done (- 1, None, None), v)"
    if "\<not> list_ex (\<lambda>c. is_v4_info c \<or> is_v6_info c) cs" for cs and u :: "('k, 'm) world_scheme"
    using that
  proof (induction cs arbitrary: u)
    case (Cons c cs)
    then have "\<not> (cmsg_level c = IPPROTO_IP \<and> cmsg_type c = IP_PKTINFO)"
      "\<not> (cmsg_level c = IPPROTO_IPV6 \<and> cmsg_type c = IPV6_PKTINFO)"
      by (auto simp: is_v4_info_def is_v6_info_def)
    with Cons show ?case by (auto simp: unknown_cmsg_def eprintf_def)
  qed simp
  from this [OF none, of w] obtain u where "pktinfo_get m w = (Done (- 1, None, None), u)"
    unfolding pktinfo_get_def by blast
  with v show ?thesis
    by (simp add: echo_verbose_def print_info_def info_addresses_def print_addresses_def initialised_def bnd_def
        eprintf_def when_do_def)
qed

theorem echo_needs_pktinfo_witness:
  "fst (echo_verbose greeter msghdr_zero 2 () ((boot ())\<lparr>verbose := 1\<rparr>)) = UB Uninit_read"
  using echo_needs_pktinfo [of msghdr_zero "(boot ())\<lparr>verbose := 1\<rparr>" greeter 2]
  by (simp add: controls_def msghdr_zero_def)

end
