(* ===== verification/UdpExample02.thy ===== *)
theory UdpExample02
  imports UdpEcho
begin

text \<open>
  \<open>src/src/udp_example02.c\<close>: the IPv4 example \<open>udp_echo\<close> grew out of.  Its loop is that of \<open>udp_echo\<close>; its
  report keeps the packet information in a variable of \<open>main\<close>, so it is a second implementation of the
  interface \<open>echo_report\<close>.
\<close>

section \<open>Definitions\<close>

text \<open>The variable \<open>pktinfo\<close> keeps its value where no packet information is found.\<close>

fun example_walk :: "cmsg list \<Rightarrow> int \<times> bytes option \<Rightarrow> ('k, 'm, int \<times> bytes option) cprog" where
  "example_walk [] x = ret x"
| "example_walk (c # cs) (res, pktinfo) =
     (if cmsg_level c = IPPROTO_IP \<and> cmsg_type c = IP_PKTINFO then
        bnd (cmsg_copy c 12) (\<lambda>d. example_walk cs (0, Some d))
      else bnd (unknown_cmsg c) (\<lambda>_. example_walk cs (res, pktinfo)))"

definition example_pktinfo_get :: "msghdr \<Rightarrow> bytes option \<Rightarrow> ('k, 'm, int \<times> bytes option) cprog" where
  "example_pktinfo_get my_hdr pktinfo = example_walk (controls my_hdr) (- 1, pktinfo)"

definition example_report :: "'k kernel \<Rightarrow> msghdr \<Rightarrow> int \<Rightarrow> bytes option \<Rightarrow> ('k, 'm, bytes option) cprog" where
  "example_report K m res st =
     bnd (example_pktinfo_get m st) (\<lambda>(r, pktinfo).
     bnd (when_do (r = 0)
            (bnd (initialised pktinfo) (\<lambda>d.
             printf ''Got contacted on dst addr=%s '' [PS (inet_ntoa (ipi_spec_dst d))]))) (\<lambda>_.
     bnd (initialised (msg_name m)) (\<lambda>rem_addr.
     bnd (printf ''From src addr=%s port=%d''
            [PS (inet_ntoa (sin_addr rem_addr)), PI (uint (htons (sin_port rem_addr)))]) (\<lambda>_.
     bnd (printf '' Extra data:'' []) (\<lambda>_.
     bnd (initialised pktinfo) (\<lambda>d.
     bnd (printf '' - Header destination address (pktinfo.ipi_addr)=%s'' [PS (inet_ntoa (ipi_addr d))]) (\<lambda>_.
     bnd (printf '' - Interface index (pktinfo.ipi_ifindex)=%d'' [PI (ipi_ifindex d)]) (\<lambda>_.
     bnd (printf '' Echo back packet, size=%d'' [PI res]) (\<lambda>_.
     ret pktinfo)))))))))"

record example_cfg =
  ex_count :: int
  ex_port :: u16
  ex_tos :: bool

definition example_cfg0 :: example_cfg where
  "example_cfg0 = \<lparr>ex_count = 1000000, ex_port = PORT, ex_tos = False\<rparr>"

fun example_parse :: "optres list \<Rightarrow> example_cfg \<Rightarrow> ('k, 'm, example_cfg) cprog" where
  "example_parse [] g = ret g"
| "example_parse (x # xs) g =
     bnd (if opt_is x (CHR ''c'') then bnd (atoi_arg (o_arg x)) (\<lambda>n. ret (g\<lparr>ex_count := n\<rparr>))
          else if opt_is x (CHR ''l'') then bnd (atoi_arg (o_arg x)) (\<lambda>n. ret (g\<lparr>ex_port := word_of_int n\<rparr>))
          else if opt_is x (CHR ''t'') then ret (g\<lparr>ex_tos := True\<rparr>)
          else ret g) (example_parse xs)"

definition example_serve :: "'k kernel \<Rightarrow> bytes \<Rightarrow> int \<Rightarrow> example_cfg \<Rightarrow> ('k, 'm, int) cprog" where
  "example_serve K stack fd g =
     bnd (printf ''Listen port %d'' [PI (uint (ex_port g))]) (\<lambda>_.
     bnd (syscall K (Rq_bind fd (sockaddr_zero\<lparr>ss_family := AF_INET, sin_port := htons (ex_port g)\<rparr>)
            sizeof_sockaddr_in)) (\<lambda>r.
     if r_ret r = - 1 then bnd (perror ''bind'') (\<lambda>_. ret 1)
     else
     bnd (syscall K (Rq_setsockopt fd SOL_IP IP_PKTINFO (OptInt 1))) (\<lambda>_.
     bnd (when_do (ex_tos g)
            (bnd (syscall K (Rq_setsockopt fd SOL_IP IP_RECVTOS (OptInt 1))) (\<lambda>_. ret ()))) (\<lambda>_.
     bnd (stack_array sizeof_frame stack) (\<lambda>frame.
     bnd (echo_loop K fd frame sizeof_sockaddr_in (example_report K) (ex_count g) None) (\<lambda>_.
     ret 0))))))"

definition example_main :: "'k kernel \<Rightarrow> bytes \<Rightarrow> optres list \<Rightarrow> ('k, 'm, int) cprog" where
  "example_main K stack opts =
     bnd (Socket K AF_INET SOCK_DGRAM 0) (\<lambda>fd.
     bnd (example_parse opts example_cfg0) (example_serve K stack fd))"

section \<open>The report\<close>

text \<open>The kernel's documented answers once the socket option is set, as for \<open>udp_echo\<close>, for IPv4.\<close>

definition informed_v4 :: "msghdr \<Rightarrow> bool" where
  "informed_v4 m \<longleftrightarrow> msg_name m \<noteq> None \<and> list_all info_whole (controls m) \<and> list_ex is_v4_info (controls m)"

lemma wp_example_walk:
  assumes "list_all info_whole cs" "snd x \<noteq> None \<or> list_ex is_v4_info cs" "fst x = 0 \<longrightarrow> snd x \<noteq> None" "quiet u w"
  shows "wp (example_walk cs x) (\<lambda>y v. snd y \<noteq> None \<and> quiet u v) E w"
  using assms
proof (induction cs x arbitrary: w rule: example_walk.induct)
  case (2 c cs res pktinfo)
  have w: "list_all info_whole cs" "info_whole c" "\<And>m. quiet u (say m w)" using "2.prems" by simp_all
  show ?case
  proof (cases "is_v4_info c")
    case True
    then have c: "cmsg_level c = IPPROTO_IP \<and> cmsg_type c = IP_PKTINFO" "12 \<le> length (cmsg_data c)"
      using w(2) by (auto simp: is_v4_info_def info_whole_def)
    show ?thesis using c "2.IH"(1) [OF c(1) w(1) _ _ "2.prems"(4)] by (simp add: cmsg_copy_def)
  next
    case False
    then have c: "\<not> (cmsg_level c = IPPROTO_IP \<and> cmsg_type c = IP_PKTINFO)"
      "snd (res, pktinfo) \<noteq> None \<or> list_ex is_v4_info cs"
      using "2.prems"(2) False by (auto simp: is_v4_info_def [of c])
    have "wp (example_walk (c # cs) (res, pktinfo)) (\<lambda>y v. snd y \<noteq> None \<and> quiet u v) E w
      = wp (example_walk cs (res, pktinfo)) (\<lambda>y v. snd y \<noteq> None \<and> quiet u v) E (say (Stderr
          ''Unknown ancillary data, len=%lu, level=%d, type=%d'' [PI (cmsg_len c), PI (cmsg_level c), PI (cmsg_type c)]) w)"
      using c(1) by (auto simp: unknown_cmsg_def wp_bnd wp_eprintf)
    then show ?thesis using "2.IH"(2) [OF c(1) w(1) c(2) "2.prems"(3) w(3)] by simp
  qed
qed (simp add: wp_ret del: ret_run)

interpretation udp_example: echo_report example_report "\<lambda>_. True" informed_v4
proof unfold_locales
  fix K :: "'k kernel" and m res st and w :: "('k, 'm) world_scheme"
  assume m: "informed_v4 m"
  then have "wp (example_pktinfo_get m st) (\<lambda>y v. snd y \<noteq> None \<and> quiet w v) (\<lambda>_ _. False) w"
    unfolding example_pktinfo_get_def by (intro wp_example_walk) (simp_all add: informed_v4_def)
  then show "wp (example_report K m res st) (\<lambda>_. quiet w) (\<lambda>_ _. False) w"
    unfolding example_report_def wp_bnd [of "example_pktinfo_get _ _"]
    by (rule wp_conseq) (use m in \<open>auto simp: informed_v4_def initialised_def wp_simps simp del: ret_run\<close>)
qed

section \<open>Properties\<close>

text \<open>
  \<open>udp_example02\<close> keeps the same promise.  On a kernel that delivers datagrams with their IPv4
  packet information, once it has its socket and its options, with a positive count, it has no undefined
  behaviour: it returns 0 after answering exactly \<open>--count\<close> datagrams, or fewer where \<open>recvmsg\<close> failed,
  each with the same bytes, to the address it came from and with its ancillary data; or it returns 1,
  before any traffic, because the port could not be bound.
\<close>

theorem example_replies:
  fixes w w0 w1 w' :: "('k, 'm) world_scheme"
  assumes K: "delivers informed_v4 K"
    and sock: "Socket K AF_INET SOCK_DGRAM 0 w = (Done fd, w0)"
    and parse: "example_parse opts example_cfg0 w0 = (Done g, w1)" and count: "0 < ex_count g"
    and run: "example_main K stack opts w = (x, w')"
  shows "\<exists>es. trace w' = trace w1 @ es \<and>
    (x = Done 0 \<and> served_all fd (nat (ex_count g)) (traffic es) \<or> x = Done 1 \<and> traffic es = [])"
proof -
  have serve: "example_serve K stack fd g w1 = (x, w')"
    using run sock parse by (simp add: example_main_def bnd_def del: example_parse.simps)
  have loop: "wp (echo_loop K fd (Ptr b 0) nl (example_report K) (ex_count g) None)
      (\<lambda>_ v. \<exists>es. trace v = trace w1 @ es \<and> served_all fd (nat (ex_count g)) (traffic es)) (\<lambda>_ _. False) u"
    if u: "trace u = trace w1 @ es0" "traffic es0 = []" "heap u b = Some bs" "length bs = sizeof_frame"
    for b nl bs es0 and u :: "('k, 'm) world_scheme"
  proof -
    have "udp_example.ready K" using K by (simp add: udp_example.ready_def)
    from udp_example.loop_answers [OF this u(3,4) count]
    show ?thesis by (rule wp_conseq) (use u(1,2) in auto)
  qed
  have "wp (example_serve K stack fd g) (\<lambda>x v. \<exists>es. trace v = trace w1 @ es \<and>
      (x = 0 \<and> served_all fd (nat (ex_count g)) (traffic es) \<or> x = 1 \<and> traffic es = [])) (\<lambda>_ _. False) w1"
    unfolding example_serve_def by (auto simp: wp_simps intro!: loop simp del: ret_run)
  from wp_result [OF this serve] show ?thesis by blast
qed

lemma greeter_v4: "delivers informed_v4 greeter"
  by (auto simp: delivers_def keeps_to_buffers_def greeter_def first_msg_def greeting_def
      rxmsg_zero_def sysres_of_def informed_v4_def take_rx_def controls_def info_whole_def is_v4_info_def
      is_v6_info_def Let_def)

theorem example_replies_witness:
  "\<exists>x w'. example_main greeter [] answer_two (boot ()) = (x, w')
    \<and> (x = Done 0 \<and> (\<exists>es. served_all 3 2 (traffic es)) \<or> x = Done 1)"
proof -
  obtain x w' where run: "example_main greeter [] answer_two (boot ()) = (x, w')" by fastforce
  let ?w0 = "after_call greeter (Rq_socket AF_INET SOCK_DGRAM 0) (boot ())"
  have sock: "Socket greeter AF_INET SOCK_DGRAM 0 (boot ()) = (Done 3, ?w0)"
    by (simp add: Socket_def bnd_def syscall_def reply_def greeter_def sysres_of_def)
  have "atoi ''2'' = 2" by code_simp
  then have parse: "example_parse answer_two example_cfg0 ?w0 = (Done (example_cfg0\<lparr>ex_count := 2\<rparr>), ?w0)"
    by (simp add: answer_two_def atoi_arg_def bnd_def)
  from example_replies [OF greeter_v4 sock parse _ run] run show ?thesis by auto
qed

end
