(* ===== verification/UdpClientEcho.thy ===== *)
theory UdpClientEcho
  imports UdpEcho
begin

text \<open>
  \<open>src/src/udp_client_echo.c\<close>: a client that sends one datagram, waits for its echo and compares the two
  sizes.  The properties: what it does with every answer, and, together with \<open>udp_echo\<close>, that a round
  trip succeeds exactly for the datagrams that fit into the server's buffer.
\<close>

section \<open>Definitions\<close>

definition send_packet :: "'k kernel \<Rightarrow> int \<Rightarrow> sockaddr_storage \<Rightarrow> ptr \<Rightarrow> u16 \<Rightarrow> ('k, 'm, int) cprog" where
  "send_packet K sockfd dest_addr buf_send pkt_size =
     bnd (sockaddr_len dest_addr) (\<lambda>len_addr.
     bnd (load buf_send (uint pkt_size)) (\<lambda>data.
     bnd (syscall K (Rq_sendto sockfd data 0 dest_addr len_addr)) (\<lambda>r.
     if r_ret r < 0 then
       bnd (eprintf ''ERROR: %s() sendto failed (%d) '' [PS ''send_packet'', PI (r_ret r)]) (\<lambda>_.
       bnd (perror ''- sendto'') (\<lambda>_.
       exit_with 5))
     else
       bnd (gets verbose) (\<lambda>v.
       bnd (when_do (1 < v) (printf ''Send UDP packet of length:%d'' [PI (r_ret r)])) (\<lambda>_.
       ret (r_ret r))))))"

definition recv_packet :: "'k kernel \<Rightarrow> int \<Rightarrow> ptr \<Rightarrow> u16 \<Rightarrow> ('k, 'm, int) cprog" where
  "recv_packet K sockfd buf_recv pkt_size =
     bnd (gets verbose) (\<lambda>v.
     bnd (when_do (1 < v) (printf ''Waiting for recvfrom()'' [])) (\<lambda>_.
     bnd (syscall K (Rq_recvfrom sockfd (uint pkt_size) 0)) (\<lambda>r.
     if r_ret r < 0 then
       bnd (perror ''recvfrom'') (\<lambda>_.
       exit_with 5)
     else
       bnd (store buf_recv (take (unat pkt_size) (r_data r))) (\<lambda>_.
       bnd (gets verbose) (\<lambda>v.
       bnd (when_do (1 < v) (printf ''Received UDP packet of length:%d'' [PI (r_ret r)])) (\<lambda>_.
       ret (r_ret r)))))))"

definition validate_packet :: "int \<Rightarrow> int \<Rightarrow> ('k, 'm, unit) cprog" where
  "validate_packet len_send len_recv =
     (if len_recv \<noteq> len_send then
        bnd (eprintf ''ERROR - Packet validation failed: size check'' []) (\<lambda>_.
        exit_with 1)
      else printf ''OK: valid size'' [])"

record client_echo_cfg =
  ce_pkt_size :: int
  ce_family :: int
  ce_port :: u16

definition client_echo_cfg0 :: client_echo_cfg where
  "client_echo_cfg0 = \<lparr>ce_pkt_size = 3000, ce_family = AF_INET6, ce_port = PORT\<rparr>"

definition client_echo_option :: "optres \<Rightarrow> client_echo_cfg \<Rightarrow> ('k, 'm, client_echo_cfg) cprog" where
  "client_echo_option x g =
     (if opt_is x (CHR ''s'') then bnd (atoi_arg (o_arg x)) (\<lambda>n. ret (g\<lparr>ce_pkt_size := n\<rparr>))
      else if opt_is x (CHR ''4'') then ret (g\<lparr>ce_family := AF_INET\<rparr>)
      else if opt_is x (CHR ''6'') then ret (g\<lparr>ce_family := AF_INET6\<rparr>)
      else if opt_is x (CHR ''v'') then
        bnd (atoi_arg (o_arg x)) (\<lambda>n. bnd (modify (\<lambda>w. w\<lparr>verbose := n\<rparr>)) (\<lambda>_. ret g))
      else if opt_is x (CHR ''p'') then bnd (atoi_arg (o_arg x)) (\<lambda>n. ret (g\<lparr>ce_port := word_of_int n\<rparr>))
      else ret g)"

fun client_echo_parse :: "optres list \<Rightarrow> client_echo_cfg \<Rightarrow> ('k, 'm, client_echo_cfg) cprog" where
  "client_echo_parse [] g = ret g"
| "client_echo_parse (x # xs) g = bnd (client_echo_option x g) (client_echo_parse xs)"

text \<open>
  The exchange.  The length of the packet and the length received are cut to 16 bits where they become
  arguments.
\<close>

definition client_echo_talk :: "'k kernel \<Rightarrow> int \<Rightarrow> sockaddr_storage \<Rightarrow> ptr \<Rightarrow> ptr \<Rightarrow> int \<Rightarrow> ('k, 'm, int) cprog" where
  "client_echo_talk K sockfd dest_addr buf_send buf_recv pkt_size =
     bnd (send_packet K sockfd dest_addr buf_send (word_of_int pkt_size)) (\<lambda>len_send.
     bnd (recv_packet K sockfd buf_recv (word_of_int len_send)) (\<lambda>len_recv.
     bnd (validate_packet len_send len_recv) (\<lambda>_.
     ret 0)))"

definition sizeof_buf :: nat where [c_consts]: "sizeof_buf = 65535"

text \<open>\<open>stack1\<close> and \<open>stack2\<close> are what lies in the two buffers, which the program never fills.\<close>

definition client_echo_run ::
  "'k kernel \<Rightarrow> bytes \<Rightarrow> bytes \<Rightarrow> client_echo_cfg \<Rightarrow> string \<Rightarrow> ('k, 'm, int) cprog" where
  "client_echo_run K stack1 stack2 g dest_ip =
     bnd (gets verbose) (\<lambda>v.
     bnd (when_do (0 < v) (printf ''Destination IP%s: %s port:%d''
            [PS (if ce_family g = AF_INET6 then ''v6'' else ''''), PS dest_ip, PI (uint (ce_port g))])) (\<lambda>_.
     bnd (Socket K (ce_family g) SOCK_DGRAM 0) (\<lambda>sockfd.
     bnd (Setsockopt K sockfd IPPROTO_IP IP_MTU_DISCOVER (OptInt IP_PMTUDISC_DONT)) (\<lambda>_.
     bnd (if ce_family g = AF_INET6
          then Setsockopt K sockfd IPPROTO_IPV6 IPV6_MTU_DISCOVER (OptInt IP_PMTUDISC_DONT)
          else ret 0) (\<lambda>_.
     bnd (setup_sockaddr K (ce_family g) sockaddr_zero dest_ip (ce_port g)) (\<lambda>dest_addr.
     bnd (sockaddr_len dest_addr) (\<lambda>len.
     bnd (Connect K sockfd dest_addr len) (\<lambda>_.
     bnd (stack_array sizeof_buf stack1) (\<lambda>buf_send.
     bnd (stack_array sizeof_buf stack2) (\<lambda>buf_recv.
     client_echo_talk K sockfd dest_addr buf_send buf_recv (ce_pkt_size g)))))))))))"

definition client_echo_main ::
  "'k kernel \<Rightarrow> bytes \<Rightarrow> bytes \<Rightarrow> optres list \<Rightarrow> string list \<Rightarrow> ('k, 'm, int) cprog" where
  "client_echo_main K stack1 stack2 opts args =
     bnd (client_echo_parse opts client_echo_cfg0) (\<lambda>g.
     case args of
       [] \<Rightarrow>
         bnd (eprintf ''Expected dest IP-address (IPv6 or IPv4) argument after options'' []) (\<lambda>_.
         exit_with EXIT_FAIL_OPTION)
     | dest_ip # _ \<Rightarrow> client_echo_run K stack1 stack2 g dest_ip)"

section \<open>The exchange\<close>

text \<open>The bytes the client sends: the first \<open>pkt_size\<close>, modulo \<open>2 ^ 16\<close>, of a buffer nobody has filled.\<close>

definition client_payload :: "bytes \<Rightarrow> int \<Rightarrow> bytes" where
  "client_payload stack pkt_size = take (nat (pkt_size mod 65536)) (take sizeof_buf (stack @ replicate sizeof_buf 0))"

lemma length_client_payload [simp]: "length (client_payload stack pkt_size) = nat (pkt_size mod 65536)"
proof -
  have "pkt_size mod 65536 \<le> 65535" using pos_mod_bound [of 65536 pkt_size] by linarith
  moreover have "length (take sizeof_buf (stack @ replicate sizeof_buf 0)) = sizeof_buf" by simp
  ultimately show ?thesis unfolding client_payload_def length_take [of "nat _"] by (simp add: sizeof_buf_def)
qed

definition talked :: "bytes \<Rightarrow> (sysreq \<times> sysres) list \<Rightarrow> int outcome \<Rightarrow> bool" where
  "talked d es x \<longleftrightarrow> (\<exists>fd a len s. let tx = (Rq_sendto fd d 0 a len, s) in
     es = [tx] \<and> r_ret s < 0 \<and> x = Exit 5
     \<or> (\<exists>r. es = [tx, (Rq_recvfrom fd (r_ret s mod 65536) 0, r)] \<and> 0 \<le> r_ret s
          \<and> x = (if r_ret r < 0 then Exit 5 else if r_ret r = r_ret s then Done 0 else Exit 1)))"

definition talk_result :: "bytes \<Rightarrow> ('k, 'm) world_scheme \<Rightarrow> int outcome \<Rightarrow> ('k, 'm) world_scheme \<Rightarrow> bool" where
  "talk_result d w x v \<longleftrightarrow> (\<exists>es. trace v = trace w @ es \<and> talked d (traffic es) x)"

lemma wp_client_echo_talk:
  fixes w :: "('k, 'm) world_scheme"
  assumes a: "ss_family a \<in> {AF_INET, AF_INET6}"
    and h: "heap w b = Some (take sizeof_buf (stack @ replicate sizeof_buf 0))" "heap w c = Some bs" "length bs = sizeof_buf"
  shows "wp (client_echo_talk K fd a (Ptr b 0) (Ptr c 0) n)
    (\<lambda>x. talk_result (client_payload stack n) w (Done x)) (\<lambda>x. talk_result (client_payload stack n) w (Exit x)) w"
proof -
  obtain len where len: "sockaddr_len a = (ret len :: ('k, 'm, int) cprog)"
    using a by (auto simp: sockaddr_len_def)
  let ?d = "client_payload stack n"
  have size: "uint (word_of_int x :: u16) = x mod 65536" for x
    by (simp add: uint_word_of_int)
  then have size': "unat (word_of_int x :: u16) = nat (x mod 65536)" for x
    by (simp only: unat_eq_nat_uint)
  have le: "x mod 65536 \<le> 65535" "0 \<le> x mod 65536" for x :: int using pos_mod_bound [of 65536 x] by simp_all
  have sz: "int sizeof_buf = 65535" by (simp add: sizeof_buf_def)
  have d: "take (nat (n mod 65536)) (take sizeof_buf (stack @ replicate sizeof_buf 0)) = ?d" by (simp add: client_payload_def)
  let ?tx = "Rq_sendto fd ?d 0 a len"
  let ?s = "reply K ?tx w" and ?w1 = "after_call K ?tx w"
  let ?P = "talk_result ?d w"
  have fail: "?P (Exit 5) v" if "r_ret ?s < 0" "trace v = trace ?w1" for v :: "('k, 'm) world_scheme"
    using that unfolding talk_result_def by (intro exI [of _ "[(?tx, ?s)]"]) (auto simp: talked_def Let_def)
  have rest: "wp (bnd (recv_packet K fd (Ptr c 0) (word_of_int (r_ret ?s))) (\<lambda>len_recv.
       bnd (validate_packet (r_ret ?s) len_recv) (\<lambda>_. ret 0))) (\<lambda>x. ?P (Done x)) (\<lambda>x. ?P (Exit x)) u"
    if s: "0 \<le> r_ret ?s" and u: "trace u = trace ?w1" "heap u c = Some bs" for u :: "('k, 'm) world_scheme"
  proof -
    have finish: "?P x v" if "trace v = trace u @ [(Rq_recvfrom fd (r_ret ?s mod 65536) 0, r)]"
      "x = (if r_ret r < 0 then Exit 5 else if r_ret r = r_ret ?s then Done 0 else Exit 1)" for x r and v :: "('k, 'm) world_scheme"
      using that s u(1) unfolding talk_result_def
      by (intro exI [of _ "[(?tx, ?s), (Rq_recvfrom fd (r_ret ?s mod 65536) 0, r)]"]) (auto simp: talked_def Let_def)
    have fits: "min (length xs) (nat (r_ret ?s mod 65536)) \<le> sizeof_buf" for xs :: bytes
      using le [of "r_ret ?s"] sz by linarith
    show ?thesis
      unfolding recv_packet_def validate_packet_def
      using u(2) h(3) le [of "r_ret ?s"] fits sz
      by (auto simp: wp_simps size size' intro!: finish simp del: ret_run bnd_gets)
  qed
  show ?thesis
    unfolding client_echo_talk_def send_packet_def
    using h le [of n] d sz
    by (auto simp: wp_simps size size' len intro!: fail rest [unfolded wp_bnd wp_ret] simp del: ret_run bnd_gets)
qed

text \<open>The whole program: a failed set-up, before any traffic, or the exchange.\<close>

lemma set_up_silent:
  assumes "set_up w v"
  shows "\<exists>es. trace v = trace w @ es \<and> traffic es = []"
proof -
  have "list_all (is_setup \<circ> fst) es \<Longrightarrow> traffic es = []" for es
  proof (induction es)
    case (Cons e es)
    obtain rq r where e: "e = (rq, r)" by (cases e)
    from Cons.prems have "is_setup rq" by (simp add: e)
    then have "\<not> is_rx rq" "\<not> is_tx rq" by (cases rq; simp)+
    with Cons show ?case by (simp add: e)
  qed simp
  with assms show ?thesis by (auto simp: set_up_def)
qed

definition client_echo_result :: "bytes \<Rightarrow> ('k, 'm) world_scheme \<Rightarrow> int outcome \<Rightarrow> ('k, 'm) world_scheme \<Rightarrow> bool" where
  "client_echo_result d w x v \<longleftrightarrow> talk_result d w x v
     \<or> x \<in> Exit ` {EXIT_FAIL_SOCK, EXIT_FAIL_SOCKOPT, EXIT_FAIL_IP, EXIT_FAIL_OPTION}
       \<and> (\<exists>es. trace v = trace w @ es \<and> traffic es = [])"

lemma client_echo_result_later:
  assumes "set_up w u" "talk_result d v x z" "trace v = trace u"
  shows "client_echo_result d w x z"
proof -
  from set_up_silent [OF assms(1)] obtain es where "trace u = trace w @ es" "traffic es = []" by blast
  moreover from assms(2) obtain es' where "trace z = trace v @ es'" "talked d (traffic es') x"
    by (auto simp: talk_result_def)
  ultimately show ?thesis
    using assms(3) unfolding client_echo_result_def talk_result_def by (intro disjI1 exI [of _ "es @ es'"]) simp
qed

lemma client_echo_result_exit:
  "set_up w v \<Longrightarrow> c \<in> {EXIT_FAIL_SOCK, EXIT_FAIL_SOCKOPT, EXIT_FAIL_IP, EXIT_FAIL_OPTION} \<Longrightarrow>
    client_echo_result d w (Exit c) v"
  using set_up_silent by (auto simp: client_echo_result_def)

lemma wp_client_echo_run:
  fixes w :: "('k, 'm) world_scheme"
  defines "R \<equiv> \<lambda>g st. client_echo_result (client_payload st (ce_pkt_size g)) w"
  shows "wp (client_echo_run K stack1 stack2 g ip) (\<lambda>x. R g stack1 (Done x)) (\<lambda>c. R g stack1 (Exit c)) w"
proof -
  let ?Q = "\<lambda>x. R g stack1 (Done x)" and ?E = "\<lambda>c. R g stack1 (Exit c)"
  note ex = client_echo_result_exit [of w, folded R_def]
  have talk: "wp (bnd (stack_array sizeof_buf stack1) (\<lambda>buf_send. bnd (stack_array sizeof_buf stack2) (\<lambda>buf_recv.
      client_echo_talk K fd a buf_send buf_recv (ce_pkt_size g)))) ?Q ?E u"
    if a: "ss_family a \<in> {AF_INET, AF_INET6}" and u: "set_up w u" for fd a and u :: "('k, 'm) world_scheme"
    unfolding wp_bnd wp_stack_array
    by (rule wp_conseq [OF wp_client_echo_talk [OF a]])
      (auto simp: R_def intro: client_echo_result_later [OF u])
  have connect: "wp (bnd (sockaddr_len a) (\<lambda>len. bnd (Connect K fd a len) (\<lambda>_.
      bnd (stack_array sizeof_buf stack1) (\<lambda>buf_send. bnd (stack_array sizeof_buf stack2) (\<lambda>buf_recv.
      client_echo_talk K fd a buf_send buf_recv (ce_pkt_size g)))))) ?Q ?E u"
    if a: "ss_family a \<in> {AF_INET, AF_INET6}" and u: "set_up w u" for fd a and u :: "('k, 'm) world_scheme"
  proof -
    obtain len where len: "sockaddr_len a = (ret len :: ('k, 'm, int) cprog)"
      using a by (auto simp: sockaddr_len_def)
    show ?thesis
      unfolding len bnd_ret wp_bnd [of "Connect _ _ _ _"]
      by (rule wp_wrappers) (use u in \<open>auto simp: R_def intro!: talk [OF a, unfolded R_def] client_echo_result_exit intro: set_up_trans\<close>)
  qed
  have addr: "wp (bnd (setup_sockaddr K (ce_family g) sockaddr_zero ip (ce_port g)) (\<lambda>a.
      bnd (sockaddr_len a) (\<lambda>len. bnd (Connect K fd a len) (\<lambda>_.
      bnd (stack_array sizeof_buf stack1) (\<lambda>buf_send. bnd (stack_array sizeof_buf stack2) (\<lambda>buf_recv.
      client_echo_talk K fd a buf_send buf_recv (ce_pkt_size g))))))) ?Q ?E u"
    if u: "set_up w u" for fd and u :: "('k, 'm) world_scheme"
    unfolding wp_bnd [of "setup_sockaddr _ _ _ _ _"]
    by (rule wp_setup_sockaddr) (use set_up_trans [OF u] in \<open>auto simp: R_def intro!: connect [unfolded R_def] client_echo_result_exit\<close>)
  have opt: "wp (bnd (Setsockopt K fd lv op ov) (\<lambda>_. m)) ?Q ?E u"
    if u: "set_up w u" and m: "\<And>v. set_up w v \<Longrightarrow> wp m ?Q ?E v" for fd lv op ov m and u :: "('k, 'm) world_scheme"
    unfolding wp_bnd [of "Setsockopt _ _ _ _ _"]
    by (rule wp_wrappers) (use set_up_trans [OF u] m in \<open>auto simp: R_def intro!: client_echo_result_exit\<close>)
  have opts: "wp (bnd (Setsockopt K fd lv op ov) (\<lambda>_.
      bnd (if ce_family g = AF_INET6 then Setsockopt K fd lv' op' ov' else ret 0) (\<lambda>_. m))) ?Q ?E u"
    if "set_up w u" "\<And>v. set_up w v \<Longrightarrow> wp m ?Q ?E v" for fd lv op ov lv' op' ov' m and u :: "('k, 'm) world_scheme"
    using that by (auto intro!: opt)
  have sock: "wp (bnd (Socket K (ce_family g) SOCK_DGRAM 0) m) ?Q ?E u"
    if u: "set_up w u" and m: "\<And>fd v. set_up w v \<Longrightarrow> wp (m fd) ?Q ?E v" for m and u :: "('k, 'm) world_scheme"
    unfolding wp_bnd [of "Socket _ _ _ _"]
    by (rule wp_wrappers) (use set_up_trans [OF u] m in \<open>auto simp: R_def intro!: client_echo_result_exit\<close>)
  have body: "wp (bnd (Socket K (ce_family g) SOCK_DGRAM 0) (\<lambda>fd.
     bnd (Setsockopt K fd IPPROTO_IP IP_MTU_DISCOVER (OptInt IP_PMTUDISC_DONT)) (\<lambda>_.
     bnd (if ce_family g = AF_INET6 then Setsockopt K fd IPPROTO_IPV6 IPV6_MTU_DISCOVER (OptInt IP_PMTUDISC_DONT)
          else ret 0) (\<lambda>_.
     bnd (setup_sockaddr K (ce_family g) sockaddr_zero ip (ce_port g)) (\<lambda>a.
     bnd (sockaddr_len a) (\<lambda>len. bnd (Connect K fd a len) (\<lambda>_.
     bnd (stack_array sizeof_buf stack1) (\<lambda>buf_send. bnd (stack_array sizeof_buf stack2) (\<lambda>buf_recv.
     client_echo_talk K fd a buf_send buf_recv (ce_pkt_size g)))))))))) ?Q ?E u"
    if "set_up w u" for u :: "('k, 'm) world_scheme"
    by (rule sock [OF that], rule opts, assumption, rule addr)
  show ?thesis
    unfolding client_echo_run_def wp_bnd [of "gets _"] wp_gets wp_bnd [of "when_do _ (printf _ _)"]
    by (cases "0 < verbose w") (simp_all only: wp_when wp_printf if_True if_False, simp_all only: body set_up_say set_up_refl)
qed

section \<open>Properties\<close>

text \<open>
  C20.  What \<open>udp_client_echo\<close> checks.  For every size given on the command line and on every kernel,
  the program has no undefined behaviour once its options are read.  It ends during set-up before any
  traffic, or it sends exactly one datagram, the first \<open>size mod 2 ^ 16\<close> bytes of its buffer, and then
  waits for one; it returns 0 exactly when both calls succeed and report the same length, exits with 1
  when the lengths differ, and with 5 when a call fails.
\<close>

theorem client_echo_checks:
  fixes w w1 w' :: "('k, 'm) world_scheme"
  assumes parse: "client_echo_parse opts client_echo_cfg0 w = (Done g, w1)"
    and run: "client_echo_main K stack1 stack2 opts (ip # args) w = (x, w')"
  shows "\<exists>es. trace w' = trace w1 @ es \<and>
    (talked (client_payload stack1 (ce_pkt_size g)) (traffic es) x
     \<or> x \<in> Exit ` {EXIT_FAIL_SOCK, EXIT_FAIL_SOCKOPT, EXIT_FAIL_IP, EXIT_FAIL_OPTION} \<and> traffic es = [])"
proof -
  have "client_echo_run K stack1 stack2 g ip w1 = (x, w')"
    using run parse by (simp add: client_echo_main_def bnd_def del: client_echo_parse.simps)
  from wp_result [OF wp_client_echo_run this]
  have "client_echo_result (client_payload stack1 (ce_pkt_size g)) w1 x w'" by auto
  then show ?thesis by (auto simp: client_echo_result_def talk_result_def)
qed

theorem client_echo_checks_witness:
  "\<exists>x w'. client_echo_main scripted [] [] [] [''::1''] (boot ([] :: sysres list)) = (x, w')
    \<and> (talked (client_payload [] 3000) (traffic (trace w')) x
       \<or> x \<in> Exit ` {EXIT_FAIL_SOCK, EXIT_FAIL_SOCKOPT, EXIT_FAIL_IP, EXIT_FAIL_OPTION} \<and> traffic (trace w') = [])"
proof -
  obtain x w' where run: "client_echo_main scripted [] [] [] [''::1''] (boot ([] :: sysres list)) = (x, w')" by fastforce
  have "client_echo_parse [] client_echo_cfg0 (boot ([] :: sysres list)) = (Done client_echo_cfg0, boot [])" by simp
  from client_echo_checks [OF this run] run show ?thesis by (auto simp: client_echo_cfg0_def)
qed

text \<open>
  C15.  A round trip through \<open>udp_echo\<close> succeeds exactly for datagrams that fit.  Let the client's
  datagram \<open>d\<close> have been sent whole and have reached the server, cut to the 8192 bytes of the server's
  buffer as datagrams are; let the server have answered it and the answer have reached the client.
  Then the client returns 0 if and only if \<open>d\<close> has at most 8192 bytes, in which case the echo is \<open>d\<close>,
  and exits with 1 otherwise.
\<close>

theorem echo_round_trip:
  fixes v v1 v' :: "('k, 'm) world_scheme" and w w1 w' :: "('l, 'n) world_scheme"
  assumes client: "client_echo_parse opts client_echo_cfg0 v = (Done g, v1)"
      "client_echo_main K stack1 stack2 opts (ip # args) v = (x, v')"
      "trace v' = trace v1 @ es" "traffic es = [(Rq_sendto fd d 0 a len, s), (rq, r)]"
    and server: "names_addresses L" "delivers informed_of L" "echo_parse opts' echo_cfg0 w = (Done g', w1)"
      "ec_count g' = 1" "echo_main L stack opts' w = (y, w')"
      "trace w' = trace w1 @ es'" "traffic es' = [(rq', e), (Rq_sendmsg_hdr fd' m p flags, t)]"
    and link: "r_ret s = int (length d)" "rx_data (first_msg e) = take sizeof_frame d"
      "r_data r = p" "r_ret r = int (length p)"
  shows "(x = Done 0 \<longleftrightarrow> length d \<le> 8192) \<and> (x = Exit 1 \<longleftrightarrow> 8192 < length d) \<and> (length d \<le> 8192 \<longrightarrow> r_data r = d)"
proof -
  have "client_echo_run K stack1 stack2 g ip v1 = (x, v')"
    using client(1,2) by (simp add: client_echo_main_def bnd_def del: client_echo_parse.simps)
  from wp_result [OF wp_client_echo_run this]
  have "client_echo_result (client_payload stack1 (ce_pkt_size g)) v1 x v'" by auto
  then have "talked (client_payload stack1 (ce_pkt_size g)) (traffic es) x"
    using client(3,4) by (auto simp: client_echo_result_def talk_result_def)
  then have x: "x = (if r_ret r < 0 then Exit 5 else if r_ret r = r_ret s then Done 0 else Exit 1)"
    unfolding client(4) talked_def by (auto simp: Let_def)
  have "echo_serve L stack g' w1 = (y, w')"
    using server(3,5) by (simp add: echo_main_def bnd_def del: echo_parse.simps)
  from wp_result [OF wp_echo_serve [OF server(1,2)] this] server(4,6,7)
  obtain fd'' where "served_all fd'' 1 [(rq', e), (Rq_sendmsg_hdr fd' m p flags, t)]" by auto
  then have "answers fd'' (rq', e) (Rq_sendmsg_hdr fd' m p flags, t)"
    using echoes_Suc [of fd'' 0 "(rq', e)" "(Rq_sendmsg_hdr fd' m p flags, t)" "[]"]
    by (auto simp: served_all_def)
  then have "p = take sizeof_frame d" using link(2) by (auto simp: answers_def Let_def)
  then show ?thesis using x link by (auto simp: sizeof_frame_def)
qed

text \<open>A session: two bytes to the server above and back.\<close>

definition mirror :: "unit kernel" where
  "mirror rq k = (case rq of
       Rq_sendto fd d flags a len \<Rightarrow> (sysres_of (int (length d)) 0, k)
     | Rq_recvfrom fd n flags \<Rightarrow> ((sysres_of 2 0)\<lparr>r_data := [72, 105]\<rparr>, k)
     | _ \<Rightarrow> (sysres_of 3 0, k))"

definition two_bytes :: client_echo_cfg where
  "two_bytes = client_echo_cfg0\<lparr>ce_pkt_size := 2\<rparr>"

definition send_two :: "optres list" where
  "send_two = [\<lparr>o_c = of_char (CHR ''s''), o_arg = Some ''2'', o_longindex = 0\<rparr>]"

lemma mirror_client:
  "wp (client_echo_run mirror [72, 105] [] two_bytes ''::1'')
     (\<lambda>x v. x = 0 \<and> (\<exists>a. traffic (trace v) = [(Rq_sendto 3 [72, 105] 0 a 28, sysres_of 2 0),
        (Rq_recvfrom 3 2 0, (sysres_of 2 0)\<lparr>r_data := [72, 105]\<rparr>)])) (\<lambda>_ _. False) (boot ())"
  by (simp add: client_echo_run_def client_echo_talk_def send_packet_def recv_packet_def validate_packet_def
      two_bytes_def client_echo_cfg0_def Socket_def Setsockopt_def setup_sockaddr_def sockaddr_len_def Connect_def
      wp_simps reply_def mirror_def sysres_of_def sizeof_buf_def Let_def del: ret_run bnd_gets)

lemma greeter_one:
  "wp (echo_serve greeter [] (echo_cfg0\<lparr>ec_count := 1\<rparr>))
     (\<lambda>x v. x = 0 \<and> (\<exists>m n t. traffic (trace v) = [(Rq_recvmsg 3 m 0, (sysres_of 2 0)\<lparr>r_msgs := [greeting]\<rparr>),
        (Rq_sendmsg_hdr 3 n [72, 105] 0, t)])) (\<lambda>_ _. False) (boot ())"
  by (simp add: echo_serve_def echo_round_def echo_verbose_def recvmsg_def echo_loop.simps Socket_def echo_cfg0_def
      wp_simps reply_def greeter_def sysres_of_def sizeof_frame_def echo_msghdr_def first_msg_def greeting_def INT_MIN_def
      rxmsg_zero_def take_rx_def to_u64_def overwrite_def Let_def del: ret_run bnd_gets)

definition answer_one :: "optres list" where
  "answer_one = [\<lparr>o_c = of_char (CHR ''c''), o_arg = Some ''1'', o_longindex = 0\<rparr>]"

theorem echo_round_trip_witness:
  "\<exists>v' w'. client_echo_main mirror [72, 105] [] send_two [''::1''] (boot ()) = (Done 0, v')
    \<and> echo_main greeter [] answer_one (boot ()) = (Done 0, w')"
proof -
  have n: "atoi ''2'' = 2" "atoi ''1'' = 1" by code_simp+
  have cp: "client_echo_parse send_two client_echo_cfg0 (b) = (Done two_bytes, b)" for b :: "unit world"
    using n by (simp add: send_two_def two_bytes_def client_echo_option_def atoi_arg_def bnd_def)
  have sp: "echo_parse answer_one echo_cfg0 (b :: unit world) = (Done (echo_cfg0\<lparr>ec_count := 1\<rparr>), b)" for b
    using n by (simp add: answer_one_def echo_option_def atoi_arg_def bnd_def)
  obtain v' a where v: "client_echo_run mirror [72, 105] [] two_bytes ''::1'' (boot ()) = (Done 0, v')"
    "traffic (trace v') = [(Rq_sendto 3 [72, 105] 0 a 28, sysres_of 2 0),
        (Rq_recvfrom 3 2 0, (sysres_of 2 0)\<lparr>r_data := [72, 105]\<rparr>)]"
    by (rule wp_cases [OF mirror_client]) auto
  obtain w' m n t where w: "echo_serve greeter [] (echo_cfg0\<lparr>ec_count := 1\<rparr>) (boot ()) = (Done 0, w')"
    "traffic (trace w') = [(Rq_recvmsg 3 m 0, (sysres_of 2 0)\<lparr>r_msgs := [greeting]\<rparr>), (Rq_sendmsg_hdr 3 n [72, 105] 0, t)]"
    by (rule wp_cases [OF greeter_one]) auto
  have c: "client_echo_main mirror [72, 105] [] send_two [''::1''] (boot ()) = (Done 0, v')"
    using v(1) cp by (simp add: client_echo_main_def bnd_def del: client_echo_parse.simps)
  have s: "echo_main greeter [] answer_one (boot ()) = (Done 0, w')"
    using w(1) sp by (simp add: echo_main_def bnd_def del: echo_parse.simps)
  have "(Done 0 = (Done 0 :: int outcome) \<longleftrightarrow> length [72, 105 :: 8 word] \<le> 8192)"
    using echo_round_trip [OF cp c _ v(2) greeter_ok sp _ s _ w(2)]
    by (simp add: first_msg_def greeting_def sizeof_frame_def sysres_of_def)
  with c s show ?thesis by blast
qed

end
