(* ===== verification/Benchmark.thy ===== *)
theory Benchmark
  imports Common
begin

text \<open>
  What the benchmarks \<open>src/src/array_compare01.c\<close>, \<open>src/src/syscall_overhead.c\<close> and
  \<open>src/src/overhead_cmpxchg.c\<close> share: each measurement reads the clock and the cycle counter around a
  loop and hands the markers to \<open>time_func\<close>.
\<close>

section \<open>Definitions\<close>

text \<open>The frame of the measurements: the markers around a loop, and a report of its result.\<close>

definition timed :: "'k kernel \<Rightarrow> int \<Rightarrow> (int \<Rightarrow> 'a \<Rightarrow> ('k, 'm, 'a) cprog) \<Rightarrow> 'a \<Rightarrow> ('a \<Rightarrow> ('k, 'm, unit) cprog)
    \<Rightarrow> ('k, 'm, int \<times> u64 \<times> u64 \<times> u64 \<times> u64) cprog" where
  "timed K loops body res0 report =
     bnd (gettime K) (\<lambda>time_begin.
     bnd (rdtsc K) (\<lambda>tsc_begin.
     bnd (for_loop 0 loops body res0) (\<lambda>res.
     bnd (rdtsc K) (\<lambda>tsc_end.
     bnd (gettime K) (\<lambda>time_end.
     bnd (report res) (\<lambda>_.
     ret (max 0 loops, tsc_begin, tsc_end, time_begin, time_end)))))))"

section \<open>Rules\<close>

text \<open>What holds of a state and still does after a line of output and a look at the clock.\<close>

definition steady :: "(('k, 'm) world_scheme \<Rightarrow> bool) \<Rightarrow> bool" where
  "steady P \<longleftrightarrow> (\<forall>w m. P w \<longrightarrow> P (say m w))
     \<and> (\<forall>w K rq. P w \<longrightarrow> rq \<in> {Rq_rdtsc, Rq_clock_gettime CLOCK_MONOTONIC} \<longrightarrow> P (after_call K rq w))"

lemma steadyD:
  "steady P \<Longrightarrow> P w \<Longrightarrow> P (say m w)"
  "steady P \<Longrightarrow> P w \<Longrightarrow> P (after_call K Rq_rdtsc w)"
  "steady P \<Longrightarrow> P w \<Longrightarrow> P (after_call K (Rq_clock_gettime CLOCK_MONOTONIC) w)"
  by (simp_all add: steady_def)

abbreviation (input) stopped :: "int \<Rightarrow> ('k, 'm) world_scheme \<Rightarrow> bool" where
  "stopped \<equiv> \<lambda>c _. c = EXIT_FAIL_TIME"

lemma wpf_clocks:
  assumes "steady P" "P w" "\<And>t v. P v \<Longrightarrow> Q t v"
  shows "wpf (gettime K) Q stopped F w" "wpf (rdtsc K) Q stopped F w"
  using assms by (auto simp: gettime_def rdtsc_def wpf_bind wpf_simps wpf_calls steadyD)

lemma wpf_run: "m w = (Done x, v) \<Longrightarrow> Q x v \<Longrightarrow> wpf m Q E F w"
  by (simp add: wpf_def)

text \<open>A measurement: what its loop makes of the state, and its report keeps, holds at the end.\<close>

lemma wpf_timed_frame:
  assumes P: "steady P" "P w" and J: "\<And>x. steady (J x)"
    and loop: "\<And>v. P v \<Longrightarrow> wpf (for_loop 0 loops body x0) (\<lambda>x v. J x v) stopped F v"
    and report: "\<And>x v. J x v \<Longrightarrow> wpf (report x) (\<lambda>_ v. R v) stopped F v"
  shows "wpf (timed K loops body x0 report) (\<lambda>(n, _) v. n = max 0 loops \<and> R v) stopped F w"
  unfolding timed_def wpf_bind
  by (auto simp: wpf_simps intro!: wpf_clocks [OF P(1)] P(2) wpf_conseq [OF loop] wpf_conseq [OF report]
      elim!: wpf_clocks [OF J])

lemma wpf_time_func:
  assumes "wpf (f loops) (\<lambda>(n, _) v. n = loops \<and> P v) stopped F w" "0 < loops" "steady P"
  shows "wpf (time_func loops f) (\<lambda>r v. r = 0 \<and> P v) stopped F w"
  unfolding time_func_def wpf_bind
  by (rule wpf_conseq [OF assms(1)]) (use assms(2,3) in \<open>auto simp: wpf_bind wpf_simps wpf_calls Let_def steadyD\<close>)

section \<open>What a measurement reports\<close>

text \<open>
  The calls \<open>es\<close> were measured as \<open>n\<close> iterations: the clock and the cycle counter were read right before
  and right after them, and the line printed last has the differences, divided by \<open>n\<close>.
\<close>

definition per_call :: string where
  "per_call = '' Per call: %lu cycles(tsc) %.2f ns - %.2f calls per sec (measurement periode time:%.2f sec) - (loop count:%d tsc_interval:%lu)''"

definition measured ::
  "int \<Rightarrow> (sysreq \<times> sysres) list \<Rightarrow> ('k, 'm) world_scheme \<Rightarrow> ('k, 'm) world_scheme \<Rightarrow> bool" where
  "measured n es w v \<longleftrightarrow> (\<exists>a b c d.
     let clock = Rq_clock_gettime CLOCK_MONOTONIC; cycles = r_tsc c - r_tsc b;
         ns = double_of_u64 (to_u64 (ts_ns (r_time d)) - to_u64 (ts_ns (r_time a)));
         sec = ddiv ns (Fin (of_int NANOSEC_PER_SEC))
     in trace v = trace w @ [(clock, a), (Rq_rdtsc, b)] @ es @ [(Rq_rdtsc, c), (clock, d)]
      \<and> last (out v) = Stdout per_call [PI (uint (cycles div to_u64 n)), PD (ddiv ns (Fin (of_int n))),
           PD (ddiv (Fin (of_int n)) sec), PD sec, PI n, PI (uint cycles)])"

lemma measured_say: "measured n es (say m w) v = measured n es w v"
  by (simp add: measured_def)

lemma measuredI:
  assumes "trace v = trace w @ (Rq_clock_gettime CLOCK_MONOTONIC, a) # (Rq_rdtsc, b) # es
      @ [(Rq_rdtsc, c), (Rq_clock_gettime CLOCK_MONOTONIC, d)]"
    and "ns = double_of_u64 (to_u64 (ts_ns (r_time d)) - to_u64 (ts_ns (r_time a)))"
    and "sec = ddiv ns (Fin (of_int NANOSEC_PER_SEC))" "cycles = r_tsc c - r_tsc b"
  shows "measured n es w (say (Stdout per_call [PI (uint (cycles div to_u64 n)), PD (ddiv ns (Fin (of_int n))),
           PD (ddiv (Fin (of_int n)) sec), PD sec, PI n, PI (uint cycles)]) v)"
  unfolding measured_def
  by (rule exI [of _ a], rule exI [of _ b], rule exI [of _ c], rule exI [of _ d]) (use assms in \<open>simp add: say_def\<close>)

lemma wp_measure:
  assumes n: "0 < n"
    and loop: "\<And>v. wp (for_loop 0 n body x0) (\<lambda>x v'. G x \<and> (\<exists>es. trace v' = trace v @ es \<and> L es)) stopped v"
    and report: "\<And>x v. G x \<Longrightarrow> wp (report x) (\<lambda>_ v'. trace v' = trace v) stopped v"
  shows "wp (time_func n (\<lambda>l. timed K l body x0 report)) (\<lambda>r v. r = 0 \<and> (\<exists>es. L es \<and> measured n es w v)) stopped w"
  unfolding time_func_def timed_def wp_bnd wp_gettime wp_rdtsc Let_def wp_ret
  by (auto simp: wp_simps per_call_def [symmetric] n less_imp_neq [OF n, symmetric] max_absorb2 [OF less_imp_le [OF n]]
      intro!: wp_conseq [OF loop] wp_conseq [OF report] measuredI)

end
