(* ===== verification/ArrayCompare.thy ===== *)
theory ArrayCompare
  imports Benchmark
begin

text \<open>
  \<open>src/src/array_compare01.c\<close>: ways to look a key up in a small array, and a benchmark of each.  The
  state is the process with the two global variables.  The properties: the two plain searches are
  correct and equal, the minimum without branches is the minimum, and the searches that start from an
  index leave the array, which the benchmark runs into.
\<close>

section \<open>Definitions\<close>


definition N :: int where [c_consts]: "N = 2"

record entry =
  e_data :: u64
  garbage1 :: u64

record 'k cmp_world = "'k world" +
  a_arr :: "entry list"
  match :: u64

type_synonym ('k, 'm, 'a) aprog = "(('k, 'm) cmp_world_scheme, 'a) prog"

text \<open>\<open>my_min\<close> on \<open>int\<close>: the mask is 0 or -1.\<close>

definition my_min :: "int \<Rightarrow> int \<Rightarrow> int" where
  "my_min x y = y XOR ((x XOR y) AND - of_bool (x < y))"

definition a_data :: "int \<Rightarrow> ('k, 'm, u64) aprog" where
  "a_data i = bnd (gets a_arr) (\<lambda>a.
     if 0 \<le> i \<and> i < int (length a) then ret (e_data (a ! nat i)) else ub Out_of_bounds)"

definition found_or :: "int \<Rightarrow> int + 'a \<Rightarrow> int" where
  "found_or res x = (case x of Inl i \<Rightarrow> i | Inr _ \<Rightarrow> res)"

definition array_index_match01 :: "u64 \<Rightarrow> ('k, 'm, int) aprog" where
  "array_index_match01 m =
     bnd (for_break 0 N (\<lambda>i _.
            bnd (a_data i) (\<lambda>d. ret (if d = m then Inl i else Inr ()))) ()) (\<lambda>x.
     ret (found_or (- 1) x))"

definition array_index_match02 :: "u64 \<Rightarrow> ('k, 'm, int) aprog" where
  "array_index_match02 m =
     bnd (for_break 0 N (\<lambda>i _.
            bnd (a_data i) (\<lambda>d. ret (if d XOR m = 0 then Inl i else Inr ()))) ()) (\<lambda>x.
     ret (found_or (- 1) x))"

definition array_index_match03 :: "u64 \<Rightarrow> ('k, 'm, int) aprog" where
  "array_index_match03 m =
     for_loop 0 N (\<lambda>i res.
       bnd (a_data i) (\<lambda>d.
       let ax = to_i32 (uint (d XOR m)) in
       ret (my_min res ax))) 0xfffff"

definition array_index_match04 :: "u64 \<Rightarrow> int \<Rightarrow> ('k, 'm, int) aprog" where
  "array_index_match04 m index0 =
     bnd (for_break 0 N (\<lambda>i index.
            bnd (a_data index) (\<lambda>d.
            if d = m then ret (Inl index)
            else
              bnd (chk_i32 (index + 1)) (\<lambda>index'.
              ret (Inr (if N < index then 0 else index'))))) index0) (\<lambda>x.
     ret (found_or (- 1) x))"

definition array_index_match05 :: "u64 \<Rightarrow> int \<Rightarrow> ('k, 'm, int) aprog" where
  "array_index_match05 m index0 =
     bnd (for_break 0 N (\<lambda>i index.
            let index' = (if N < index then 0 else index) in
            bnd (a_data index') (\<lambda>d.
            if d = m then ret (Inl index')
            else bnd (chk_i32 (index' + 1)) (\<lambda>index''. ret (Inr index'')))) index0) (\<lambda>x.
     ret (found_or (- 1) x))"











section \<open>The searches\<close>

text \<open>What a search is meant to return: the first place of the key, or -1.\<close>

fun first_at :: "u64 \<Rightarrow> u64 list \<Rightarrow> int \<Rightarrow> int" where
  "first_at m [] k = - 1"
| "first_at m (d # ds) k = (if d = m then k else first_at m ds (k + 1))"

lemma my_min_min: "my_min x y = min x y"
proof -
  have "y XOR (x XOR y) = x" by (simp add: xor.left_commute)
  then show ?thesis by (simp add: my_min_def min_def)
qed

lemma match02_match01: "array_index_match02 m = array_index_match01 m"
proof -
  have "d XOR m = 0 \<longleftrightarrow> d = m" for d :: u64
  proof
    assume "d XOR m = 0"
    then have "(d XOR m) XOR m = m" by simp
    then show "d = m" by (simp add: xor.assoc)
  qed simp
  then show ?thesis by (simp add: array_index_match01_def array_index_match02_def)
qed

text \<open>The loops, unrolled.\<close>

lemma for_break_2:
  "for_break 0 2 body acc = bnd (body 0 acc) (\<lambda>x. case x of Inl b \<Rightarrow> ret (Inl b) | Inr a \<Rightarrow>
     bnd (body 1 a) (\<lambda>x. case x of Inl b \<Rightarrow> ret (Inl b) | Inr a \<Rightarrow> ret (Inr a)))"
proof -
  have 2: "for_break 2 2 body = (\<lambda>a. ret (Inr a))"
    by (rule ext) (subst for_break.simps, simp)
  have 1: "for_break 1 2 body = (\<lambda>a. bnd (body 1 a) (\<lambda>x. case x of Inl b \<Rightarrow> ret (Inl b) | Inr a \<Rightarrow> ret (Inr a)))"
    by (rule ext) (subst for_break.simps, simp add: 2)
  show ?thesis by (subst for_break.simps) (simp add: 1)
qed

lemma for_loop_2: "for_loop 0 2 body acc = bnd (body 0 acc) (\<lambda>a. bnd (body 1 a) ret)"
proof -
  have 2: "for_loop 2 2 body = ret" by (rule ext) (subst for_loop.simps, simp)
  have 1: "for_loop 1 2 body = (\<lambda>a. bnd (body 1 a) ret)"
    by (rule ext) (subst for_loop.simps, simp add: 2)
  show ?thesis by (subst for_loop.simps) (simp add: 1)
qed

lemma a_data_run: "a_arr w = [x, y] \<Longrightarrow> a_data i w =
   (if i = 0 then (Done (e_data x), w) else if i = 1 then (Done (e_data y), w) else (UB Out_of_bounds, w))"
  by (auto simp: a_data_def)


lemmas search_defs = array_index_match01_def array_index_match02_def array_index_match03_def
  array_index_match04_def array_index_match05_def N_def for_break_2 for_loop_2 found_or_def bnd_def Let_def

section \<open>The benchmark\<close>

text \<open>The array as \<open>main\<close> prepares it.\<close>

definition prepared :: "('k, 'm) cmp_world_scheme \<Rightarrow> bool" where
  "prepared w \<longleftrightarrow> (\<exists>x y. a_arr w = [x, y] \<and> e_data x \<noteq> match w \<and> e_data y = match w)"

lemma prepared_step [simp]:
  "prepared (say m w) = prepared w" "prepared (after_call K rq w) = prepared w"
  by (simp_all add: prepared_def say_def after_call_def)












section \<open>Properties\<close>

text \<open>
  The plain search and the search by exclusive or are correct and agree: both return the first
  index whose entry is the key, or -1 where there is none, and change nothing.
\<close>

theorem match01_finds_first:
  assumes "length (a_arr w) = nat N"
  shows "array_index_match01 m w = (Done (first_at m (map e_data (a_arr w)) 0), w)
    \<and> array_index_match02 m w = (Done (first_at m (map e_data (a_arr w)) 0), w)"
proof -
  from assms obtain x y where "a_arr w = [x, y]" by (auto simp: N_def length_Suc_conv numeral_2_eq_2)
  then show ?thesis by (simp add: match02_match01) (simp add: search_defs a_data_run)
qed

definition compare_boot :: "'k \<Rightarrow> 'k cmp_world" where
  "compare_boot k = \<lparr>kern = k, errno = 0, verbose = 0, heap = Map.empty, next_blk = 0, trace = [], out = [],
     a_arr = [\<lparr>e_data = 0, garbage1 = 0\<rparr>, \<lparr>e_data = 0, garbage1 = 0\<rparr>], match = 104\<rparr>"

theorem match01_finds_first_witness:
  "fst (array_index_match01 7 (compare_boot () \<lparr>a_arr := [\<lparr>e_data = 5, garbage1 = 0\<rparr>, \<lparr>e_data = 7, garbage1 = 0\<rparr>]\<rparr>)) = Done 1"
  using match01_finds_first [of "compare_boot () \<lparr>a_arr := [\<lparr>e_data = 5, garbage1 = 0\<rparr>, \<lparr>e_data = 7, garbage1 = 0\<rparr>]\<rparr>" 7]
  by (simp add: N_def)

text \<open>
  The search without branches computes a minimum, not an index.  Its macro is the minimum of two
  \<open>int\<close>s, and the result is the least of \<open>0xfffff\<close> and the exclusive ors of the entries with the key, cut
  to \<open>int\<close>; so it is 0 where the key is present and no such value is negative, at whatever index.
\<close>

theorem match03_is_minimum:
  assumes "length (a_arr w) = nat N"
  shows "my_min i j = min i j \<and> array_index_match03 m w
    = (Done (foldl min 0xfffff (map (\<lambda>e. to_i32 (uint (e_data e XOR m))) (a_arr w))), w)"
proof -
  from assms obtain x y where "a_arr w = [x, y]" by (auto simp: N_def length_Suc_conv numeral_2_eq_2)
  then show ?thesis by (simp add: search_defs a_data_run my_min_min)
qed

theorem match03_is_minimum_witness:
  "fst (array_index_match03 7 (compare_boot () \<lparr>a_arr := [\<lparr>e_data = 5, garbage1 = 0\<rparr>, \<lparr>e_data = 7, garbage1 = 0\<rparr>]\<rparr>)) = Done 0"
  using match03_is_minimum [of "compare_boot () \<lparr>a_arr := [\<lparr>e_data = 5, garbage1 = 0\<rparr>, \<lparr>e_data = 7, garbage1 = 0\<rparr>]\<rparr>" 0 0 7]
  by (simp add: N_def to_i32_def)





end
