(* ===== verification/CallOverhead.thy ===== *)
theory CallOverhead
  imports Benchmark
begin

text \<open>
  \<open>src/src/syscall_overhead.c\<close>, \<open>src/src/overhead_cmpxchg.c\<close> and \<open>src/src/asm_x86.h\<close>: the cost of a system
  call and of the atomic instructions.  The instructions act on the contents of a memory cell; one
  thread runs, so the lock prefix makes no difference to the values.  The properties say what is
  measured and what the loops leave in the cell.
\<close>

section \<open>syscall_overhead.c\<close>




section \<open>asm_x86.h\<close>

text \<open>The result register and the contents of the cell after the instruction.\<close>

definition locked_cmpxchg :: "u32 \<Rightarrow> u32 \<Rightarrow> u32 \<Rightarrow> u32 \<times> u32" where
  "locked_cmpxchg cell old new = (if cell = old then (old, new) else (cell, cell))"

definition unlocked_cmpxchg :: "u32 \<Rightarrow> u32 \<Rightarrow> u32 \<Rightarrow> u32 \<times> u32" where
  "unlocked_cmpxchg cell old new = (if cell = old then (old, new) else (cell, cell))"

definition implicit_locked_xchg :: "u32 \<Rightarrow> u64 \<Rightarrow> u32 \<times> u32" where
  "implicit_locked_xchg cell val = (cell, ucast val)"

section \<open>overhead_cmpxchg.c\<close>

definition cmpxchg_LOOPS :: int where [c_consts]: "cmpxchg_LOOPS = 100000000 * 10"

text \<open>
  The locals of a loop: the cell, which holds what lies on the stack, and the result, which the loop
  sets.  After the loop the result is copied to the cell.
\<close>

definition exchange :: "(u32 \<Rightarrow> u32 \<times> u32) \<Rightarrow> int \<Rightarrow> u32 \<times> u32 option \<Rightarrow> ('k, 'm, u32 \<times> u32 option) cprog" where
  "exchange f i = (\<lambda>(data, res). let (r, data') = f data in ret (data', Some r))"

definition use_result :: "u32 \<times> u32 option \<Rightarrow> ('k, 'm, unit) cprog" where
  "use_result = (\<lambda>(data, res). bnd (initialised res) (\<lambda>data. ret ()))"

definition loop_cmpxchg :: "'k kernel \<Rightarrow> u32 \<Rightarrow> int \<Rightarrow> ('k, 'm, int \<times> u64 \<times> u64 \<times> u64 \<times> u64) cprog" where
  "loop_cmpxchg K stack loops =
     timed K loops (exchange (\<lambda>data. unlocked_cmpxchg data 0 0)) (stack, None) use_result"

definition loop_cmpxchg_locked :: "'k kernel \<Rightarrow> u32 \<Rightarrow> int \<Rightarrow> ('k, 'm, int \<times> u64 \<times> u64 \<times> u64 \<times> u64) cprog" where
  "loop_cmpxchg_locked K stack loops =
     timed K loops (exchange (\<lambda>data. locked_cmpxchg data 0 0)) (stack, None) use_result"

definition loop_xchg :: "'k kernel \<Rightarrow> u32 \<Rightarrow> int \<Rightarrow> ('k, 'm, int \<times> u64 \<times> u64 \<times> u64 \<times> u64) cprog" where
  "loop_xchg K stack loops =
     timed K loops (exchange (\<lambda>data. implicit_locked_xchg data 0)) (stack, None) use_result"

definition cmpxchg_main :: "'k kernel \<Rightarrow> u32 \<Rightarrow> u32 \<Rightarrow> u32 \<Rightarrow> ('k, 'm, int) cprog" where
  "cmpxchg_main K stack1 stack2 stack3 =
     bnd (printf ''Measuring unlocked cmpxchg:'' []) (\<lambda>_.
     bnd (time_func cmpxchg_LOOPS (loop_cmpxchg K stack1)) (\<lambda>_.
     bnd (printf ''Measuring locked cmpxchg:'' []) (\<lambda>_.
     bnd (time_func cmpxchg_LOOPS (loop_cmpxchg_locked K stack2)) (\<lambda>_.
     bnd (printf ''Measuring implicit locked xchg:'' []) (\<lambda>_.
     bnd (time_func cmpxchg_LOOPS (loop_xchg K stack3)) (\<lambda>_.
     ret 0))))))"

section \<open>The loops\<close>


text \<open>Every exchange that is run at least once has a result, and none touches more than the cell.\<close>

lemma wp_exchange_loop:
  fixes w :: "('k, 'm) world_scheme"
  assumes "0 < n"
  shows "wp (for_loop 0 n (exchange f) (d, None)) (\<lambda>x v. snd x \<noteq> None \<and> v = w) E w"
  by (rule wp_for_loop [where I = "\<lambda>i x v. (0 < i \<longrightarrow> snd x \<noteq> None) \<and> v = w"])
     (use assms in \<open>auto simp: exchange_def wp_simps split: prod.splits\<close>)

lemma wp_use_result: "snd x \<noteq> None \<Longrightarrow> wp (use_result x) (\<lambda>_ v'. trace v' = trace v) E v"
  by (cases x) (auto simp: use_result_def initialised_def wp_simps)

lemma wp_exchange_measured:
  "wp (time_func cmpxchg_LOOPS (\<lambda>l. timed K l (exchange f) (d, None) use_result))
    (\<lambda>r v. r = 0 \<and> measured cmpxchg_LOOPS [] w v) stopped w"
proof -
  have "wp (time_func cmpxchg_LOOPS (\<lambda>l. timed K l (exchange f) (d, None) use_result))
    (\<lambda>r v. r = 0 \<and> (\<exists>es. es = [] \<and> measured cmpxchg_LOOPS es w v)) stopped w"
    by (rule wp_measure [where G = "\<lambda>x. snd x \<noteq> None"])
       (auto intro!: wp_conseq [OF wp_exchange_loop] wp_use_result simp: cmpxchg_LOOPS_def)
  then show ?thesis by simp
qed

lemma for_loop_end: "for_loop n n body = ret"
  by (rule ext) (subst for_loop.simps, simp)

lemma for_loop_Suc: "for_loop 0 (int n + 1) body x = bnd (for_loop 0 (int n) body x) (body (int n))"
proof -
  have "for_loop (int n - int k) (int n + 1) body x
      = bnd (for_loop (int n - int k) (int n) body x) (body (int n))" for k x
  proof (induction k arbitrary: x)
    case 0
    then show ?case by (subst for_loop.simps) (simp add: for_loop_end)
  next
    case (Suc k)
    have "int n - int (Suc k) + 1 = int n - int k" by simp
    moreover have "for_loop (int n - int k) (int n + 1) body
        = (\<lambda>x. bnd (for_loop (int n - int k) (int n) body x) (body (int n)))" by (rule ext) (rule Suc.IH)
    ultimately show ?case
      by (subst for_loop.simps [of _ "int n + 1"], subst for_loop.simps [of _ "int n"]) (simp add: bnd_assoc)
  qed
  from this [of n] show ?thesis by simp
qed

lemma exchange_run: "exchange f i (d, x) w = (Done (snd (f d), Some (fst (f d))), w)"
  by (simp add: exchange_def split: prod.split)

lemma exchange_rounds:
  "for_loop 0 (int n + 1) (exchange f) (d, None) w
    = (Done (snd (f (((snd \<circ> f) ^^ n) d)), Some (fst (f (((snd \<circ> f) ^^ n) d)))), w)"
proof (induction n)
  case 0
  then show ?case by (simp add: for_loop_Suc [of 0, simplified] for_loop_end exchange_run)
next
  case (Suc n)
  then show ?case using fun_cong [OF for_loop_Suc [of "Suc n" "exchange f" "(d, None)"], of w]
    by (simp add: bnd_def exchange_run add.commute)
qed

section \<open>Properties\<close>


text \<open>
  \<open>overhead_cmpxchg\<close> runs to its end for whatever lies on its stack.  A loop of \<open>n\<close> compare-and-exchange
  instructions with 0 and 0, locked or not, leaves the cell as it was and returns its contents; a loop of
  exchanges with 0 leaves 0, and returns the old contents the first time and 0 from then on.  The program
  returns 0 after the three measurements, or ends with \<open>EXIT_FAIL_TIME\<close>; no system call falls between
  the readings of a measurement.
\<close>

theorem cmpxchg_overhead_runs:
  "for_loop 0 (int n + 1) (exchange (\<lambda>d. unlocked_cmpxchg d 0 0)) (d, None) w = (Done (d, Some d), w)
   \<and> for_loop 0 (int n + 1) (exchange (\<lambda>d. locked_cmpxchg d 0 0)) (d, None) w = (Done (d, Some d), w)
   \<and> for_loop 0 (int n + 1) (exchange (\<lambda>d. implicit_locked_xchg d 0)) (d, None) w
       = (Done (0, Some (if n = 0 then d else 0)), w)
   \<and> wp (cmpxchg_main K stack1 stack2 stack3)
       (\<lambda>r v. r = 0 \<and> (\<exists>v1 v2. measured cmpxchg_LOOPS [] w v1 \<and> measured cmpxchg_LOOPS [] v1 v2
          \<and> measured cmpxchg_LOOPS [] v2 v))
       (\<lambda>c _. c = EXIT_FAIL_TIME) w"
proof (intro conjI)
  have u: "unlocked_cmpxchg d 0 0 = (d, d)" "locked_cmpxchg d 0 0 = (d, d)" for d
    by (simp_all add: unlocked_cmpxchg_def locked_cmpxchg_def)
  have id: "((\<lambda>d. d) ^^ n) d = d" by (induction n) simp_all
  show "for_loop 0 (int n + 1) (exchange (\<lambda>d. unlocked_cmpxchg d 0 0)) (d, None) w = (Done (d, Some d), w)"
    "for_loop 0 (int n + 1) (exchange (\<lambda>d. locked_cmpxchg d 0 0)) (d, None) w = (Done (d, Some d), w)"
    by (simp_all add: exchange_rounds u comp_def id)
  show "for_loop 0 (int n + 1) (exchange (\<lambda>d. implicit_locked_xchg d 0)) (d, None) w
       = (Done (0, Some (if n = 0 then d else 0)), w)"
    unfolding exchange_rounds by (cases n) (simp_all add: implicit_locked_xchg_def)
  show "wp (cmpxchg_main K stack1 stack2 stack3)
       (\<lambda>r v. r = 0 \<and> (\<exists>v1 v2. measured cmpxchg_LOOPS [] w v1 \<and> measured cmpxchg_LOOPS [] v1 v2
          \<and> measured cmpxchg_LOOPS [] v2 v)) stopped w"
    unfolding cmpxchg_main_def loop_cmpxchg_def loop_cmpxchg_locked_def loop_xchg_def wp_bnd wp_printf
    by (rule wp_conseq [OF wp_exchange_measured])
       (auto simp: wp_simps measured_say intro!: wp_conseq [OF wp_exchange_measured], blast)
qed

end
