(* ===== verification/MpRq.thy ===== *)
theory MpRq
  imports Kernel
begin

text \<open>
  \<open>src/rdma/mp_rq.c\<close>: a receiver that hands the network card a ring of packet buffers through the verbs
  library and gives each buffer back after its packet was reported.  The library is a parameter: what it
  answers is a function of the request and of a state of its own.  The property is about the ring: the
  card never holds a buffer twice, and every buffer it holds lies in the memory registered for it.
\<close>

section \<open>The verbs library\<close>

datatype qp_state = IBV_QPS_INIT | IBV_QPS_RTR

datatype qp_type = IBV_QPT_RAW_PACKET

datatype qp_mask = IBV_QP_STATE | IBV_QP_PORT

record qp_init_attr =
  send_cq :: int
  recv_cq :: int
  max_send_wr :: int
  max_recv_wr :: int
  max_recv_sge :: int
  qp_kind :: qp_type

record flow_attr =
  comp_mask :: int
  priority :: int
  num_of_specs :: int
  flow_port :: int
  flow_flags :: int
  val_dst_mac :: bytes
  val_src_mac :: bytes
  val_ether_type :: int
  val_vlan_tag :: int
  mask_dst_mac :: bytes
  mask_src_mac :: bytes
  mask_ether_type :: int
  mask_vlan_tag :: int

record recv_wr =
  wr_id :: u64
  sge_addr :: ptr
  sge_length :: u32
  sge_lkey :: u32

datatype vreq =
  V_get_device_list
| V_get_device_name int
| V_open_device int
| V_alloc_pd int
| V_create_cq int int
| V_create_qp int qp_init_attr
| V_modify_qp int qp_state int "qp_mask list"
| V_reg_mr int ptr int
| V_post_recv int recv_wr
| V_create_flow int flow_attr
| V_poll_cq int int

text \<open>An answer: the result, 0 for a null pointer, and what the call writes back.\<close>

record vres =
  v_ret :: int
  v_devices :: "int list"
  v_num :: int
  v_lkey :: u32
  v_wr_id :: u64
  v_byte_len :: u32

type_synonym 'd verbs = "vreq \<Rightarrow> 'd \<Rightarrow> vres \<times> 'd"

record ('k, 'd) ib_world = "'k world" +
  ib :: 'd
  ibtrace :: "(vreq \<times> vres) list"

type_synonym ('k, 'd, 'm, 'a) ibprog = "(('k, 'd, 'm) ib_world_scheme, 'a) prog"

definition vcall :: "'d verbs \<Rightarrow> vreq \<Rightarrow> ('k, 'd, 'm, vres) ibprog" where
  "vcall V rq = (\<lambda>w. let (r, d) = V rq (ib w) in (Done r, w\<lparr>ib := d, ibtrace := ibtrace w @ [(rq, r)]\<rparr>))"

section \<open>The program\<close>

definition PORT_NUM :: int where [c_consts]: "PORT_NUM = 1"
definition ENTRY_SIZE :: int where [c_consts]: "ENTRY_SIZE = 9000"
definition RQ_NUM_DESC :: int where [c_consts]: "RQ_NUM_DESC = 512"
definition DEST_MAC :: bytes where "DEST_MAC = [0x00, 0x01, 0x02, 0x03, 0x04, 0x05]"

definition give_up :: "string \<Rightarrow> ('k, 'm, 'a) cprog" where
  "give_up msg = bnd (eprintf msg []) (\<lambda>_. exit_with 1)"

text \<open>The first device of the list; \<open>None\<close> is the variable before the loop has set it.\<close>

definition find_device :: "int list \<Rightarrow> int \<Rightarrow> ('k, 'm, int) cprog" where
  "find_device dev_list num_devices =
     bnd (for_break 0 num_devices (\<lambda>i _.
            if int (length dev_list) \<le> i then ub Out_of_bounds
            else if dev_list ! nat i \<noteq> 0 then ret (Inl (dev_list ! nat i))
            else bnd (printf ''IB skipping dev_list[%d]'' [PI i]) (\<lambda>_. ret (Inr (Some (0 :: int))))) None) (\<lambda>x.
     case x of
       Inl ib_dev \<Rightarrow> ret ib_dev
     | Inr None \<Rightarrow> ub Uninit_read
     | Inr (Some _) \<Rightarrow> give_up ''IB device not found'')"

definition open_ib :: "'d verbs \<Rightarrow> ('k, 'd, 'm, int) ibprog" where
  "open_ib V =
     bnd (vcall V V_get_device_list) (\<lambda>dev_list.
     if v_ret dev_list = 0 then bnd (perror ''Failed to get IB devices list'') (\<lambda>_. exit_with 1)
     else
     bnd (printf ''INFO: num_devices:%d'' [PI (v_num dev_list)]) (\<lambda>_.
     if v_num dev_list = 0 then give_up ''Zero IB devices found''
     else
     bnd (find_device (v_devices dev_list) (v_num dev_list)) (\<lambda>ib_dev.
     bnd (vcall V (V_open_device ib_dev)) (\<lambda>context.
     if v_ret context = 0 then
       bnd (vcall V (V_get_device_name ib_dev)) (\<lambda>_.
       give_up ''Couldn't get context for %s'')
     else ret (v_ret context)))))"

definition ring_attr :: "int \<Rightarrow> qp_init_attr" where
  "ring_attr cq = \<lparr>send_cq = cq, recv_cq = cq, max_send_wr = 0, max_recv_wr = RQ_NUM_DESC,
     max_recv_sge = 1, qp_kind = IBV_QPT_RAW_PACKET\<rparr>"

definition setup_ring :: "'d verbs \<Rightarrow> int \<Rightarrow> ('k, 'd, 'm, int \<times> int \<times> int) ibprog" where
  "setup_ring V context =
     bnd (vcall V (V_alloc_pd context)) (\<lambda>pd.
     if v_ret pd = 0 then give_up ''Couldn't allocate PD''
     else
     bnd (vcall V (V_create_cq context RQ_NUM_DESC)) (\<lambda>cq.
     if v_ret cq = 0 then
       bnd (gets errno) (\<lambda>e. bnd (eprintf ''Couldn't create CQ %d'' [PI e]) (\<lambda>_. exit_with 1))
     else
     bnd (vcall V (V_create_qp (v_ret pd) (ring_attr (v_ret cq)))) (\<lambda>qp.
     if v_ret qp = 0 then give_up ''Couldn't create RSS QP''
     else
     bnd (vcall V (V_modify_qp (v_ret qp) IBV_QPS_INIT 1 [IBV_QP_STATE, IBV_QP_PORT])) (\<lambda>r.
     if v_ret r < 0 then give_up ''failed modify qp to init''
     else
     bnd (vcall V (V_modify_qp (v_ret qp) IBV_QPS_RTR 0 [IBV_QP_STATE])) (\<lambda>r.
     if v_ret r < 0 then give_up ''failed modify qp to recevie''
     else ret (v_ret pd, v_ret cq, v_ret qp))))))"

definition setup_memory :: "'k kernel \<Rightarrow> 'd verbs \<Rightarrow> int \<Rightarrow> ('k, 'd, 'm, ptr \<times> u32) ibprog" where
  "setup_memory K V pd =
     bnd (malloc K (to_u64 (ENTRY_SIZE * RQ_NUM_DESC))) (\<lambda>buf.
     if buf = NULL then give_up ''Coudln't allocate memory''
     else
     bnd (vcall V (V_reg_mr pd buf (ENTRY_SIZE * RQ_NUM_DESC))) (\<lambda>mr.
     if v_ret mr = 0 then give_up ''Couldn't register mr''
     else ret (buf, v_lkey mr)))"

text \<open>
  One descriptor.  The address is the buffer's plus an offset computed in 64 bits.  The result of the
  call is not looked at.
\<close>

definition post :: "'d verbs \<Rightarrow> int \<Rightarrow> ptr \<Rightarrow> u32 \<Rightarrow> u64 \<Rightarrow> ('k, 'd, 'm, unit) ibprog" where
  "post V qp buf lkey n =
     bnd (vcall V (V_post_recv qp \<lparr>wr_id = n, sge_addr = ptr_add buf (uint (n * to_u64 ENTRY_SIZE)),
            sge_length = word_of_int ENTRY_SIZE, sge_lkey = lkey\<rparr>)) (\<lambda>_.
     ret ())"

definition steering :: flow_attr where
  "steering = \<lparr>comp_mask = 0, priority = 0, num_of_specs = 1, flow_port = PORT_NUM, flow_flags = 0,
     val_dst_mac = DEST_MAC, val_src_mac = replicate 6 0, val_ether_type = 0, val_vlan_tag = 0,
     mask_dst_mac = replicate 6 0xFF, mask_src_mac = replicate 6 0xFF, mask_ether_type = 0, mask_vlan_tag = 0\<rparr>"

definition poll_round :: "'d verbs \<Rightarrow> int \<Rightarrow> int \<Rightarrow> ptr \<Rightarrow> u32 \<Rightarrow> ('k, 'd, 'm, unit) ibprog" where
  "poll_round V cq qp buf lkey =
     bnd (vcall V (V_poll_cq cq 1)) (\<lambda>wc.
     if 0 < v_ret wc then
       bnd (printf ''message %ld received size %d'' [PI (sint (v_wr_id wc)), PI (sint (v_byte_len wc))]) (\<lambda>_.
       post V qp buf lkey (v_wr_id wc))
     else if v_ret wc < 0 then
       bnd (printf ''Polling error'' []) (\<lambda>_. exit_with 1)
     else ret ())"

text \<open>\<open>main\<close>, with \<open>while(1)\<close> followed for \<open>rounds\<close> rounds.\<close>

definition mp_main :: "'k kernel \<Rightarrow> 'd verbs \<Rightarrow> nat \<Rightarrow> ('k, 'd, 'm, unit) ibprog" where
  "mp_main K V rounds =
     bnd (open_ib V) (\<lambda>context.
     bnd (setup_ring V context) (\<lambda>(pd, cq, qp).
     bnd (setup_memory K V pd) (\<lambda>(buf, lkey).
     bnd (for_loop 0 RQ_NUM_DESC (\<lambda>n _. post V qp buf lkey (to_u64 n)) ()) (\<lambda>_.
     bnd (vcall V (V_create_flow qp steering)) (\<lambda>eth_flow.
     if v_ret eth_flow = 0 then give_up ''Couldn't attach steering flow''
     else for_loop 0 (int rounds) (\<lambda>_ _. poll_round V cq qp buf lkey) ())))))"

section \<open>The ring\<close>

text \<open>The descriptors the card holds after a sequence of calls.\<close>

fun ring :: "u64 set \<Rightarrow> (vreq \<times> vres) list \<Rightarrow> u64 set" where
  "ring S [] = S"
| "ring S ((V_post_recv _ wr, _) # es) = ring (insert (wr_id wr) S) es"
| "ring S ((V_poll_cq _ _, r) # es) = ring (if 0 < v_ret r then S - {v_wr_id r} else S) es"
| "ring S (_ # es) = ring S es"

text \<open>What the library documents: a completion is reported for a descriptor the card holds.\<close>

fun completes :: "u64 set \<Rightarrow> (vreq \<times> vres) list \<Rightarrow> bool" where
  "completes S [] \<longleftrightarrow> True"
| "completes S ((V_post_recv _ wr, _) # es) \<longleftrightarrow> completes (insert (wr_id wr) S) es"
| "completes S ((V_poll_cq _ _, r) # es) \<longleftrightarrow> (0 < v_ret r \<longrightarrow> v_wr_id r \<in> S)
     \<and> completes (if 0 < v_ret r then S - {v_wr_id r} else S) es"
| "completes S (_ # es) \<longleftrightarrow> completes S es"

text \<open>
  What the program promises: the one region it registers is \<open>buf\<close>, and every descriptor it posts is not
  in the card's hands and is for its own place in the region.
\<close>

fun well_posted :: "ptr \<Rightarrow> u64 set \<Rightarrow> (vreq \<times> vres) list \<Rightarrow> bool" where
  "well_posted buf S [] \<longleftrightarrow> True"
| "well_posted buf S ((V_post_recv _ wr, _) # es) \<longleftrightarrow> wr_id wr \<notin> S \<and> uint (wr_id wr) < RQ_NUM_DESC
     \<and> sge_addr wr = ptr_add buf (ENTRY_SIZE * uint (wr_id wr)) \<and> uint (sge_length wr) = ENTRY_SIZE
     \<and> well_posted buf (insert (wr_id wr) S) es"
| "well_posted buf S ((V_poll_cq _ _, r) # es) \<longleftrightarrow> well_posted buf (if 0 < v_ret r then S - {v_wr_id r} else S) es"
| "well_posted buf S ((V_reg_mr _ p n, _) # es) \<longleftrightarrow> p = buf \<and> n = ENTRY_SIZE * RQ_NUM_DESC \<and> well_posted buf S es"
| "well_posted buf S (_ # es) \<longleftrightarrow> well_posted buf S es"

lemma ring_append: "ring S (xs @ ys) = ring (ring S xs) ys"
  by (induction S xs rule: ring.induct) simp_all

lemma completes_append: "completes S (xs @ ys) \<longleftrightarrow> completes S xs \<and> completes (ring S xs) ys"
  by (induction S xs rule: ring.induct) auto

lemma well_posted_append: "well_posted buf S (xs @ ys) \<longleftrightarrow> well_posted buf S xs \<and> well_posted buf (ring S xs) ys"
  by (induction S xs rule: ring.induct) (auto elim: well_posted.elims)

text \<open>Calls before the memory is registered.\<close>

fun before_memory :: "vreq \<Rightarrow> bool" where
  "before_memory (V_post_recv _ _) = False"
| "before_memory (V_poll_cq _ _) = False"
| "before_memory (V_reg_mr _ _ _) = False"
| "before_memory _ = True"

lemma before_memory_ring:
  "list_all (before_memory \<circ> fst) es \<Longrightarrow> ring S es = S \<and> well_posted buf S es"
  by (induction S es rule: ring.induct) auto

lemma ib_fields [simp]:
  "ibtrace (after_call K rq w) = ibtrace w" "ibtrace (say m w) = ibtrace w" "ibtrace (new_block bs w) = ibtrace w"
  "ib (after_call K rq w) = ib w" "ib (say m w) = ib w"
  by (simp_all add: after_call_def say_def new_block_def)

definition after_vcall :: "'d verbs \<Rightarrow> vreq \<Rightarrow> ('k, 'd, 'm) ib_world_scheme \<Rightarrow> ('k, 'd, 'm) ib_world_scheme" where
  "after_vcall V rq w = w\<lparr>ib := snd (V rq (ib w)), ibtrace := ibtrace w @ [(rq, fst (V rq (ib w)))]\<rparr>"

lemma after_vcall_fields [simp]:
  "ibtrace (after_vcall V rq w) = ibtrace w @ [(rq, fst (V rq (ib w)))]" "heap (after_vcall V rq w) = heap w"
  by (simp_all add: after_vcall_def)

lemma wp_vcall [wp_simps]: "wp (vcall V rq) Q E = (\<lambda>w. Q (fst (V rq (ib w))) (after_vcall V rq w))"
  by (simp add: vcall_def wp_def after_vcall_def fun_eq_iff split: prod.splits)

definition lists_devices :: "'d verbs \<Rightarrow> bool" where
  "lists_devices V \<longleftrightarrow> (\<forall>d. v_num (fst (V V_get_device_list d)) = int (length (v_devices (fst (V V_get_device_list d)))))"

lemma wp_find_device:
  assumes "n = int (length ds)" "n \<noteq> 0" "\<And>d v. ibtrace v = ibtrace w \<Longrightarrow> heap v = heap w \<Longrightarrow> Q d v"
    "\<And>v. ibtrace v = ibtrace w \<Longrightarrow> E 1 v"
  shows "wp (find_device ds n) Q E (w :: ('k, 'd, 'm) ib_world_scheme)"
proof -
  have "wp (for_break 0 n (\<lambda>i _.
            if int (length ds) \<le> i then ub Out_of_bounds
            else if ds ! nat i \<noteq> 0 then ret (Inl (ds ! nat i))
            else bnd (printf ''IB skipping dev_list[%d]'' [PI i]) (\<lambda>_. ret (Inr (Some (0 :: int))))) None)
     (\<lambda>x v. ibtrace v = ibtrace w \<and> heap v = heap w \<and> x \<noteq> Inr None) E w"
    by (rule wp_for_break [where I = "\<lambda>i x v. ibtrace v = ibtrace w \<and> heap v = heap w \<and> (0 < i \<longrightarrow> x \<noteq> None)"])
      (use assms(1,2) in \<open>auto simp: wp_simps simp del: ret_run\<close>)
  then show ?thesis
    unfolding find_device_def wp_bnd
    by (rule wp_conseq) (auto simp: give_up_def wp_simps split: sum.splits option.splits intro!: assms(3,4) simp del: ret_run)
qed

text \<open>The calls since \<open>t0\<close> were before any memory.\<close>

definition early :: "(vreq \<times> vres) list \<Rightarrow> ('k, 'd, 'm) ib_world_scheme \<Rightarrow> bool" where
  "early t0 v \<longleftrightarrow> (\<exists>es. ibtrace v = t0 @ es \<and> list_all (before_memory \<circ> fst) es)"

lemma early_step [simp]:
  "early t0 (say m v) = early t0 v" "early t0 (after_call K rq v) = early t0 v" "early t0 (new_block bs v) = early t0 v"
  "before_memory vq \<Longrightarrow> early t0 v \<Longrightarrow> early t0 (after_vcall V vq v)"
  by (auto simp: early_def)

lemma wp_open_ib:
  fixes w :: "('k, 'd, 'm) ib_world_scheme"
  assumes "lists_devices V" "early t0 w" "\<And>c v. early t0 v \<Longrightarrow> Q c v" "\<And>v. early t0 v \<Longrightarrow> E 1 v"
  shows "wp (open_ib V) Q E w"
proof -
  let ?w1 = "after_vcall V V_get_device_list w" and ?r = "fst (V V_get_device_list (ib w))"
  have "wp (find_device (v_devices ?r) (v_num ?r)) (\<lambda>dev. wp (bnd (vcall V (V_open_device dev)) (\<lambda>context.
     if v_ret context = 0 then bnd (vcall V (V_get_device_name dev)) (\<lambda>_. give_up ''Couldn't get context for %s'')
     else ret (v_ret context))) Q E) E u" if "v_num ?r \<noteq> 0" "early t0 u" for u :: "('k, 'd, 'm) ib_world_scheme"
  proof (rule wp_find_device)
    show "v_num ?r = int (length (v_devices ?r))" using assms(1) by (simp add: lists_devices_def)
    show "v_num ?r \<noteq> 0" by fact
  next
    fix dev and v :: "('k, 'd, 'm) ib_world_scheme"
    assume "ibtrace v = ibtrace u"
    then have v: "early t0 v" using that(2) by (simp add: early_def)
    show "wp (bnd (vcall V (V_open_device dev)) (\<lambda>context.
       if v_ret context = 0 then bnd (vcall V (V_get_device_name dev)) (\<lambda>_. give_up ''Couldn't get context for %s'')
       else ret (v_ret context))) Q E v"
      using v by (auto simp: give_up_def wp_simps intro!: assms(3,4) simp del: ret_run)
  next
    fix v :: "('k, 'd, 'm) ib_world_scheme"
    assume "ibtrace v = ibtrace u"
    then show "E 1 v" using that(2) by (intro assms(4)) (simp add: early_def)
  qed
  then show ?thesis
    unfolding open_ib_def wp_bnd [of "vcall V V_get_device_list"]
    using assms by (auto simp: wp_simps give_up_def intro!: assms(4) simp del: ret_run bnd_gets)
qed

lemma wp_setup_ring:
  assumes "early t0 w" "\<And>x v. early t0 v \<Longrightarrow> Q x v" "\<And>v. early t0 v \<Longrightarrow> E 1 v"
  shows "wp (setup_ring V c) Q E w"
  unfolding setup_ring_def
  using assms(1) by (auto simp: wp_simps give_up_def intro!: assms(2,3) simp del: ret_run bnd_gets)

text \<open>The state from there on, as long as the library kept to its documentation.\<close>

definition posting :: "ptr \<Rightarrow> (vreq \<times> vres) list \<Rightarrow> (u64 set \<Rightarrow> bool) \<Rightarrow> ('k, 'd, 'm) ib_world_scheme \<Rightarrow> bool" where
  "posting buf t0 P v \<longleftrightarrow> (\<exists>es. ibtrace v = t0 @ es \<and> (completes {} es \<longrightarrow> well_posted buf {} es \<and> P (ring {} es)))
     \<and> (\<exists>b bs. buf = Ptr b 0 \<and> heap v b = Some bs \<and> int (length bs) = ENTRY_SIZE * RQ_NUM_DESC)"

lemma posting_step [simp]:
  "posting buf t0 P (say m v) = posting buf t0 P v"
  by (simp add: posting_def)

lemma posting_vcall:
  fixes v :: "('k, 'd, 'm) ib_world_scheme"
  assumes "posting buf t0 P v"
    and "\<And>S r. r = fst (V rq (ib v)) \<Longrightarrow> P S \<Longrightarrow> completes S [(rq, r)] \<Longrightarrow> well_posted buf S [(rq, r)] \<and> R (ring S [(rq, r)])"
  shows "posting buf t0 R (after_vcall V rq v)"
proof -
  from assms(1) obtain es where es: "ibtrace v = t0 @ es" "completes {} es \<longrightarrow> well_posted buf {} es \<and> P (ring {} es)"
    by (auto simp: posting_def)
  let ?r = "fst (V rq (ib v))"
  have "completes {} (es @ [(rq, ?r)]) \<longrightarrow> well_posted buf {} (es @ [(rq, ?r)]) \<and> R (ring {} (es @ [(rq, ?r)]))"
    using es(2) assms(2) [OF refl]
    by (simp add: completes_append well_posted_append ring_append del: completes.simps well_posted.simps ring.simps)
  with es(1) assms(1) show ?thesis
    unfolding posting_def by (auto intro!: exI [of _ "es @ [(rq, ?r)]"])
qed

lemma posting_mono: "posting buf t0 P v \<Longrightarrow> (\<And>S. P S \<Longrightarrow> R S) \<Longrightarrow> posting buf t0 R v"
  by (auto simp: posting_def)

lemma wp_setup_memory:
  fixes w :: "('k, 'd, 'm) ib_world_scheme"
  assumes w: "early t0 w" and Q: "\<And>buf lkey v. posting buf t0 (\<lambda>S. S = {}) v \<Longrightarrow> Q (buf, lkey) v"
    and E: "\<And>v. early t0 v \<or> (\<exists>buf. posting buf t0 (\<lambda>_. True) v) \<Longrightarrow> E 1 v"
  shows "wp (setup_memory K V pd) Q E w"
proof -
  let ?sz = "to_u64 (ENTRY_SIZE * RQ_NUM_DESC)"
  let ?rq = "Rq_malloc ?sz"
  let ?bs = "fresh_bytes ?sz (reply K ?rq w)"
  let ?u = "new_block ?bs (after_call K ?rq w)"
  have "uint ?sz = ENTRY_SIZE * RQ_NUM_DESC"
    by (intro uint_to_u64) (simp_all add: ENTRY_SIZE_def RQ_NUM_DESC_def)
  then have len: "int (length ?bs) = ENTRY_SIZE * RQ_NUM_DESC" by simp
  obtain es where "ibtrace w = t0 @ es" "list_all (before_memory \<circ> fst) es" using w by (auto simp: early_def)
  then have "posting (Ptr (next_blk w) 0) t0 (\<lambda>S. S = {}) ?u"
    using before_memory_ring [of es "{}" "Ptr (next_blk w) 0"] len by (auto simp: posting_def)
  then have p: "posting (Ptr (next_blk w) 0) t0 (\<lambda>S. S = {}) (after_vcall V (V_reg_mr pd (Ptr (next_blk w) 0) (ENTRY_SIZE * RQ_NUM_DESC)) ?u)"
    by (rule posting_vcall) auto
  with w show ?thesis
    unfolding setup_memory_def
    using posting_mono [OF p, of "\<lambda>_. True"]
    by (auto simp: wp_simps give_up_def intro!: Q E simp del: ret_run bnd_gets)
qed

text \<open>The descriptors of the whole ring, and of its first \<open>n\<close>.\<close>

definition slots :: "int \<Rightarrow> u64 set" where
  "slots n = {s. uint s < n}"

lemma slots_simps [simp]: "slots 0 = {}" "s \<in> slots n \<longleftrightarrow> uint s < n"
  by (auto simp: slots_def)

lemma slots_Suc: "0 \<le> n \<Longrightarrow> n < RQ_NUM_DESC \<Longrightarrow> slots (n + 1) = insert (to_u64 n) (slots n)"
proof -
  assume n: "0 \<le> n" "n < RQ_NUM_DESC"
  then have u: "uint (to_u64 n) = n" by (intro uint_to_u64) (simp_all add: RQ_NUM_DESC_def)
  show ?thesis
  proof (rule set_eqI)
    fix s :: u64
    have "s = to_u64 n \<longleftrightarrow> uint s = n" using u by (metis word_uint_eq_iff)
    then show "s \<in> slots (n + 1) \<longleftrightarrow> s \<in> insert (to_u64 n) (slots n)" by auto
  qed
qed

lemma wp_post:
  fixes v :: "('k, 'd, 'm) ib_world_scheme"
  assumes v: "posting buf t0 P v" and P: "\<And>S. P S \<Longrightarrow> s \<notin> S \<and> uint s < RQ_NUM_DESC \<and> R (insert s S)"
    and Q: "\<And>u. posting buf t0 R u \<Longrightarrow> Q () u"
  shows "wp (post V qp buf lkey s) Q E v"
proof -
  have "uint (s * to_u64 ENTRY_SIZE) = ENTRY_SIZE * uint s" if "uint s < RQ_NUM_DESC"
    using that by (simp add: uint_word_ariths to_u64_def ENTRY_SIZE_def RQ_NUM_DESC_def)
  moreover have "uint (word_of_int ENTRY_SIZE :: u32) = ENTRY_SIZE" by (simp add: ENTRY_SIZE_def)
  ultimately have "posting buf t0 R (after_vcall V (V_post_recv qp \<lparr>wr_id = s,
      sge_addr = ptr_add buf (uint (s * to_u64 ENTRY_SIZE)), sge_length = word_of_int ENTRY_SIZE, sge_lkey = lkey\<rparr>) v)"
    by (intro posting_vcall [OF v]) (use P in auto)
  then show ?thesis unfolding post_def by (simp add: wp_simps Q)
qed

lemma wp_fill_ring:
  fixes v :: "('k, 'd, 'm) ib_world_scheme"
  assumes "posting buf t0 (\<lambda>S. S = {}) v"
  shows "wp (for_loop 0 RQ_NUM_DESC (\<lambda>n _. post V qp buf lkey (to_u64 n)) ())
    (\<lambda>_. posting buf t0 (\<lambda>S. S = slots RQ_NUM_DESC)) E v"
proof (rule wp_for_loop [where I = "\<lambda>n _. posting buf t0 (\<lambda>S. S = slots n)"])
  fix n a and u :: "('k, 'd, 'm) ib_world_scheme"
  assume n: "0 \<le> n" "n < RQ_NUM_DESC" and u: "posting buf t0 (\<lambda>S. S = slots n) u"
  have "uint (to_u64 n) = n" using n by (intro uint_to_u64) (simp_all add: RQ_NUM_DESC_def)
  then show "wp (post V qp buf lkey (to_u64 n)) (\<lambda>_. posting buf t0 (\<lambda>S. S = slots (n + 1))) E u"
    using n by (intro wp_post [OF u, where R = "\<lambda>S. S = slots (n + 1)"]) (auto simp: slots_Suc)
qed (use assms in \<open>auto simp: RQ_NUM_DESC_def\<close>)

lemma wp_poll_round:
  fixes v :: "('k, 'd, 'm) ib_world_scheme"
  assumes v: "posting buf t0 (\<lambda>S. S = slots RQ_NUM_DESC) v"
    and E: "\<And>u. posting buf t0 (\<lambda>_. True) u \<Longrightarrow> E 1 u"
  shows "wp (poll_round V cq qp buf lkey) (\<lambda>_. posting buf t0 (\<lambda>S. S = slots RQ_NUM_DESC)) E v"
proof -
  let ?rq = "V_poll_cq cq 1"
  let ?r = "fst (V ?rq (ib v))" and ?u = "after_vcall V ?rq v"
  have got: "posting buf t0 (\<lambda>S. v_wr_id ?r \<in> slots RQ_NUM_DESC \<and> S = slots RQ_NUM_DESC - {v_wr_id ?r}) ?u" if "0 < v_ret ?r"
    by (rule posting_vcall [OF v]) (use that in auto)
  have none: "posting buf t0 (\<lambda>S. S = slots RQ_NUM_DESC) ?u" if "\<not> 0 < v_ret ?r"
    by (rule posting_vcall [OF v]) (use that in auto)
  have again: "wp (post V qp buf lkey (v_wr_id ?r)) (\<lambda>_. posting buf t0 (\<lambda>S. S = slots RQ_NUM_DESC)) E (say m ?u)"
    if "0 < v_ret ?r" for m
    by (rule wp_post [where P = "\<lambda>S. v_wr_id ?r \<in> slots RQ_NUM_DESC \<and> S = slots RQ_NUM_DESC - {v_wr_id ?r}"
          and R = "\<lambda>S. S = slots RQ_NUM_DESC"]) (use got that in auto)
  show ?thesis
    unfolding poll_round_def
    using again none posting_mono [OF none, of "\<lambda>_. True"]
    by (auto simp: wp_simps intro!: E simp del: ret_run)
qed

lemma wp_mp_main:
  fixes w :: "('k, 'd, 'm) ib_world_scheme"
  assumes V: "lists_devices V"
  shows "wp (mp_main K V rounds) (\<lambda>_ v. \<exists>buf. posting buf (ibtrace w) (\<lambda>S. S = slots RQ_NUM_DESC) v)
    (\<lambda>c v. c = 1 \<and> (early (ibtrace w) v \<or> (\<exists>buf. posting buf (ibtrace w) (\<lambda>_. True) v))) w"
proof -
  let ?Q = "\<lambda>_ v. \<exists>buf. posting buf (ibtrace w) (\<lambda>S. S = slots RQ_NUM_DESC) v"
  let ?E = "\<lambda>c v. c = 1 \<and> (early (ibtrace w) v \<or> (\<exists>buf. posting buf (ibtrace w) (\<lambda>_. True) v))"
  have loop: "wp (for_loop 0 (int rounds) (\<lambda>_ _. poll_round V cq qp buf lkey) ()) ?Q ?E u"
    if "posting buf (ibtrace w) (\<lambda>S. S = slots RQ_NUM_DESC) u" for cq qp buf lkey and u :: "('k, 'd, 'm) ib_world_scheme"
    by (rule wp_for_loop [where I = "\<lambda>_ _. posting buf (ibtrace w) (\<lambda>S. S = slots RQ_NUM_DESC)"])
      (use that in \<open>auto intro!: wp_poll_round\<close>)
  have flow: "wp (bnd (vcall V (V_create_flow qp steering)) (\<lambda>f. if v_ret f = 0 then give_up ''Couldn't attach steering flow''
      else for_loop 0 (int rounds) (\<lambda>_ _. poll_round V cq qp buf lkey) ())) ?Q ?E u"
    if u: "posting buf (ibtrace w) (\<lambda>S. S = slots RQ_NUM_DESC) u" for cq qp buf lkey and u :: "('k, 'd, 'm) ib_world_scheme"
  proof -
    have p: "posting buf (ibtrace w) (\<lambda>S. S = slots RQ_NUM_DESC) (after_vcall V (V_create_flow qp steering) u)"
      by (rule posting_vcall [OF u]) simp
    show ?thesis
      using posting_mono [OF p, of "\<lambda>_. True"] loop [OF p]
      by (auto simp: give_up_def wp_simps simp del: ret_run)
  qed
  have mem: "wp (bnd (setup_memory K V pd) (\<lambda>(buf, lkey).
     bnd (for_loop 0 RQ_NUM_DESC (\<lambda>n _. post V qp buf lkey (to_u64 n)) ()) (\<lambda>_.
     bnd (vcall V (V_create_flow qp steering)) (\<lambda>f. if v_ret f = 0 then give_up ''Couldn't attach steering flow''
      else for_loop 0 (int rounds) (\<lambda>_ _. poll_round V cq qp buf lkey) ())))) ?Q ?E u"
    if "early (ibtrace w) u" for pd cq qp and u :: "('k, 'd, 'm) ib_world_scheme"
    unfolding wp_bnd [of "setup_memory _ _ _"]
    by (rule wp_setup_memory [OF that])
      (auto simp: wp_bnd [of "for_loop _ _ _ _"] intro!: wp_conseq [OF wp_fill_ring [where E = "\<lambda>_ _. False"]] flow)
  show ?thesis
    unfolding mp_main_def wp_bnd [of "open_ib _"] wp_bnd [of "setup_ring _ _"]
    by (rule wp_open_ib [OF V]) (auto simp: early_def [of _ w] intro!: wp_setup_ring mem)
qed

section \<open>The property\<close>

text \<open>
  C17.  The ring is safe.  On a library that lists the devices it counts and reports completions only for
  descriptors it was given, and for every number of rounds of the polling loop, the program comes to the
  next round or exits with 1.  It never posts a descriptor the card still holds, so no two packets share
  a buffer; every descriptor it posts is one of the 512 of the ring and is for its own 9000 bytes of the
  one region it registered, a block of 512 times 9000 bytes; and whenever it comes to the next round the
  card holds all 512 descriptors again.
\<close>

theorem mp_ring_safe:
  fixes w w' :: "('k, 'd, 'm) ib_world_scheme"
  assumes V: "lists_devices V" and run: "mp_main K V rounds w = (x, w')"
    and es: "ibtrace w' = ibtrace w @ es" "completes {} es"
  shows "x \<in> {Done (), Exit 1} \<and> (\<exists>buf. well_posted buf {} es)
    \<and> (x = Done () \<longrightarrow> ring {} es = {s. uint s < RQ_NUM_DESC} \<and> (\<exists>b bs. heap w' b = Some bs
         \<and> int (length bs) = ENTRY_SIZE * RQ_NUM_DESC \<and> well_posted (Ptr b 0) {} es))"
proof -
  have early: "well_posted buf {} es" if "early (ibtrace w) w'" for buf
    using that es(1) before_memory_ring by (auto simp: early_def)
  have posting: "well_posted buf {} es \<and> P (ring {} es)
      \<and> (\<exists>b bs. buf = Ptr b 0 \<and> heap w' b = Some bs \<and> int (length bs) = ENTRY_SIZE * RQ_NUM_DESC)"
    if "posting buf (ibtrace w) P w'" for buf P
    using that es by (auto simp: posting_def)
  from wp_result [OF wp_mp_main [OF V] run] consider
      buf where "x = Done ()" "posting buf (ibtrace w) (\<lambda>S. S = slots RQ_NUM_DESC) w'"
    | "x = Exit 1" "early (ibtrace w) w'"
    | buf where "x = Exit 1" "posting buf (ibtrace w) (\<lambda>_. True) w'" by auto
  then show ?thesis
  proof cases
    case 1
    from posting [OF 1(2)] show ?thesis using 1(1) by (auto simp: slots_def)
  next
    case 2
    with early show ?thesis by auto
  next
    case 3
    with posting [OF 3(2)] show ?thesis by auto
  qed
qed

text \<open>A library with one device on which nothing ever arrives.\<close>

definition idle_card :: "unit verbs" where
  "idle_card rq d = (\<lparr>v_ret = (case rq of V_poll_cq _ _ \<Rightarrow> 0 | V_modify_qp _ _ _ _ \<Rightarrow> 0 | _ \<Rightarrow> 1), v_devices = [7], v_num = 1,
     v_lkey = 0, v_wr_id = 0, v_byte_len = 0\<rparr>, d)"

definition ib_boot :: "(sysres list, unit) ib_world" where
  "ib_boot = \<lparr>kern = [sysres_of 1 0], errno = 0, verbose = 0, heap = Map.empty, next_blk = 0, trace = [], out = [], ib = (), ibtrace = []\<rparr>"

lemma idle_completes: "list_all (\<lambda>(rq, r). r = fst (idle_card rq ())) es \<Longrightarrow> completes S es"
  by (induction S es rule: completes.induct) (auto simp: idle_card_def)

definition idle :: "('k, unit, 'm) ib_world_scheme \<Rightarrow> bool" where
  "idle v \<longleftrightarrow> list_all (\<lambda>(rq, r). r = fst (idle_card rq ())) (ibtrace v)"

lemma idle_step [simp]:
  "idle (say m v) = idle v" "idle (after_call K rq v) = idle v" "idle (new_block bs v) = idle v"
  "idle (after_vcall idle_card vq v) = idle v"
  by (simp_all add: idle_def)

lemma wp_idle:
  fixes w :: "('k, unit, 'm) ib_world_scheme"
  assumes "idle w"
  shows "wp (mp_main K idle_card n) (\<lambda>_. idle) (\<lambda>_. idle) w"
proof -
  have find: "wp (find_device [7] 1) Q (\<lambda>_. idle) v" if "\<And>d u. idle u \<Longrightarrow> Q d u" "idle v"
    for Q and v :: "('k, unit, 'm) ib_world_scheme"
    by (rule wp_find_device) (use that in \<open>auto simp: idle_def\<close>)
  have fill: "wp (for_loop 0 m (\<lambda>n _. post idle_card qp buf lkey (to_u64 n)) ()) (\<lambda>_. idle) (\<lambda>_. idle) v"
    if "idle v" for m qp buf lkey and v :: "('k, unit, 'm) ib_world_scheme"
    by (rule wp_for_loop [where I = "\<lambda>_ _. idle"]) (use that in \<open>auto simp: post_def wp_simps\<close>)
  have poll: "wp (for_loop 0 m (\<lambda>_ _. poll_round idle_card cq qp buf lkey) ()) (\<lambda>_. idle) (\<lambda>_. idle) v"
    if "idle v" for m cq qp buf lkey and v :: "('k, unit, 'm) ib_world_scheme"
    by (rule wp_for_loop [where I = "\<lambda>_ _. idle"])
      (use that in \<open>auto simp: poll_round_def post_def idle_card_def wp_simps simp del: ret_run\<close>)
  show ?thesis
    unfolding mp_main_def open_ib_def setup_ring_def setup_memory_def give_up_def
    using assms
    by (auto simp: wp_simps idle_card_def [of V_get_device_list] intro!: find wp_conseq [OF fill] poll simp del: ret_run bnd_gets)
qed

theorem mp_ring_safe_witness:
  "\<exists>x w'. mp_main scripted idle_card 5 ib_boot = (x, w')
     \<and> x \<in> {Done (), Exit 1} \<and> (\<exists>buf. well_posted buf {} (ibtrace w'))"
proof -
  obtain x w' where run: "mp_main scripted idle_card 5 ib_boot = (x, w')" by fastforce
  have "idle ib_boot" by (simp add: idle_def ib_boot_def)
  from wp_result [OF wp_idle [OF this] run] have "idle w'" by auto
  then have c: "completes {} (ibtrace w')" by (intro idle_completes) (simp add: idle_def)
  have "lists_devices idle_card" by (simp add: lists_devices_def idle_card_def)
  from mp_ring_safe [OF this run _ c] run show ?thesis by (simp add: ib_boot_def)
qed

end
