(* ===== verification/GetNicDriver.thy ===== *)
theory GetNicDriver
  imports Common
begin

text \<open>
  \<open>src/src/get_nic_driver.c\<close>: asks the kernel for the driver of a network device.  The property says what
  the program reports, also where the question fails, which it does not notice.
\<close>

section \<open>Definitions\<close>

definition IFNAMSIZ :: nat where [c_consts]: "IFNAMSIZ = 16"

definition SIOCETHTOOL :: int where [c_consts]: "SIOCETHTOOL = 0x8946"

definition nic_long_options :: "long_opt list" where
  "nic_long_options =
     [\<lparr>opt_name = ''help'', opt_has_arg = no_argument, opt_flag = None, opt_val = of_char (CHR ''h'')\<rparr>,
      \<lparr>opt_name = ''dev'', opt_has_arg = required_argument, opt_flag = None, opt_val = of_char (CHR ''d'')\<rparr>]"

definition nic_usage :: "string \<Rightarrow> ('k, 'm, unit) cprog" where
  "nic_usage argv0 =
     bnd (printf ''DOCUMENTATION: Extract NIC driver name (example in C-code)'' []) (\<lambda>_.
     bnd (printf '' Usage: %s (options-see-below)'' [PS argv0]) (\<lambda>_.
     bnd (printf '' Listing options:'' []) (\<lambda>_.
     bnd (list_options '' --%-12s'' nic_long_options) (\<lambda>_.
     printf '''' []))))"

record ioctl_context =
  ctx_fd :: int
  ifr_name :: string

text \<open>
  The result and the context; where it fails the context is what it was, with the socket's -1 in it
  in the second case.
\<close>

definition ioctl_init :: "'k kernel \<Rightarrow> ioctl_context \<Rightarrow> string \<Rightarrow> ('k, 'm, int \<times> ioctl_context) cprog" where
  "ioctl_init K ctx devname =
     (if IFNAMSIZ \<le> length devname then
        bnd (eprintf ''Device name longer than %u characters'' [PI (int IFNAMSIZ - 1)]) (\<lambda>_.
        ret (1, ctx))
      else
        bnd (syscall K (Rq_socket AF_INET SOCK_DGRAM 0)) (\<lambda>fd.
        let ctx' = \<lparr>ctx_fd = r_ret fd, ifr_name = devname\<rparr> in
        if r_ret fd < 0 then
          bnd (perror ''Cannot get control socket'') (\<lambda>_. ret (70, ctx'))
        else ret (0, ctx')))"

text \<open>The answer fills in the driver's name where the call succeeds.\<close>

definition ioctl_send :: "'k kernel \<Rightarrow> ioctl_context \<Rightarrow> string \<Rightarrow> ('k, 'm, int \<times> string) cprog" where
  "ioctl_send K ctx driver =
     bnd (syscall K (Rq_ioctl (ctx_fd ctx) SIOCETHTOOL (ifr_name ctx))) (\<lambda>r.
     ret (r_ret r, if r_ret r < 0 then driver else case r_text r of None \<Rightarrow> driver | Some d \<Rightarrow> d))"

definition get_driver_info :: "'k kernel \<Rightarrow> string \<Rightarrow> string \<Rightarrow> ('k, 'm, int \<times> string) cprog" where
  "get_driver_info K devname driver =
     bnd (ioctl_init K \<lparr>ctx_fd = 0, ifr_name = []\<rparr> devname) (\<lambda>(err, ctx).
     if err \<noteq> 0 then
       bnd (perror ''Cannot init ioctl fd'') (\<lambda>_. ret (err, driver))
     else
       bnd (ioctl_send K ctx driver) (\<lambda>(err, driver').
       if err < 0 then
         bnd (perror ''Cannot get driver information'') (\<lambda>_. ret (71, driver'))
       else
         bnd (syscall K (Rq_close (ctx_fd ctx))) (\<lambda>_.
         ret (0, driver'))))"

definition nic_refuse :: "string \<Rightarrow> ('k, 'm, int + 'a) cprog" where
  "nic_refuse argv0 = bnd (nic_usage argv0) (\<lambda>_. ret (Inl EXIT_FAIL_OPTION))"

text \<open>
  The option loop: the name and the index of the device, -1 where none was given.  \<open>if_nametoindex\<close>
  reports an error by the index 0.
\<close>

fun nic_parse :: "'k kernel \<Rightarrow> string \<Rightarrow> optres list \<Rightarrow> string \<times> int \<Rightarrow> ('k, 'm, int + string \<times> int) cprog" where
  "nic_parse K argv0 [] x = ret (Inr x)"
| "nic_parse K argv0 (opt # opts) x =
     (if opt_is opt (CHR ''d'') then
        (case o_arg opt of
           None \<Rightarrow> ub Out_of_bounds
         | Some arg \<Rightarrow>
             if IFNAMSIZ \<le> length arg then
               bnd (eprintf ''ERR: --dev name too long'' []) (\<lambda>_. nic_refuse argv0)
             else
               bnd (syscall K (Rq_if_nametoindex arg)) (\<lambda>ifindex.
               if r_ret ifindex = 0 then
                 bnd (modify (\<lambda>w. w\<lparr>errno := r_errno ifindex\<rparr>)) (\<lambda>_.
                 bnd (gets errno) (\<lambda>e.
                 bnd (eprintf ''ERR: --dev name unknown err(%d):%s'' [PI e]) (\<lambda>_.
                 nic_refuse argv0)))
               else nic_parse K argv0 opts (arg, r_ret ifindex)))
      else nic_refuse argv0)"

definition nic_main :: "'k kernel \<Rightarrow> string \<Rightarrow> optres list \<Rightarrow> ('k, 'm, int) cprog" where
  "nic_main K argv0 opts =
     bnd (nic_parse K argv0 opts ([], - 1)) (\<lambda>x.
     case x of Inl c \<Rightarrow> ret c
     | Inr (ifname, ifindex) \<Rightarrow>
         if ifindex = - 1 then
           bnd (eprintf ''ERR: required option --dev missing'' []) (\<lambda>_.
           bnd (nic_usage argv0) (\<lambda>_.
           ret EXIT_FAIL_OPTION))
         else
           bnd (get_driver_info K ifname []) (\<lambda>(_, driver).
           bnd (printf ''net_device: %s (ifindex: %d) use driver: %s'' [PS ifname, PI ifindex, PS driver]) (\<lambda>_.
           ret EXIT_OK)))"

section \<open>The property\<close>

lemma nic_parse_short:
  fixes w :: "('k, 'm) world_scheme"
  assumes "nic_parse K argv0 opts x w = (Done (Inr (name, i)), w1)" "length (fst x) < IFNAMSIZ"
  shows "length name < IFNAMSIZ"
  using assms
proof (induction K argv0 opts x arbitrary: w rule: nic_parse.induct)
  case (2 K argv0 opt opts x)
  have no: "\<not> nic_refuse argv0 v = (Done (Inr (name, i)), u)" for v u :: "('k, 'm) world_scheme"
    by (auto simp: nic_refuse_def bnd_Done)
  show ?case
    using "2.prems" "2.IH" no
    by (auto simp: bnd_Done split: if_splits option.splits)
qed simp

definition control_socket :: sysreq where
  "control_socket = Rq_socket AF_INET SOCK_DGRAM 0"

text \<open>
  C32.  What \<open>get_nic_driver\<close> reports.  Once a device was named and the kernel knew it, the program always
  returns \<open>EXIT_OK\<close> with a line of the device's name, its index and a driver.  The name is short enough
  for the request, so it is asked for as it was given.  The driver is what the kernel answered where it
  had a socket and an answer, and the socket is then closed; where either is missing the driver is the
  empty string, the status is \<open>EXIT_OK\<close> all the same, and a socket stays open.
\<close>

theorem nic_reports:
  fixes w w1 w' :: "('k, 'm) world_scheme"
  assumes parse: "nic_parse K argv0 opts ([], - 1) w = (Done (Inr (name, i)), w1)" and i: "i \<noteq> - 1"
    and run: "nic_main K argv0 opts w = (x, w')"
  shows "x = Done EXIT_OK \<and> length name < IFNAMSIZ \<and> (\<exists>driver s r c.
    last (out w') = Stdout ''net_device: %s (ifindex: %d) use driver: %s'' [PS name, PI i, PS driver]
    \<and> (trace w' = trace w1 @ [(control_socket, s), (Rq_ioctl (r_ret s) SIOCETHTOOL name, r), (Rq_close (r_ret s), c)]
         \<and> 0 \<le> r_ret s \<and> 0 \<le> r_ret r \<and> driver = (case r_text r of None \<Rightarrow> [] | Some d \<Rightarrow> d)
       \<or> trace w' = trace w1 @ [(control_socket, s), (Rq_ioctl (r_ret s) SIOCETHTOOL name, r)]
         \<and> 0 \<le> r_ret s \<and> r_ret r < 0 \<and> driver = []
       \<or> trace w' = trace w1 @ [(control_socket, s)] \<and> r_ret s < 0 \<and> driver = []))"
proof -
  have short: "length name < IFNAMSIZ"
    by (rule nic_parse_short [OF parse]) (simp add: IFNAMSIZ_def)
  let ?report = "bnd (get_driver_info K name []) (\<lambda>(_, driver).
    bnd (printf ''net_device: %s (ifindex: %d) use driver: %s'' [PS name, PI i, PS driver]) (\<lambda>_. ret EXIT_OK))"
  have run': "?report w1 = (x, w')"
    using run parse i by (simp add: nic_main_def bnd_def del: nic_parse.simps)
  let ?P = "\<lambda>y v. y = EXIT_OK \<and> (\<exists>driver s r c.
    last (out v) = Stdout ''net_device: %s (ifindex: %d) use driver: %s'' [PS name, PI i, PS driver]
    \<and> (trace v = trace w1 @ [(control_socket, s), (Rq_ioctl (r_ret s) SIOCETHTOOL name, r), (Rq_close (r_ret s), c)]
         \<and> 0 \<le> r_ret s \<and> 0 \<le> r_ret r \<and> driver = (case r_text r of None \<Rightarrow> [] | Some d \<Rightarrow> d)
       \<or> trace v = trace w1 @ [(control_socket, s), (Rq_ioctl (r_ret s) SIOCETHTOOL name, r)]
         \<and> 0 \<le> r_ret s \<and> r_ret r < 0 \<and> driver = []
       \<or> trace v = trace w1 @ [(control_socket, s)] \<and> r_ret s < 0 \<and> driver = []))"
  have "wp ?report ?P (\<lambda>_ _. False) w1"
  proof (cases "r_ret (reply K control_socket w1) < 0")
    case True
    with short show ?thesis
      by (simp add: get_driver_info_def ioctl_init_def wp_simps say_def control_socket_def del: ret_run bnd_gets)
  next
    case False
    let ?w = "after_call K control_socket w1" and ?s = "reply K control_socket w1"
    let ?rq = "Rq_ioctl (r_ret ?s) SIOCETHTOOL name"
    show ?thesis
    proof (cases "r_ret (reply K ?rq ?w) < 0")
      case True
      with short \<open>\<not> r_ret ?s < 0\<close> show ?thesis
        by (simp add: get_driver_info_def ioctl_init_def ioctl_send_def wp_simps say_def control_socket_def
            del: ret_run bnd_gets)
    next
      case False
      with short \<open>\<not> r_ret ?s < 0\<close> show ?thesis
        by (simp add: get_driver_info_def ioctl_init_def ioctl_send_def wp_simps say_def control_socket_def
            del: ret_run bnd_gets)
    qed
  qed
  from wp_result [OF this run'] short show ?thesis by blast
qed

definition ask_eth0 :: "sysres list" where
  "ask_eth0 = [sysres_of 2 0, sysres_of 3 0, (sysres_of 0 0)\<lparr>r_text := Some ''ixgbe''\<rparr>, sysres_of 0 0]"

theorem nic_reports_witness:
  "\<exists>w'. nic_main scripted ''get_nic_driver'' [\<lparr>o_c = of_char (CHR ''d''), o_arg = Some ''eth0'', o_longindex = 0\<rparr>] (boot ask_eth0)
      = (Done EXIT_OK, w')
    \<and> last (out w') = Stdout ''net_device: %s (ifindex: %d) use driver: %s'' [PS ''eth0'', PI 2, PS ''ixgbe'']
    \<and> length ''eth0'' < IFNAMSIZ"
proof -
  let ?opts = "[\<lparr>o_c = of_char (CHR ''d''), o_arg = Some ''eth0'', o_longindex = 0\<rparr>]"
  obtain x w' where run: "nic_main scripted ''get_nic_driver'' ?opts (boot ask_eth0) = (x, w')" by fastforce
  have "nic_parse scripted ''get_nic_driver'' ?opts ([], - 1) (boot ask_eth0)
      = (Done (Inr (''eth0'', 2)), after_call scripted (Rq_if_nametoindex ''eth0'') (boot ask_eth0))"
    by (simp add: bnd_def syscall_def reply_def ask_eth0_def IFNAMSIZ_def sysres_of_def)
  from nic_reports [OF this _ run] have "x = Done EXIT_OK" "length ''eth0'' < IFNAMSIZ" by simp_all
  moreover have "last (out (snd (nic_main scripted ''get_nic_driver'' ?opts (boot ask_eth0))))
      = Stdout ''net_device: %s (ifindex: %d) use driver: %s'' [PS ''eth0'', PI 2, PS ''ixgbe'']"
    by code_simp
  ultimately show ?thesis using run by simp
qed

end
