(* ===== verification/UdpSnd.thy ===== *)
theory UdpSnd
  imports Common Traffic
begin

text \<open>
  \<open>src/src/udp_snd.c\<close>: sends numbered datagrams of random length.  The state is the process with the
  global buffer.  \<open>rand\<close> is a request, so that its values are the environment's.  The property: the
  datagrams are exactly the numbered ones, no two of them alike.
\<close>

section \<open>Definitions\<close>

definition sizeof_buffer :: nat where [c_consts]: "sizeof_buffer = 1400"

definition SND_PACKETS :: int where [c_consts]: "SND_PACKETS = 655360000"

record 'k snd_world = "'k world" +
  snd_buffer :: bytes

type_synonym ('k, 'm, 'a) sndprog = "(('k, 'm) snd_world_scheme, 'a) prog"

record snd_cfg =
  host :: "string option"
  sn_family :: int
  discover :: int

definition snd_cfg0 :: snd_cfg where
  "snd_cfg0 = \<lparr>host = None, sn_family = AF_INET6, discover = - 1\<rparr>"

definition snd_option :: "optres \<Rightarrow> snd_cfg \<Rightarrow> ('s, snd_cfg) prog" where
  "snd_option x g =
     (if opt_is x (CHR ''H'') then ret (g\<lparr>host := o_arg x\<rparr>)
      else if opt_is x (CHR ''4'') then ret (g\<lparr>sn_family := AF_INET\<rparr>)
      else if opt_is x (CHR ''d'') then bnd (atoi_arg (o_arg x)) (\<lambda>n. ret (g\<lparr>discover := n\<rparr>))
      else ret g)"

fun snd_parse :: "optres list \<Rightarrow> snd_cfg \<Rightarrow> ('s, snd_cfg) prog" where
  "snd_parse [] g = ret g"
| "snd_parse (x # xs) g = bnd (snd_option x g) (snd_parse xs)"

text \<open>The address; where the text is no address its bytes stay zero, which is not looked at.\<close>

definition snd_addr :: "'k kernel \<Rightarrow> int \<Rightarrow> string \<Rightarrow> ('k, 'm, sockaddr_storage) cprog" where
  "snd_addr K family h =
     bnd (syscall K (Rq_inet_pton family h)) (\<lambda>r.
     let addr = sockaddr_zero\<lparr>ss_family := family, sin_port := htons 9\<rparr> in
     ret (if r_ret r \<noteq> 1 then addr
          else if family = AF_INET6 then addr\<lparr>sin6_addr := r_data r\<rparr>
          else addr\<lparr>sin_addr := r_data r\<rparr>))"

definition snd_round :: "'k kernel \<Rightarrow> int \<Rightarrow> int \<Rightarrow> ('k, 'm, unit) sndprog" where
  "snd_round K fd i =
     bnd (modify (\<lambda>w. w\<lparr>snd_buffer := overwrite (snd_buffer w) 0 (le32 (word_of_int i))\<rparr>)) (\<lambda>_.
     bnd (syscall K Rq_rand) (\<lambda>r.
     bnd (gets snd_buffer) (\<lambda>buf.
     let n = 100 + cmod (r_ret r) 200 in
     if 0 \<le> n \<and> n \<le> int (length buf) then
       bnd (syscall K (Rq_send fd (take (nat n) buf) 0)) (\<lambda>_. ret ())
     else ub Out_of_bounds)))"

definition snd_run :: "'k kernel \<Rightarrow> snd_cfg \<Rightarrow> string \<Rightarrow> ('k, 'm, int) sndprog" where
  "snd_run K g h =
     bnd (syscall K (Rq_socket (sn_family g) SOCK_DGRAM 0)) (\<lambda>fd.
     if r_ret fd < 0 then
       bnd (perror ''failed to create socket'') (\<lambda>_. exit_with 1)
     else
     bnd (when_do (discover g \<noteq> - 1)
            (bnd (syscall K (Rq_setsockopt (r_ret fd) SOL_IP IP_MTU_DISCOVER (OptInt (discover g)))) (\<lambda>_. ret ()))) (\<lambda>_.
     bnd (snd_addr K (sn_family g) h) (\<lambda>addr.
     bnd (syscall K (Rq_connect (r_ret fd) addr
            (if sn_family g = AF_INET6 then sizeof_sockaddr_in6 else sizeof_sockaddr_in))) (\<lambda>_.
     bnd (modify (\<lambda>w. w\<lparr>snd_buffer := replicate sizeof_buffer 1\<rparr>)) (\<lambda>_.
     bnd (for_loop 0 SND_PACKETS (\<lambda>i _. snd_round K (r_ret fd) i) ()) (\<lambda>_.
     ret 0))))))"

definition snd_main :: "'k kernel \<Rightarrow> string \<Rightarrow> optres list \<Rightarrow> ('k, 'm, int) sndprog" where
  "snd_main K argv0 opts =
     bnd (snd_parse opts snd_cfg0) (\<lambda>g.
     case host g of
       None \<Rightarrow>
         bnd (eprintf ''Please specify destination host'' []) (\<lambda>_.
         bnd (eprintf ''(Notice default uses IPv6)'' []) (\<lambda>_.
         bnd (eprintf '' Usage: %s -H host <-d pmtu> <-4>'' [PS argv0]) (\<lambda>_.
         ret 2)))
     | Some h \<Rightarrow> snd_run K g h)"

section \<open>The datagrams\<close>

text \<open>What the manual of \<open>rand\<close> promises.\<close>

definition rand_nonneg :: "'k kernel \<Rightarrow> bool" where
  "rand_nonneg K \<longleftrightarrow> (\<forall>k. 0 \<le> r_ret (fst (K Rq_rand k)))"

definition datagram :: "nat \<Rightarrow> nat \<Rightarrow> bytes" where
  "datagram i n = le32 (of_nat i) @ replicate (n - 4) 1"

definition numbered :: "int \<Rightarrow> nat \<Rightarrow> sysreq \<Rightarrow> bool" where
  "numbered fd i rq \<longleftrightarrow> (\<exists>n. 100 \<le> n \<and> n < 300 \<and> rq = Rq_send fd (datagram i n) 0)"

lemma numbered_inject:
  assumes "numbered fd i rq" "numbered fd j rq" "i < 2 ^ 32" "j < 2 ^ 32"
  shows "i = j"
proof -
  from assms(1,2) have "le32 (of_nat i) = le32 (of_nat j)"
    by (auto simp: numbered_def datagram_def)
  then have "unat (of_nat i :: u32) = unat (of_nat j :: u32)" by simp
  moreover have "unat (of_nat k :: u32) = k" if "k < 2 ^ 32" for k using that by (simp add: unat_of_nat)
  ultimately show ?thesis using assms(3,4) by simp
qed

definition sent_numbered :: "int \<Rightarrow> nat \<Rightarrow> (sysreq \<times> int) list \<Rightarrow> bool" where
  "sent_numbered fd n tx \<longleftrightarrow> length tx = n \<and> (\<forall>i < n. numbered fd i (fst (tx ! i)))"

lemma sent_numbered_snoc:
  "sent_numbered fd n tx \<Longrightarrow> numbered fd n rq \<Longrightarrow> sent_numbered fd (Suc n) (tx @ [(rq, r)])"
  by (auto simp: sent_numbered_def nth_append less_Suc_eq)

lemma sent_numbered_distinct:
  assumes "sent_numbered fd n tx" "n \<le> 2 ^ 32"
  shows "distinct (map fst tx)"
  unfolding distinct_conv_nth
proof (intro allI impI)
  fix i j assume "i < length (map fst tx)" "j < length (map fst tx)" "i \<noteq> j"
  with assms numbered_inject [of fd i "fst (tx ! i)" j] show "map fst tx ! i \<noteq> map fst tx ! j"
    by (auto simp: sent_numbered_def)
qed

definition snd_ready :: "('k, 'm) snd_world_scheme \<Rightarrow> bool" where
  "snd_ready w \<longleftrightarrow> (\<exists>h. length h = 4 \<and> snd_buffer w = h @ replicate (sizeof_buffer - 4) 1)"

lemma snd_fields [simp]:
  "snd_buffer (after_call K rq w) = snd_buffer w" "snd_buffer (say m w) = snd_buffer w"
  by (simp_all add: after_call_def say_def)

definition snd_inv :: "int \<Rightarrow> ('k, 'm) snd_world_scheme \<Rightarrow> int \<Rightarrow> ('k, 'm) snd_world_scheme \<Rightarrow> bool" where
  "snd_inv fd u i w \<longleftrightarrow> snd_ready w \<and> (\<exists>es. trace w = trace u @ es \<and> sent_numbered fd (nat i) (txs es))"

lemma wp_snd_round:
  fixes w :: "('k, 'm) snd_world_scheme"
  assumes K: "rand_nonneg K" and w: "snd_inv fd u i w" and i: "0 \<le> i"
  shows "wp (snd_round K fd i) (\<lambda>_. snd_inv fd u (i + 1)) E w"
proof -
  obtain h es where h: "length h = 4" "snd_buffer w = h @ replicate (sizeof_buffer - 4) 1"
    and es: "trace w = trace u @ es" "sent_numbered fd (nat i) (txs es)"
    using w(1) by (auto simp: snd_inv_def snd_ready_def)
  have buf: "overwrite (snd_buffer w) 0 (le32 (word_of_int i)) = le32 (word_of_int i) @ replicate (sizeof_buffer - 4) 1"
    using h by (simp add: overwrite_def)
  let ?w = "w\<lparr>snd_buffer := overwrite (snd_buffer w) 0 (le32 (word_of_int i))\<rparr>"
  let ?r = "reply K Rq_rand ?w" and ?v = "after_call K Rq_rand ?w"
  have "0 \<le> r_ret ?r" using K by (simp add: rand_nonneg_def reply_def)
  then obtain n where n: "100 + cmod (r_ret ?r) 200 = int n" "100 \<le> n" "n < 300"
    by (intro that [of "nat (100 + cmod (r_ret ?r) 200)"]) (simp_all add: cmod_nonneg nat_le_iff)
  have dg: "take n (snd_buffer ?v) = datagram (nat i) n"
    using n i by (simp add: buf datagram_def sizeof_buffer_def min_def)
  let ?rq = "Rq_send fd (datagram (nat i) n) 0"
  have "numbered fd (nat i) ?rq"
    unfolding numbered_def using n by (intro exI [of _ n]) simp
  from sent_numbered_snoc [OF es(2) this, of "r_ret (reply K ?rq ?v)"]
  have "snd_inv fd u (i + 1) (after_call K ?rq ?v)"
    unfolding snd_inv_def snd_ready_def using i
    by (intro conjI exI [of _ "le32 (word_of_int i)"] exI [of _ "es @ [(Rq_rand, ?r), (?rq, reply K ?rq ?v)]"])
       (simp_all add: buf es(1) nat_add_distrib)
  moreover have "int n \<le> int (length (snd_buffer ?v))" using n by (simp add: buf sizeof_buffer_def)
  ultimately show ?thesis
    unfolding snd_round_def wp_bnd wp_modify wp_syscall wp_gets Let_def n(1) wp_if wp_ret
    by (simp only: dg nat_int) simp
qed

lemma wp_snd_run:
  fixes w :: "('k, 'm) snd_world_scheme"
  assumes K: "rand_nonneg K"
  shows "wp (snd_run K g h)
    (\<lambda>r v. r = 0 \<and> (\<exists>fd es. 0 \<le> fd \<and> trace v = trace w @ es \<and> sent_numbered fd (nat SND_PACKETS) (txs es)))
    (\<lambda>c v. c = 1 \<and> (\<exists>s. s = reply K (Rq_socket (sn_family g) SOCK_DGRAM 0) w \<and> r_ret s < 0
       \<and> trace v = trace w @ [(Rq_socket (sn_family g) SOCK_DGRAM 0, s)])) w"
proof -
  let ?rq = "Rq_socket (sn_family g) SOCK_DGRAM 0"
  have loop: "wp (for_loop 0 SND_PACKETS (\<lambda>i _. snd_round K fd i) ())
      (\<lambda>_ v. \<exists>es. trace v = trace w @ es \<and> sent_numbered fd (nat SND_PACKETS) (txs es)) E v"
    if "trace v = trace w @ es0" "txs es0 = []" "snd_ready v" for fd es0 E and v :: "('k, 'm) snd_world_scheme"
  proof (rule wp_for_loop [where I = "\<lambda>i _. snd_inv fd w i"])
    show "snd_inv fd w 0 v" using that by (auto simp: snd_inv_def sent_numbered_def)
  qed (auto intro: wp_snd_round K simp: snd_inv_def SND_PACKETS_def)
  let ?dg = "\<lambda>fd. when_do (discover g \<noteq> - 1)
      (bnd (syscall K (Rq_setsockopt fd SOL_IP IP_MTU_DISCOVER (OptInt (discover g)))) (\<lambda>_. ret ()))"
  let ?quiet = "\<lambda>v. \<exists>es. trace v = trace w @ es \<and> txs es = []"
  have quiet: "?quiet (after_call K rq v)" if "?quiet v" "\<not> is_tx rq" for rq and v :: "('k, 'm) snd_world_scheme"
    using that by (elim exE conjE, rule_tac x = "es @ [(rq, reply K rq v)]" in exI) simp
  have addr: "wp (snd_addr K fam h) (\<lambda>_. ?quiet) E v" if "?quiet v" for fam E and v :: "('k, 'm) snd_world_scheme"
    unfolding snd_addr_def wp_bnd wp_syscall Let_def wp_ret using that by (rule quiet) simp
  have discover: "wp (?dg fd) (\<lambda>_. ?quiet) E v" if "?quiet v" for fd E and v :: "('k, 'm) snd_world_scheme"
    unfolding wp_when wp_bnd wp_syscall wp_ret using that by (auto intro: quiet)
  have ready: "snd_ready (v\<lparr>snd_buffer := replicate sizeof_buffer 1\<rparr>)" for v :: "('k, 'm) snd_world_scheme"
    unfolding snd_ready_def
    by (rule exI [of _ "replicate 4 1"]) (simp add: replicate_add [symmetric] sizeof_buffer_def)
  have rest: "wp (bnd (?dg fd) (\<lambda>_. bnd (snd_addr K fam h) (\<lambda>addr. bnd (syscall K (Rq_connect fd addr len)) (\<lambda>_.
      bnd (modify (\<lambda>w. w\<lparr>snd_buffer := replicate sizeof_buffer 1\<rparr>)) (\<lambda>_.
      bnd (for_loop 0 SND_PACKETS (\<lambda>i _. snd_round K fd i) ()) (\<lambda>_. ret (0 :: int)))))))
      (\<lambda>r v. r = 0 \<and> (\<exists>es. trace v = trace w @ es \<and> sent_numbered fd (nat SND_PACKETS) (txs es))) E v"
    if "?quiet v" for fd fam len E and v :: "('k, 'm) snd_world_scheme"
    unfolding wp_bnd wp_modify wp_syscall wp_ret
  proof (rule wp_conseq [OF discover [OF that]], rule wp_conseq [OF addr])
    fix a and u :: "('k, 'm) snd_world_scheme" assume "?quiet u"
    then have "?quiet (after_call K (Rq_connect fd a len) u)" by (rule quiet) simp
    then show "wp (for_loop 0 SND_PACKETS (\<lambda>i _. snd_round K fd i) ())
       (\<lambda>x s. (0 :: int) = 0 \<and> (\<exists>es. trace s = trace w @ es \<and> sent_numbered fd (nat SND_PACKETS) (txs es))) E
       ((after_call K (Rq_connect fd a len) u)\<lparr>snd_buffer := replicate sizeof_buffer 1\<rparr>)"
      by (elim exE conjE, intro wp_conseq [OF loop] ready) auto
  qed auto
  show ?thesis
  proof (cases "r_ret (reply K ?rq w) < 0")
    case True
    then show ?thesis by (simp add: snd_run_def wp_simps)
  next
    case False
    have "?quiet (after_call K ?rq w)" by (rule quiet) auto
    note go = rest [OF this, of "r_ret (reply K ?rq w)"]
    show ?thesis
      unfolding snd_run_def wp_bnd [of "syscall K ?rq"] wp_syscall if_not_P [OF False]
      by (rule wp_conseq [OF go]) (use False in \<open>auto intro!: exI [of _ "r_ret (reply K ?rq w)"]\<close>)
  qed
qed

section \<open>The property\<close>

text \<open>
  C35.  \<open>udp_snd\<close> sends numbered datagrams, no two of them alike.  With a host given, and \<open>rand\<close> not
  negative, the program has no undefined behaviour.  It exits with 1 where there is no socket, having
  sent nothing; otherwise, whatever the kernel answers to the rest, it returns 0 after exactly 655360000
  calls of \<open>send\<close>, of which the \<open>i\<close>-th carries \<open>i\<close> in its first four bytes and ones after them, with a
  length from 100 to 299; so no two of these calls are the same.
\<close>

theorem snd_sends_numbered:
  fixes w w1 w' :: "('k, 'm) snd_world_scheme"
  assumes K: "rand_nonneg K" and parse: "snd_parse opts snd_cfg0 w = (Done g, w1)" and h: "host g = Some h"
    and run: "snd_main K argv0 opts w = (x, w')"
  shows "\<exists>es. trace w' = trace w1 @ es \<and>
    ((\<exists>fd. x = Done 0 \<and> sent_numbered fd (nat SND_PACKETS) (txs es) \<and> distinct (map fst (txs es)))
     \<or> x = Exit 1 \<and> (\<exists>s. s = reply K (Rq_socket (sn_family g) SOCK_DGRAM 0) w1 \<and> r_ret s < 0 \<and> es = [(Rq_socket (sn_family g) SOCK_DGRAM 0, s)]))"
proof -
  have run': "snd_run K g h w1 = (x, w')" using run parse h by (simp add: snd_main_def bnd_def)
  have "nat SND_PACKETS \<le> 2 ^ 32" by (simp add: SND_PACKETS_def)
  with wp_result [OF wp_snd_run [OF K] run'] sent_numbered_distinct show ?thesis by fastforce
qed

definition agreeable :: "unit kernel" where
  "agreeable rq k = (sysres_of 3 0, k)"

definition snd_boot :: "'k \<Rightarrow> 'k snd_world" where
  "snd_boot k = \<lparr>kern = k, errno = 0, verbose = 0, heap = Map.empty, next_blk = 0, trace = [], out = [],
     snd_buffer = replicate sizeof_buffer 0\<rparr>"

theorem snd_sends_numbered_witness:
  "\<exists>w' fd. snd_main agreeable ''udp_snd'' [\<lparr>o_c = of_char (CHR ''H''), o_arg = Some ''::1'', o_longindex = 0\<rparr>] (snd_boot ())
      = (Done 0, w') \<and> sent_numbered fd (nat SND_PACKETS) (txs (trace w')) \<and> distinct (map fst (txs (trace w')))"
proof -
  let ?opts = "[\<lparr>o_c = of_char (CHR ''H''), o_arg = Some ''::1'', o_longindex = 0\<rparr>]"
  obtain x w' where run: "snd_main agreeable ''udp_snd'' ?opts (snd_boot ()) = (x, w')" by fastforce
  have parse: "snd_parse ?opts snd_cfg0 (snd_boot ()) = (Done (snd_cfg0\<lparr>host := Some ''::1''\<rparr>), snd_boot ())"
    by (simp add: snd_option_def)
  have K: "rand_nonneg agreeable" by (simp add: rand_nonneg_def agreeable_def sysres_of_def)
  show ?thesis
    using snd_sends_numbered [OF K parse _ run] run
    by (auto simp: snd_boot_def reply_def agreeable_def sysres_of_def)
qed

end
