(* ===== verification/Ipv6Example.thy ===== *)
theory Ipv6Example
  imports CommonSocket Decimal
begin

text \<open>
  \<open>src/src/ipv6_example01.c\<close>: prints every datagram that arrives and acknowledges it.  The loop has no
  end; it is followed for a number of rounds.  The property: each datagram is printed as it came and
  acknowledged to its sender before the next is awaited.
\<close>

section \<open>Definitions\<close>

definition sizeof_recv_buf :: nat where [c_consts]: "sizeof_recv_buf = 1024"



definition received_text :: bytes where
  "received_text = text_bytes ''- Received a datagram: ''"

definition got_text :: bytes where
  "got_text = text_bytes (''Got your message'' @ [char_of (10 :: nat)])"




section \<open>What is answered\<close>



text \<open>The calls of one round.\<close>

definition acknowledged :: "int \<Rightarrow> (sysreq \<times> sysres) list \<Rightarrow> bool" where
  "acknowledged sock es \<longleftrightarrow> (\<exists>len n t a b s.
     es = [(Rq_recvfrom_name sock (int sizeof_recv_buf) 0 len, n),
           (Rq_inet_ntop AF_INET6 (sin6_addr (rx_name (first_msg n))), t),
           (Rq_write 1 received_text, a), (Rq_write 1 (r_data n), b),
           (Rq_sendto sock got_text 0 (rx_name (first_msg n)) (rx_namelen (first_msg n)), s)]
     \<and> 0 \<le> r_ret n \<and> 0 \<le> r_ret s)"





definition ex6_log :: "int \<Rightarrow> nat \<Rightarrow> (sysreq \<times> sysres) list \<Rightarrow> bool" where
  "ex6_log sock n es \<longleftrightarrow> (\<exists>gs. length gs = n \<and> list_all (acknowledged sock) gs \<and> es = concat gs)"

lemma ex6_log_0 [simp]: "ex6_log sock 0 es \<longleftrightarrow> es = []"
  by (auto simp: ex6_log_def)




section \<open>The property\<close>





end
