(* ===== verification/SmallTools.thy ===== *)
theory SmallTools
  imports CommonSocket
begin

text \<open>
  The small programs: \<open>src/src/cpu_dma_latency.c\<close> holds a latency request open, \<open>src/src/qdisc_bypass_test.c\<close>
  sets a socket option, \<open>src/src/burn_cpu.c\<close> loops for ever, and \<open>src/src/compiler_test01.c\<close> has loops that
  do nothing.  Loops without an end are followed for a number of rounds, after which the result is
  \<open>None\<close>.
\<close>

section \<open>cpu_dma_latency.c\<close>

definition dma_usage :: "string \<Rightarrow> ('k, 'm, unit) cprog" where
  "dma_usage argv0 =
     bnd (eprintf ''Usage: %s <latency [us]>'' [PS argv0]) (\<lambda>_.
     bnd (eprintf '''' []) (\<lambda>_.
     bnd (eprintf ''latency: the maximum tolerable CPU DMA you'' []) (\<lambda>_.
     bnd (eprintf ''         are willing to put up with [in microseconds]'' []) (\<lambda>_.
     bnd (eprintf '''' []) (\<lambda>_.
     bnd (eprintf ''This program will block until you hit Ctrl-C, at which point'' []) (\<lambda>_.
     bnd (eprintf ''the file descriptor is closed and the latency requirement is'' []) (\<lambda>_.
     bnd (eprintf ''unregistered again.'' []) (\<lambda>_.
     bnd (eprintf ''Hint: if you have an platform with a buggy BIOS that has'' []) (\<lambda>_.
     eprintf ''issues with excessive C-state transition latencies try value 55'' [])))))))))"

definition dma_device :: string where "dma_device = ''/dev/cpu_dma_latency''"

definition dma_main :: "'k kernel \<Rightarrow> string \<Rightarrow> string list \<Rightarrow> nat \<Rightarrow> ('k, 'm, int option) cprog" where
  "dma_main K argv0 args rounds =
     (case args of
        [arg] \<Rightarrow>
          let v = atoi arg in
          bnd (printf ''setting latency to %d.%.6d seconds'' [PI (cdiv v 1000000), PI (cmod v 1000000)]) (\<lambda>_.
          bnd (syscall K (Rq_open dma_device O_WRONLY)) (\<lambda>fd.
          if r_ret fd < 0 then
            bnd (perror ''open /dev/cpu_dma_latency'') (\<lambda>_. ret (Some 1))
          else
          bnd (syscall K (Rq_write (r_ret fd) (le32 (word_of_int v)))) (\<lambda>n.
          if r_ret n \<noteq> 4 then
            bnd (perror ''write to /dev/cpu_dma_latency'') (\<lambda>_. ret (Some 1))
          else
          bnd (for_loop 0 (int rounds) (\<lambda>_ _. bnd (syscall K (Rq_sleep 10)) (\<lambda>_. ret ())) ()) (\<lambda>_.
          ret None))))
      | _ \<Rightarrow> bnd (dma_usage argv0) (\<lambda>_. ret (Some 2)))"

section \<open>qdisc_bypass_test.c\<close>

definition PACKET_QDISC_BYPASS :: int where [c_consts]: "PACKET_QDISC_BYPASS = 20"

definition set_sock_qdisc_bypass :: "'k kernel \<Rightarrow> int \<Rightarrow> int \<Rightarrow> ('k, 'm, unit) cprog" where
  "set_sock_qdisc_bypass K fd verb =
     bnd (syscall K (Rq_setsockopt fd SOL_PACKET PACKET_QDISC_BYPASS (OptInt 1))) (\<lambda>r.
     if r_ret r < 0 then
       bnd (gets errno) (\<lambda>e.
       bnd (printf ''[DEBUG] %s(): err:%d errno:%d'' [PS ''set_sock_qdisc_bypass'', PI (r_ret r), PI e]) (\<lambda>_.
       if e = ENOPROTOOPT then
         when_do (verb \<noteq> 0) (printf ''No kernel support for PACKET_QDISC_BYPASS (kernel < 3.14?)'' [])
       else perror ''Cannot set PACKET_QDISC_BYPASS''))
     else when_do (verb \<noteq> 0) (printf ''Enabled kernel qdisc bypass'' []))"

definition pf_tx_socket :: "'k kernel \<Rightarrow> int \<Rightarrow> ('k, 'm, int) cprog" where
  "pf_tx_socket K ver =
     bnd (syscall K (Rq_socket PF_PACKET SOCK_RAW 0)) (\<lambda>sock.
     if r_ret sock = - 1 then
       bnd (perror ''Creation of RAW PF_SOCKET failed!'') (\<lambda>_. exit_with 1)
     else
     bnd (Setsockopt K (r_ret sock) SOL_PACKET PACKET_VERSION (OptInt ver)) (\<lambda>_.
     ret (r_ret sock)))"

definition qdisc_main :: "'k kernel \<Rightarrow> ('k, 'm, int) cprog" where
  "qdisc_main K =
     bnd (printf ''Lame test program for setting QDISC_BYPASS on RAW socket'' []) (\<lambda>_.
     bnd (pf_tx_socket K 0) (\<lambda>sock.
     bnd (set_sock_qdisc_bypass K sock 1) (\<lambda>_.
     ret 0)))"

section \<open>burn_cpu.c\<close>

definition burn_long_options :: "long_opt list" where
  "burn_long_options =
     [\<lparr>opt_name = ''help'', opt_has_arg = no_argument, opt_flag = None, opt_val = of_char (CHR ''h'')\<rparr>]"

definition burn_usage :: "string \<Rightarrow> ('k, 'm, int) cprog" where
  "burn_usage argv0 =
     bnd (printf ''-= ERROR: Parameter problems =-'' []) (\<lambda>_.
     bnd (printf '' Usage: %s (options-see-below)'' [PS argv0]) (\<lambda>_.
     bnd (printf '' Listing options:'' []) (\<lambda>_.
     bnd (list_options '' --%s'' burn_long_options) (\<lambda>_.
     bnd (printf '''' []) (\<lambda>_.
     ret EXIT_FAIL_OPTION)))))"

fun burn_cpu :: "nat \<Rightarrow> ('k, 'm, int option) cprog" where
  "burn_cpu 0 = ret None"
| "burn_cpu (Suc rounds) = burn_cpu rounds"

fun burn_main :: "string \<Rightarrow> nat \<Rightarrow> optres list \<Rightarrow> ('k, 'm, int option) cprog" where
  "burn_main argv0 rounds [] = burn_cpu rounds"
| "burn_main argv0 rounds (x # xs) =
     (if opt_is x (CHR ''h'') \<or> opt_is x (CHR ''?'') then
        bnd (burn_usage argv0) (\<lambda>c. ret (Some c))
      else burn_main argv0 rounds xs)"

section \<open>compiler_test01.c\<close>

text \<open>An access to an element of an array of \<open>m\<close> pointers, whose value is not used.\<close>

definition empty_func :: "('s, unit) prog" where
  "empty_func = ret ()"

definition object_at :: "int \<Rightarrow> int \<Rightarrow> ('s, unit) prog" where
  "object_at m i = (if 0 \<le> i \<and> i < m then empty_func else ub Out_of_bounds)"

definition empty_for_loop01 :: "int \<Rightarrow> int \<Rightarrow> ('s, unit) prog" where
  "empty_for_loop01 n m = ret ()"

definition empty_for_loop02 :: "int \<Rightarrow> int \<Rightarrow> ('s, unit) prog" where
  "empty_for_loop02 n m = for_loop 0 n (\<lambda>i _. object_at m i) ()"

text \<open>Here the counter is an \<open>int\<close> and the bound 64 bits wide, so the counter may overflow.\<close>

definition empty_for_loop03 :: "u64 \<Rightarrow> int \<Rightarrow> ('s, unit) prog" where
  "empty_for_loop03 n m =
     for_loop 0 (uint n) (\<lambda>i _. bnd (object_at m i) (\<lambda>_. bnd (chk_i32 (i + 1)) (\<lambda>_. ret ()))) ()"

definition empty_for_loop04 :: "u64 \<Rightarrow> int \<Rightarrow> ('s, unit) prog" where
  "empty_for_loop04 n m =
     for_loop 0 (uint n) (\<lambda>i _. bnd (object_at m i) (\<lambda>_. bnd (chk_i32 (i + 1)) (\<lambda>_. ret ()))) ()"

definition empty_for_loop05 :: "u64 \<Rightarrow> int \<Rightarrow> ('s, unit) prog" where
  "empty_for_loop05 n m = for_loop 0 (uint n) (\<lambda>i _. object_at m i) ()"

definition my_func :: "int \<Rightarrow> ('k, 'm, unit) cprog" where
  "my_func n =
     (let array = 42 in
      bnd (printf ''Run: %s'' [PS ''my_func'']) (\<lambda>_.
      bnd (empty_for_loop02 n array) (\<lambda>_.
      bnd (empty_for_loop03 (to_u64 n) array) (\<lambda>_.
      empty_for_loop04 (to_u64 n) array))))"

text \<open>\<open>1<<31\<close> is the least \<open>int\<close> with the compilers the program tests.\<close>

definition compiler_main :: "('k, 'm, int) cprog" where
  "compiler_main =
     bnd (printf ''Compiler test01'' []) (\<lambda>_.
     bnd (my_func INT_MIN) (\<lambda>_.
     ret 0))"

section \<open>Properties\<close>

lemma loop_bounded:
  assumes body: "\<And>i. 0 \<le> i \<Longrightarrow> i < m \<Longrightarrow> body i () = ret ()" and out: "body m () = ub Out_of_bounds"
  shows "0 \<le> i \<Longrightarrow> i \<le> m \<Longrightarrow> for_loop i n body () = (if n \<le> m then ret () else ub Out_of_bounds)"
proof (induction "nat (m - i)" arbitrary: i)
  case 0
  then have "i = m" by simp
  with out show ?case by (subst for_loop.simps) simp
next
  case (Suc k)
  then have "for_loop (i + 1) n body () = (if n \<le> m then ret () else ub Out_of_bounds)" "i < m" by simp_all
  with Suc.prems body show ?case by (subst for_loop.simps) (simp del: ret_run ub_run)
qed

lemma loops_bounded:
  assumes "0 \<le> m" "m \<le> INT_MAX"
  shows "empty_for_loop02 n m = (if n \<le> m then ret () else ub Out_of_bounds)"
    "empty_for_loop03 u m = (if uint u \<le> m then ret () else ub Out_of_bounds)"
    "empty_for_loop04 u m = (if uint u \<le> m then ret () else ub Out_of_bounds)"
    "empty_for_loop05 u m = (if uint u \<le> m then ret () else ub Out_of_bounds)"
  unfolding empty_for_loop02_def empty_for_loop03_def empty_for_loop04_def empty_for_loop05_def
  by (rule loop_bounded;
      use assms in \<open>simp add: object_at_def empty_func_def chk_i32_def is_i32_def INT_MIN_def INT_MAX_def del: ret_run ub_run\<close>)+

text \<open>
  C39.  What the empty loops read.  On an array of \<open>m\<close> elements each of the four loops returns exactly when
  its bound, taken as the type it has in that loop, is at most \<open>m\<close>, and reads past the array otherwise.
  So \<open>my_func\<close> returns exactly for the bounds from 0 to 42: a bound that is negative is no iteration for
  the first loop and more than the array holds for the others.  The bound \<open>main\<close> calls it with is
  negative, and the program reads past its array unless the compiler removes the loops.
\<close>

theorem empty_loops_bounds:
  assumes "0 \<le> m" "m \<le> INT_MAX" "is_i32 n"
  shows "(empty_for_loop02 n m :: ('s, unit) prog) = (if n \<le> m then ret () else ub Out_of_bounds)
    \<and> (empty_for_loop03 u m :: ('s, unit) prog) = (if uint u \<le> m then ret () else ub Out_of_bounds)
    \<and> (empty_for_loop04 u m :: ('s, unit) prog) = (if uint u \<le> m then ret () else ub Out_of_bounds)
    \<and> (empty_for_loop05 u m :: ('s, unit) prog) = (if uint u \<le> m then ret () else ub Out_of_bounds)
    \<and> fst (my_func n (w :: ('k, 'm) world_scheme)) = (if 0 \<le> n \<and> n \<le> 42 then Done () else UB Out_of_bounds)
    \<and> fst (compiler_main w) = UB Out_of_bounds"
proof -
  have pos: "uint (to_u64 i) \<le> 42 \<longleftrightarrow> 0 \<le> i \<and> i \<le> 42" if "is_i32 i" for i
  proof (cases "0 \<le> i")
    case True
    with that have "uint (to_u64 i) = i" by (intro uint_to_u64) (simp_all add: is_i32_def INT_MAX_def)
    with True show ?thesis by simp
  next
    case False
    with that have "uint (to_u64 i) = i + 2 ^ 64" by (intro uint_to_u64_neg) (simp_all add: is_i32_def INT_MIN_def)
    with False that show ?thesis by (simp add: is_i32_def INT_MIN_def)
  qed
  have my: "fst (my_func i v) = (if 0 \<le> i \<and> i \<le> 42 then Done () else UB Out_of_bounds)" if "is_i32 i"
    for i and v :: "('k, 'm) world_scheme"
    by (simp add: my_func_def Let_def loops_bounded INT_MAX_def pos [OF that] printf_def)
  moreover have "fst (compiler_main w) = UB Out_of_bounds"
    using my [of INT_MIN "say (Stdout ''Compiler test01'' []) w"]
    by (cases "my_func INT_MIN (say (Stdout ''Compiler test01'' []) w)")
       (simp add: compiler_main_def printf_def bnd_run is_i32_def INT_MIN_def INT_MAX_def)
  ultimately show ?thesis by (simp add: loops_bounded [OF assms(1,2)] assms(3) del: ret_run ub_run)
qed

theorem empty_loops_bounds_witness:
  "fst (empty_for_loop03 50 42 (boot ())) = UB Out_of_bounds \<and> fst (my_func 7 (boot ())) = Done ()"
  using empty_loops_bounds [of 42 7 50 "boot ()", where 's = "unit world"] by (simp add: is_i32_def INT_MIN_def INT_MAX_def)

text \<open>
  C38.  \<open>cpu_dma_latency\<close> holds its request.  Given one argument, the program has no undefined behaviour and
  never exits on its own once the request is in: it returns 1 where the device cannot be opened or does
  not take the four bytes of the request, and otherwise, after any number of rounds of its loop, it is
  still there, and all it did since the request is sleep; so the descriptor was never closed, and the
  request is in force.
\<close>

theorem dma_holds_request:
  "wp (dma_main K argv0 [arg] rounds)
    (\<lambda>r v. \<exists>fd n rs.
       let opened = (Rq_open dma_device O_WRONLY, fd);
           asked = (Rq_write (r_ret fd) (le32 (word_of_int (atoi arg))), n)
       in r = Some 1 \<and> r_ret fd < 0 \<and> trace v = trace w @ [opened]
        \<or> r = Some 1 \<and> 0 \<le> r_ret fd \<and> r_ret n \<noteq> 4 \<and> trace v = trace w @ [opened, asked]
        \<or> r = None \<and> 0 \<le> r_ret fd \<and> r_ret n = 4 \<and> length rs = rounds
          \<and> trace v = trace w @ [opened, asked] @ map (Pair (Rq_sleep 10)) rs)
    (\<lambda>_ _. False) w"
proof -
  have loop: "wp (for_loop 0 (int rounds) (\<lambda>_ _. bnd (syscall K (Rq_sleep 10)) (\<lambda>_. ret ())) ())
      (\<lambda>_ v. \<exists>rs. length rs = rounds \<and> trace v = trace u @ map (Pair (Rq_sleep 10)) rs) (\<lambda>_ _. False) u"
    for u :: "('a, 'b) world_scheme"
  proof (rule wp_for_loop [where I = "\<lambda>i _ v. \<exists>rs. length rs = nat i \<and> trace v = trace u @ map (Pair (Rq_sleep 10)) rs"])
    fix i x and v :: "('a, 'b) world_scheme"
    assume "0 \<le> i" "\<exists>rs. length rs = nat i \<and> trace v = trace u @ map (Pair (Rq_sleep 10)) rs"
    then obtain rs where "0 \<le> i" "length rs = nat i" "trace v = trace u @ map (Pair (Rq_sleep 10)) rs" by blast
    then show "wp (bnd (syscall K (Rq_sleep 10)) (\<lambda>_. ret ()))
        (\<lambda>_ v. \<exists>rs. length rs = nat (i + 1) \<and> trace v = trace u @ map (Pair (Rq_sleep 10)) rs) (\<lambda>_ _. False) v"
      by (simp add: wp_simps) (rule exI [of _ "rs @ [reply K (Rq_sleep 10) v]"], simp add: nat_add_distrib)
  qed auto
  let ?u = "after_call K (Rq_open dma_device O_WRONLY) (say (Stdout ''setting latency to %d.%.6d seconds''
      [PI (cdiv (atoi arg) 1000000), PI (cmod (atoi arg) 1000000)]) w)"
  let ?fd = "reply K (Rq_open dma_device O_WRONLY) w"
  let ?n = "reply K (Rq_write (r_ret ?fd) (le32 (word_of_int (atoi arg)))) ?u"
  consider "r_ret ?fd < 0" | "0 \<le> r_ret ?fd" "r_ret ?n \<noteq> 4" | "0 \<le> r_ret ?fd" "r_ret ?n = 4" by linarith
  then show ?thesis
  proof cases
    case 1
    then show ?thesis
      by (simp add: dma_main_def Let_def wp_simps del: ret_run bnd_gets)
  next
    case 2
    then show ?thesis
      by (simp add: dma_main_def Let_def wp_simps del: ret_run bnd_gets)
  next
    case 3
    then show ?thesis
      by (simp add: dma_main_def Let_def wp_simps del: ret_run bnd_gets)
         (rule wp_conseq [OF loop], intro exI [of _ ?fd] exI [of _ ?n] conjI, auto)
  qed
qed

text \<open>The test program ends well whether or not the kernel knows the option.\<close>

lemma qdisc_main_result:
  "wp (qdisc_main K) (\<lambda>r _. r = 0) (\<lambda>c _. c = 1 \<or> c = EXIT_FAIL_SOCKOPT) w"
  by (simp add: qdisc_main_def pf_tx_socket_def set_sock_qdisc_bypass_def Setsockopt_def wrapper_error_def wp_simps
      del: ret_run bnd_gets)

text \<open>Without an option that asks for help the program is still running after any number of rounds.\<close>

lemma burn_main_result:
  "fst (burn_main argv0 rounds opts w)
    = Done (if \<exists>x \<in> set opts. opt_is x (CHR ''h'') \<or> opt_is x (CHR ''?'') then Some EXIT_FAIL_OPTION else None)"
proof (induction argv0 rounds opts rule: burn_main.induct)
  case (1 argv0 rounds)
  have "fst (burn_cpu rounds w) = Done None" by (induction rounds) simp_all
  then show ?case by simp
next
  case (2 argv0 rounds x xs)
  have "fst (bnd (burn_usage argv0) (\<lambda>c. ret (Some c)) w) = Done (Some EXIT_FAIL_OPTION)"
    by (simp add: burn_usage_def burn_long_options_def printf_def bnd_assoc)
  with 2 show ?case by simp
qed

end
