(* ===== verification/Pcap.thy ===== *)
theory Pcap
  imports Common
begin

text \<open>
  The programs that use libpcap: \<open>src/src/pcap_timeread.c\<close>, \<open>src/src/pcap_read.c\<close>, \<open>src/src/pcap_dump.c\<close> and
  \<open>src/src/pcap_write_sample.c\<close>.  The library is a parameter: a function that answers requests and
  threads a state of its own.  \<open>pcap_loop\<close> answers with the headers of the packets it has for the program's
  callback and with its result; the callback is then run on each of them in order.  The property says
  how \<open>pcap_timeread\<close> groups the packets.
\<close>

section \<open>The library\<close>

record pcap_pkthdr =
  ts_sec :: int
  ts_usec :: int
  caplen :: u32
  hlen :: u32

datatype preq =
  P_open_offline string
| P_open_live string int int int
| P_open_dead int int
| P_dump_open int string
| P_loop int int
| P_loop_dump int int int
| P_stats int
| P_dump int pcap_pkthdr bytes
| P_dump_close int
| P_close int

record pres =
  p_ret :: int
  p_pkts :: "pcap_pkthdr list"
  ps_recv :: u32
  ps_drop :: u32
  ps_ifdrop :: u32
  p_errbuf :: string

type_synonym 'p pcap = "preq \<Rightarrow> 'p \<Rightarrow> pres \<times> 'p"

record ('k, 'p) pcap_world = "'k world" +
  pcap_st :: 'p

type_synonym ('k, 'p, 'm, 'a) pprog = "(('k, 'p, 'm) pcap_world_scheme, 'a) prog"

definition pcall :: "'p pcap \<Rightarrow> preq \<Rightarrow> ('k, 'p, 'm, pres) pprog" where
  "pcall P rq = (\<lambda>w. let (r, s) = P rq (pcap_st w) in (Done r, w\<lparr>pcap_st := s\<rparr>))"

definition pcap_error :: "string \<Rightarrow> string \<Rightarrow> ('k, 'm, 'a) cprog" where
  "pcap_error f err = bnd (eprintf ''Error from %s(): %s'' [PS f, PS err]) (\<lambda>_. exit_with 1)"

text \<open>The callback on each packet.\<close>

fun each_packet :: "(pcap_pkthdr \<Rightarrow> ('s, unit) prog) \<Rightarrow> pcap_pkthdr list \<Rightarrow> ('s, unit) prog" where
  "each_packet f [] = ret ()"
| "each_packet f (h # hs) = bnd (f h) (\<lambda>_. each_packet f hs)"

section \<open>pcap_read.c\<close>

definition read_pkt_handler :: "pcap_pkthdr \<Rightarrow> ('k, 'm, unit) cprog" where
  "read_pkt_handler h = printf ''%ld:%ld (%ld)'' [PI (ts_sec h), PI (ts_usec h), PI (uint (hlen h))]"

definition print_pcap_stats :: "'p pcap \<Rightarrow> int \<Rightarrow> ('k, 'p, 'm, unit) pprog" where
  "print_pcap_stats P pcap =
     bnd (pcall P (P_stats pcap)) (\<lambda>st.
     if p_ret st \<noteq> 0 then pcap_error ''pcap_stats'' (p_errbuf st)
     else
     bnd (printf ''Statistik from pcap'' []) (\<lambda>_.
     bnd (printf '' packets received  : %d'' [PI (sint (ps_recv st))]) (\<lambda>_.
     bnd (printf '' packets dropped   : %d'' [PI (sint (ps_drop st))]) (\<lambda>_.
     printf '' drops by interface: %d'' [PI (sint (ps_ifdrop st))]))))"

definition read_main :: "'p pcap \<Rightarrow> string \<Rightarrow> string list \<Rightarrow> ('k, 'p, 'm, int) pprog" where
  "read_main P pcap_version args =
     (case args of
        [] \<Rightarrow> bnd (eprintf ''ERROR: Need dumpfile input as argv[1]'' []) (\<lambda>_. exit_with 1)
      | filename # _ \<Rightarrow>
          let packet_count = 10 in
          bnd (printf ''Example usage of libpcap. (version %s)'' [PS pcap_version]) (\<lambda>_.
          bnd (printf ''-------------------------'' []) (\<lambda>_.
          bnd (printf ''READING %d packets with pcap'' [PI packet_count]) (\<lambda>_.
          bnd (printf '' from a pcap dumpfile: %s'' [PS filename]) (\<lambda>_.
          bnd (printf '''' []) (\<lambda>_.
          bnd (pcall P (P_open_offline filename)) (\<lambda>pcap.
          if p_ret pcap = 0 then pcap_error ''pcap_open_offline'' (p_errbuf pcap)
          else
          bnd (pcall P (P_loop (p_ret pcap) packet_count)) (\<lambda>r.
          bnd (each_packet read_pkt_handler (p_pkts r)) (\<lambda>_.
          if p_ret r \<noteq> 0 then pcap_error ''pcap_loop'' (p_errbuf r)
          else
          bnd (print_pcap_stats P (p_ret pcap)) (\<lambda>_.
          bnd (pcall P (P_close (p_ret pcap))) (\<lambda>_.
          ret 0)))))))))))"

section \<open>pcap_dump.c\<close>

definition dump_main :: "'p pcap \<Rightarrow> string \<Rightarrow> ('k, 'p, 'm, int) pprog" where
  "dump_main P pcap_version =
     (let filename = ''/tmp/dumpfile.pcap''; packet_count = 10000; device = ''eth0'';
          snaplen = 2000; promisc = 0; timeout = 1000
      in
      bnd (printf ''Example usage of libpcap. (version %s)'' [PS pcap_version]) (\<lambda>_.
      bnd (printf ''-------------------------'' []) (\<lambda>_.
      bnd (printf ''Collection %d packets with pcap'' [PI packet_count]) (\<lambda>_.
      bnd (printf '' and writing a pcap dumpfile: %s'' [PS filename]) (\<lambda>_.
      bnd (printf '''' []) (\<lambda>_.
      bnd (pcall P (P_open_live device snaplen promisc timeout)) (\<lambda>pcap.
      if p_ret pcap = 0 then pcap_error ''pcap_open_live'' (p_errbuf pcap)
      else
      bnd (pcall P (P_dump_open (p_ret pcap) filename)) (\<lambda>pcapfile.
      if p_ret pcapfile = 0 then pcap_error ''pcap_dump_open'' (p_errbuf pcapfile)
      else
      bnd (pcall P (P_loop_dump (p_ret pcap) packet_count (p_ret pcapfile))) (\<lambda>r.
      if p_ret r \<noteq> 0 then pcap_error ''pcap_loop'' (p_errbuf r)
      else
      bnd (print_pcap_stats P (p_ret pcap)) (\<lambda>_.
      bnd (pcall P (P_dump_close (p_ret pcapfile))) (\<lambda>_.
      bnd (pcall P (P_close (p_ret pcap))) (\<lambda>_.
      ret 0))))))))))))"

section \<open>pcap_write_sample.c\<close>

definition pkt1 :: bytes where
  "pkt1 =
    [0x00, 0x11, 0x22, 0x33, 0x44, 0x55, 0x00, 0x00,
     0x00, 0x00, 0x00, 0x00, 0x08, 0x00, 0x45, 0x00,
     0x00, 0x44, 0x55, 0xb1, 0x00, 0x00, 0x40, 0x84,
     0x26, 0x83, 0x7f, 0x00, 0x00, 0x01, 0x7f, 0x00,
     0x00, 0x01, 0x00, 0x01, 0x1f, 0x90, 0x00, 0x00,
     0x00, 0x00, 0x68, 0xe5, 0x88, 0x1b, 0x01, 0x00,
     0x00, 0x24, 0x00, 0x00, 0x00, 0x00, 0x00, 0x0f,
     0xa0, 0x00, 0x00, 0x04, 0xff, 0xff, 0x00, 0x00,
     0x16, 0x2e, 0x80, 0x00, 0x00, 0x04, 0xc0, 0x00,
     0x00, 0x04, 0x00, 0x0c, 0x00, 0x06, 0x00, 0x05,
     0x00, 0x00]"

text \<open>The two lengths of the header are set; its time stamp is what lies on the stack.\<close>

definition sample_main :: "'p pcap \<Rightarrow> pcap_pkthdr \<Rightarrow> ('k, 'p, 'm, int) pprog" where
  "sample_main P stack =
     (let DLT_EN10MB = 1 in
      bnd (pcall P (P_open_dead DLT_EN10MB (2 ^ 16))) (\<lambda>handle.
      bnd (pcall P (P_dump_open (p_ret handle) ''pcap_write_sample.pcap'')) (\<lambda>dumper.
      let pcap_hdr = stack\<lparr>caplen := of_nat (length pkt1), hlen := of_nat (length pkt1)\<rparr> in
      bnd (pcall P (P_dump (p_ret dumper) pcap_hdr pkt1)) (\<lambda>_.
      bnd (pcall P (P_dump_close (p_ret dumper))) (\<lambda>_.
      ret 0)))))"

section \<open>pcap_timeread.c\<close>

definition RESOLUTION_DEFAULT :: int where [c_consts]: "RESOLUTION_DEFAULT = 300"

text \<open>The static variables.\<close>

record ('k, 'p) tr_world = "('k, 'p) pcap_world" +
  resolution :: int
  tr_cnt :: int
  tr_size :: int
  tr_prev_sec :: int
  tr_prev_usec :: int
  tr_thresh :: u32

type_synonym ('k, 'p, 'm, 'a) trprog = "(('k, 'p, 'm) tr_world_scheme, 'a) prog"

definition pkt_handler :: "pcap_pkthdr \<Rightarrow> ('k, 'p, 'm, unit) trprog" where
  "pkt_handler h =
     bnd (gets (\<lambda>w. (resolution w, tr_cnt w, tr_size w, tr_thresh w))) (\<lambda>(res, cnt0, size0, thresh).
     bnd (chk_i32 (cnt0 + 1)) (\<lambda>cnt.
     let size = sint (word_of_int size0 + hlen h :: u32) in
     if res = 0 then ub Div_by_zero
     else
     bnd (chk_i64 (cdiv (ts_usec h) res)) (\<lambda>q.
     bnd (if uint thresh = q then
            bnd (printf ''+'' []) (\<lambda>_.
            modify (\<lambda>w. w\<lparr>tr_cnt := cnt, tr_size := size\<rparr>))
          else
            bnd (printf ''cnt[%d] sz:[%d] %ld:%ld (len:%ld) ''
                   [PI cnt, PI size, PI (ts_sec h), PI (ts_usec h), PI (uint (hlen h))]) (\<lambda>_.
            modify (\<lambda>w. w\<lparr>tr_cnt := 0, tr_size := 0\<rparr>))) (\<lambda>_.
     modify (\<lambda>w. w\<lparr>tr_prev_sec := ts_sec h, tr_prev_usec := ts_usec h, tr_thresh := word_of_int q\<rparr>)))))"

definition resolution_ms :: "int \<Rightarrow> double" where
  "resolution_ms res = ddiv (Fin (of_int res)) (Fin 1000)"

definition timeread_main :: "'p pcap \<Rightarrow> string \<Rightarrow> string list \<Rightarrow> ('k, 'p, 'm, int) trprog" where
  "timeread_main P pcap_version args =
     (case args of
        [] \<Rightarrow> bnd (eprintf ''ERROR: Need dumpfile input as argv[1]'' []) (\<lambda>_. exit_with 1)
      | filename # argv \<Rightarrow>
          let packet_count = 10000 in
          bnd (case argv of
                 [] \<Rightarrow> ret ()
               | r # _ \<Rightarrow> modify (\<lambda>w. w\<lparr>resolution := (if atoi r = 0 then RESOLUTION_DEFAULT else atoi r)\<rparr>)) (\<lambda>_.
          bnd (gets resolution) (\<lambda>res.
          bnd (printf ''Number of packets within X ms (libpcap version %s)'' [PS pcap_version]) (\<lambda>_.
          bnd (printf ''-------------------------'' []) (\<lambda>_.
          bnd (printf ''READING %d packets with pcap'' [PI packet_count]) (\<lambda>_.
          bnd (printf '' from a pcap dumpfile: %s'' [PS filename]) (\<lambda>_.
          bnd (printf ''Resolution: %3.3f ms'' [PD (resolution_ms res)]) (\<lambda>_.
          bnd (printf '''' []) (\<lambda>_.
          bnd (pcall P (P_open_offline filename)) (\<lambda>pcap.
          if p_ret pcap = 0 then pcap_error ''pcap_open_offline'' (p_errbuf pcap)
          else
          bnd (pcall P (P_loop (p_ret pcap) packet_count)) (\<lambda>r.
          bnd (each_packet pkt_handler (p_pkts r)) (\<lambda>_.
          if p_ret r \<noteq> 0 then pcap_error ''pcap_loop'' (p_errbuf r)
          else
          bnd (printf '''' []) (\<lambda>_.
          bnd (gets resolution) (\<lambda>res.
          bnd (printf ''Packes within resolution: %1.3f ms'' [PD (resolution_ms res)]) (\<lambda>_.
          bnd (pcall P (P_close (p_ret pcap))) (\<lambda>_.
          ret 0))))))))))))))))"

section \<open>The windows of a capture\<close>

text \<open>
  A packet's window is its microseconds over the resolution.  The packets are split behind every packet
  whose window is not that of the one before it; what is left at the end is the rest.
\<close>

definition window :: "int \<Rightarrow> pcap_pkthdr \<Rightarrow> int" where
  "window res h = ts_usec h div res"

fun split_windows :: "int \<Rightarrow> int \<Rightarrow> pcap_pkthdr list \<Rightarrow> pcap_pkthdr list \<Rightarrow> pcap_pkthdr list list \<times> pcap_pkthdr list" where
  "split_windows res t g [] = ([], g)"
| "split_windows res t g (h # hs) =
     (if window res h = t then split_windows res t (g @ [h]) hs
      else let (gs, rest) = split_windows res (window res h) [] hs in ((g @ [h]) # gs, rest))"

definition group_size :: "pcap_pkthdr list \<Rightarrow> u32" where
  "group_size g = sum_list (map hlen g)"

text \<open>What is printed for a group: a plus for each packet but the last, and the line of the last.\<close>

definition group_line :: "pcap_pkthdr list \<Rightarrow> outmsg" where
  "group_line g = Stdout ''cnt[%d] sz:[%d] %ld:%ld (len:%ld) ''
     [PI (int (length g)), PI (sint (group_size g)), PI (ts_sec (last g)), PI (ts_usec (last g)), PI (uint (hlen (last g)))]"

definition pluses :: "nat \<Rightarrow> outmsg list" where
  "pluses n = replicate n (Stdout ''+'' [])"

definition tr_output :: "pcap_pkthdr list list \<times> pcap_pkthdr list \<Rightarrow> outmsg list" where
  "tr_output x = concat (map (\<lambda>g. pluses (length g - 1) @ [group_line g]) (fst x)) @ pluses (length (snd x))"

lemma split_windows_concat: "concat (fst (split_windows res t g hs)) @ snd (split_windows res t g hs) = g @ hs"
  by (induction res t g hs rule: split_windows.induct) (auto split: prod.splits)

text \<open>The statics with the packets \<open>g\<close> counted since the last line, the last of them in the window \<open>t\<close>.\<close>

definition tr_counted :: "int \<Rightarrow> int \<Rightarrow> pcap_pkthdr list \<Rightarrow> ('k, 'p, 'm) tr_world_scheme \<Rightarrow> bool" where
  "tr_counted res t g w \<longleftrightarrow> resolution w = res \<and> tr_cnt w = int (length g) \<and> tr_size w = sint (group_size g)
     \<and> uint (tr_thresh w) = t"

definition stamped :: "pcap_pkthdr \<Rightarrow> bool" where
  "stamped h \<longleftrightarrow> 0 \<le> ts_usec h \<and> ts_usec h < 1000000"

lemma wp_pkt_handler:
  fixes w :: "('k, 'p, 'm) tr_world_scheme"
  assumes res: "0 < res" and h: "stamped h" and w: "tr_counted res t g w" "int (length g) < INT_MAX"
  shows "wp (pkt_handler h)
    (\<lambda>_ v. (if window res h = t then tr_counted res t (g @ [h]) v \<and> out v = out w @ [Stdout ''+'' []]
       else tr_counted res (window res h) [] v \<and> out v = out w @ [group_line (g @ [h])])) E w"
proof -
  have q: "cdiv (ts_usec h) res = window res h" "0 \<le> window res h" "window res h < 1000000"
    using res h zdiv_mono2 [of "ts_usec h" 1 res] by (auto simp: cdiv_nonneg window_def stamped_def pos_imp_zdiv_nonneg_iff)
  then have "is_i64 (window res h)" "uint (word_of_int (window res h) :: u32) = window res h"
    by (simp_all add: is_i64_def uint_word_of_int)
  moreover have "is_i32 (int (length g) + 1)" using w(2) by (simp add: is_i32_def INT_MIN_def)
  ultimately show ?thesis
    using w(1) res q(1)
    by (auto simp: pkt_handler_def Let_def tr_counted_def group_size_def group_line_def wp_simps say_def add.commute
        simp del: ret_run bnd_gets bnd_modify)
qed

lemma pluses_Suc: "pluses (Suc n) = pluses n @ [Stdout ''+'' []]"
  by (simp add: pluses_def replicate_append_same)

lemma tr_output_Cons: "tr_output ((g @ [h]) # gs, rest) = pluses (length g) @ group_line (g @ [h]) # tr_output (gs, rest)"
  by (simp add: tr_output_def)

lemma wp_each_packet:
  fixes w :: "('k, 'p, 'm) tr_world_scheme"
  assumes "0 < res" "\<forall>h \<in> set hs. stamped h" "tr_counted res t g w" "int (length g) + int (length hs) \<le> INT_MAX"
  shows "wp (each_packet pkt_handler hs)
    (\<lambda>_ v. resolution v = res
      \<and> (\<exists>os. out v = out w @ os \<and> pluses (length g) @ os = tr_output (split_windows res t g hs))) E w"
  using assms
proof (induction res t g hs arbitrary: w rule: split_windows.induct)
  case (1 res t g)
  then show ?case by (simp add: wp_simps tr_counted_def tr_output_def del: ret_run)
next
  case (2 res t g h hs)
  have len: "int (length g) < INT_MAX" using "2.prems"(4) by simp
  have "wp (pkt_handler h) (\<lambda>_. wp (each_packet pkt_handler hs)
    (\<lambda>_ v. resolution v = res
      \<and> (\<exists>os. out v = out w @ os \<and> pluses (length g) @ os = tr_output (split_windows res t g (h # hs)))) E) E w"
  proof (rule wp_conseq [OF wp_pkt_handler [OF "2.prems"(1) _ "2.prems"(3) len]])
    show "stamped h" using "2.prems"(2) by simp
  next
    fix x and v :: "('k, 'p, 'm) tr_world_scheme"
    assume v: "(if window res h = t then tr_counted res t (g @ [h]) v \<and> out v = out w @ [Stdout ''+'' []]
       else tr_counted res (window res h) [] v \<and> out v = out w @ [group_line (g @ [h])])"
    show "wp (each_packet pkt_handler hs)
      (\<lambda>_ v. resolution v = res
        \<and> (\<exists>os. out v = out w @ os \<and> pluses (length g) @ os = tr_output (split_windows res t g (h # hs)))) E v"
    proof (cases "window res h = t")
      case True
      show ?thesis
        by (rule wp_conseq [OF "2.IH"(1) [OF True, of v]]) (use True v "2.prems" in \<open>auto simp: pluses_Suc\<close>)
    next
      case False
      show ?thesis
        by (rule wp_conseq [OF "2.IH"(2) [OF False, of v]])
           (use False v "2.prems" in \<open>auto simp: tr_output_Cons pluses_def [of 0] split: prod.split\<close>)
    qed
  qed
  then show ?case by (simp add: wp_simps)
qed

definition after_pcall :: "'p pcap \<Rightarrow> preq \<Rightarrow> ('k, 'p, 'm) pcap_world_scheme \<Rightarrow> ('k, 'p, 'm) pcap_world_scheme" where
  "after_pcall P rq w = w\<lparr>pcap_st := snd (P rq (pcap_st w))\<rparr>"

lemma wp_pcall [wp_simps]: "wp (pcall P rq) Q E = (\<lambda>w. Q (fst (P rq (pcap_st w))) (after_pcall P rq w))"
  by (simp add: wp_def pcall_def after_pcall_def fun_eq_iff split: prod.split)

lemma wp_bnd_Done: "m w = (Done x, v) \<Longrightarrow> wp (bnd m f) Q E w = wp (f x) Q E v"
  by (simp add: wp_def bnd_def)

lemma after_pcall_fields [simp]:
  "out (after_pcall P rq w) = out w" "pcap_st (after_pcall P rq w) = snd (P rq (pcap_st w))" "pcap_st (say m w) = pcap_st w"
  by (simp_all add: after_pcall_def say_def)

lemma tr_fields [simp]:
  "resolution (say m v) = resolution v" "resolution (after_pcall P rq v) = resolution v"
  "tr_counted res t g (say m v) = tr_counted res t g v" "tr_counted res t g (after_pcall P rq v) = tr_counted res t g v"
  by (simp_all add: tr_counted_def say_def after_pcall_def)

section \<open>The property\<close>

text \<open>What the manual of \<open>pcap_loop\<close> promises: no more packets than asked for, with normal time stamps.\<close>

definition sane_pcap :: "'p pcap \<Rightarrow> bool" where
  "sane_pcap P \<longleftrightarrow> (\<forall>pcap n s. let ps = p_pkts (fst (P (P_loop pcap n) s)) in length ps \<le> nat n \<and> (\<forall>h \<in> set ps. stamped h))"

definition tr_fresh :: "('k, 'p, 'm) tr_world_scheme \<Rightarrow> bool" where
  "tr_fresh w \<longleftrightarrow> resolution w = RESOLUTION_DEFAULT \<and> tr_cnt w = 0 \<and> tr_size w = 0 \<and> tr_thresh w = 0"

definition chosen_resolution :: "string list \<Rightarrow> int" where
  "chosen_resolution argv = (case argv of [] \<Rightarrow> RESOLUTION_DEFAULT | r # _ \<Rightarrow> if atoi r = 0 then RESOLUTION_DEFAULT else atoi r)"

text \<open>
  C37.  How \<open>pcap_timeread\<close> groups a capture.  With a file given, and a resolution that is not negative, the
  program has no undefined behaviour; it exits with 1 where the file cannot be opened or read.  Otherwise
  it returns 0, and between its head and its last lines it printed exactly this of the packets the library
  handed it: they are split behind each packet that is not in the window of the one before it; of each
  group but the rest all packets but the last are a plus, and the last is the line with the number and
  the bytes of the packets of the group; the packets of the rest are a plus each and are never reported.
  So each packet is in one group or in the rest, and the packet that opens a window is counted with the
  window before.
\<close>

theorem timeread_groups:
  fixes w :: "('k, 'p, 'm) tr_world_scheme"
  assumes P: "sane_pcap P" and w: "tr_fresh w" and res: "0 < chosen_resolution argv"
    and run: "timeread_main P ver (file # argv) w = (x, w')"
  shows "let opened = fst (P (P_open_offline file) (pcap_st w));
      looped = fst (P (P_loop (p_ret opened) 10000) (snd (P (P_open_offline file) (pcap_st w))));
      groups = split_windows (chosen_resolution argv) 0 [] (p_pkts looped)
    in if p_ret opened = 0 \<or> p_ret looped \<noteq> 0 then x = Exit 1
       else x = Done 0 \<and> concat (fst groups) @ snd groups = p_pkts looped
         \<and> (\<exists>hd tl. length hd = 6 \<and> length tl = 2 \<and> out w' = out w @ hd @ tr_output groups @ tl)"
proof -
  let ?res = "chosen_resolution argv"
  define opened looped where "opened = fst (P (P_open_offline file) (pcap_st w))"
    and "looped = fst (P (P_loop (p_ret opened) 10000) (snd (P (P_open_offline file) (pcap_st w))))"
  define D where "D v \<longleftrightarrow> (\<exists>hd tl. length hd = 6 \<and> length tl = 2
      \<and> out v = out w @ hd @ tr_output (split_windows ?res 0 [] (p_pkts looped)) @ tl)" for v :: "('k, 'p, 'm) tr_world_scheme"
  have D: "D v" if "out v = out w @ a # b # c # d # e # f # tr_output (split_windows ?res 0 [] (p_pkts looped)) @ [g, h]"
    for v a b c d e f g h
    unfolding D_def using that by (intro exI [of _ "[a, b, c, d, e, f]"] exI [of _ "[g, h]"]) simp
  define w1 where "w1 = w\<lparr>resolution := ?res\<rparr>"
  have w1: "tr_counted ?res 0 [] w1" "out w1 = out w" "resolution w1 = ?res"
    using w by (simp_all add: w1_def tr_counted_def tr_fresh_def group_size_def)
  have st: "pcap_st w1 = pcap_st w" by (simp add: w1_def)
  have arg: "(case argv of [] \<Rightarrow> ret ()
      | r # _ \<Rightarrow> modify (\<lambda>w. w\<lparr>resolution := (if atoi r = 0 then RESOLUTION_DEFAULT else atoi r)\<rparr>)) w = (Done (), w1)"
    using w by (cases argv) (simp_all add: w1_def chosen_resolution_def tr_fresh_def)
  have packets: "wp (each_packet pkt_handler (p_pkts looped))
     (\<lambda>_ v'. resolution v' = ?res \<and> out v' = out v @ tr_output (split_windows ?res 0 [] (p_pkts looped))) E v"
    if "tr_counted ?res 0 [] v" for E and v :: "('k, 'p, 'm) tr_world_scheme"
  proof (rule wp_conseq [OF wp_each_packet [OF res _ that]])
    have "length (p_pkts looped) \<le> 10000" "\<forall>h \<in> set (p_pkts looped). stamped h"
      using P unfolding looped_def sane_pcap_def Let_def by (metis nat_numeral)+
    then show "\<forall>h \<in> set (p_pkts looped). stamped h"
      "int (length ([] :: pcap_pkthdr list)) + int (length (p_pkts looped)) \<le> INT_MAX"
      by (simp_all add: INT_MAX_def)
  qed (simp_all add: pluses_def)
  have "wp (timeread_main P ver (file # argv)) (\<lambda>r v. r = 0 \<and> p_ret opened \<noteq> 0 \<and> p_ret looped = 0 \<and> D v)
      (\<lambda>c _. c = 1 \<and> (p_ret opened = 0 \<or> p_ret looped \<noteq> 0)) w"
    unfolding timeread_main_def list.case Let_def
    by (subst wp_bnd_Done, rule arg)
       (auto simp: wp_simps pcap_error_def w1 st opened_def [symmetric] looped_def [symmetric] simp del: ret_run bnd_gets
        intro!: wp_conseq [OF packets] D)
  from wp_result [OF this run] split_windows_concat [of ?res 0 "[]"] show ?thesis
    unfolding Let_def opened_def [symmetric] looped_def [symmetric] D_def by auto
qed

text \<open>A capture of four packets, the third of them in a new window.\<close>

definition four_packets :: "pcap_pkthdr list" where
  "four_packets = map (\<lambda>us. \<lparr>ts_sec = 7, ts_usec = us, caplen = 60, hlen = 60\<rparr>) [0, 200, 700, 701]"

definition small_file :: "unit pcap" where
  "small_file rq s = (case rq of
     P_loop pcap n \<Rightarrow> (\<lparr>p_ret = 0, p_pkts = (if 4 \<le> n then four_packets else []), ps_recv = 0, ps_drop = 0, ps_ifdrop = 0, p_errbuf = []\<rparr>, s)
   | _ \<Rightarrow> (\<lparr>p_ret = 1, p_pkts = [], ps_recv = 0, ps_drop = 0, ps_ifdrop = 0, p_errbuf = []\<rparr>, s))"

definition tr_boot :: "(unit, unit) tr_world" where
  "tr_boot = \<lparr>kern = (), errno = 0, verbose = 0, heap = Map.empty, next_blk = 0, trace = [], out = [], pcap_st = (),
     resolution = RESOLUTION_DEFAULT, tr_cnt = 0, tr_size = 0, tr_prev_sec = 0, tr_prev_usec = 0, tr_thresh = 0\<rparr>"

theorem timeread_groups_witness:
  "\<exists>w' hd tl. timeread_main small_file ''1.10'' [''x.pcap''] tr_boot = (Done 0, w') \<and> length hd = 6 \<and> length tl = 2
    \<and> out w' = hd @ tr_output (split_windows 300 0 [] four_packets) @ tl
    \<and> map length (fst (split_windows 300 0 [] four_packets)) = [3]"
proof -
  obtain x w' where run: "timeread_main small_file ''1.10'' [''x.pcap''] tr_boot = (x, w')" by fastforce
  have P: "sane_pcap small_file"
    by (auto simp: sane_pcap_def small_file_def four_packets_def stamped_def Let_def)
  have w: "tr_fresh tr_boot" by (simp add: tr_fresh_def tr_boot_def)
  have res: "chosen_resolution [] = 300" by (simp add: chosen_resolution_def RESOLUTION_DEFAULT_def)
  show ?thesis
    using timeread_groups [OF P w _ run] run unfolding res
    by (auto simp: small_file_def tr_boot_def Let_def) (auto simp: four_packets_def window_def Let_def)
qed

end
