(* ===== verification/Spec2Isabelle.thy ===== *)
theory Spec2Isabelle
  imports EndToEnd UdpFlood_Main UdpPacer_Props TcpSinkEpoll TcpSinkClient UdpExample02 UdpClientEcho
    ArrayCompare CallOverhead MpRq GetNicDriver UdpSnd Ipv6Example SmallTools Pcap
begin

text \<open>
  A verification development for the C tools of the repository: programs that send, receive, echo
  and pace network traffic, that measure what this costs, and a few tools beside them.

  \<^bold>\<open>The programs and how they fit together.\<close>  \<open>src/src/common.c\<close> has the record every benchmark fills in
  (a clock, a cycle counter, the statistics), \<open>src/src/common_socket.c\<close> the addresses, the socket calls that end
  the program when they fail, and the allocators.  \<open>udp_flood\<close> sends packets with one of five system calls and
  may fill them with the header of the kernel's packet generator; \<open>udp_sink\<close> receives with one of five and
  may check these headers.  \<open>udp_pacer\<close> sends on the beat of a timer thread.  \<open>tcp_sink\<close> and
  \<open>tcp_sink_epoll\<close> accept the connections \<open>tcp_sink_client\<close> opens; \<open>udp_echo\<close> and \<open>udp_example02\<close> answer
  \<open>udp_client_echo\<close>.  \<open>mp_rq\<close> receives through an RDMA ring.  The others stand alone.

  \<^bold>\<open>The model.\<close>  A C function is a HOL function in the outcome monad of \<open>Prelude\<close>: it returns a value, exits with a
  status, or has undefined behaviour of a named kind (a signed overflow, an access outside a live block, a
  division by zero, a use after \<open>free\<close>).  The state is a record of the process (\<open>Kernel\<close>): a heap of
  blocks of bytes, \<open>errno\<close>, \<open>verbose\<close>, the text printed, and the trace of all system calls with their answers.
  A program with static variables extends the record by them (\<open>sequence\<close> of \<open>fill_buf\<close>, \<open>last_hdr\<close> of
  the check).  The operating system is a parameter, a function from a request and its own state to a
  response and the next state; so are \<open>getopt_long\<close>, whose results \<open>main\<close> gets as a list, libpcap and the verbs
  library.  An \<open>int\<close> is a HOL integer whose operations check the range of 32 bits, unsigned types are words; a
  \<open>double\<close> is a rational or one of the special values, without rounding.  Properties are stated with
  \<open>wp m Q E w\<close>, which says that \<open>m\<close> from \<open>w\<close> has no undefined behaviour and does return with \<open>Q\<close> or exit with \<open>E\<close>,
  or on the result of a run.

  \<^bold>\<open>The theories.\<close>
  \<^item> \<open>Prelude\<close>, \<open>Kernel\<close>, \<open>Traffic\<close>, \<open>Decimal\<close>, \<open>Benchmark\<close>: words and bytes, the monad and its rules, the machine,
    the calls that send and receive, decimal text, the frame of a measurement.
  \<^item> \<open>Common\<close> (\<open>common.c\<close>, \<open>common.h\<close>, \<open>global.h\<close>) and \<open>CommonSocket\<close> (\<open>common_socket.c\<close>).  The locale \<open>header_codec\<close>
    has the theory of a buffer filled with one header over and over; \<open>pgh\<close> is its instance for the
    pktgen header.
  \<^item> \<open>UdpFlood\<close> (\<open>udp_flood.c\<close>); \<open>UdpFlood_Props\<close> has the contract \<open>flood_sender\<close> of a send loop, met by
    \<open>sendto\<close>, \<open>send\<close>, \<open>write\<close> and \<open>sendmsg\<close>; \<open>UdpFlood_Mmsg\<close> the batches of \<open>sendmmsg\<close>; \<open>UdpFlood_Main\<close> the command
    line and the whole run.
  \<^item> \<open>UdpSink\<close> (\<open>udp_sink.c\<close>); \<open>UdpSink_Check\<close> has the check of the headers against a specification
    on the list of them, \<open>UdpSink_Props\<close> the contract \<open>counting_receiver\<close> of a receive loop, met by
    \<open>read\<close>, \<open>recvfrom\<close> and \<open>recv\<close>, \<open>UdpSink_Recvmsg\<close> the loop that receives into buckets and checks.
  \<^item> \<open>UdpPacer\<close> (\<open>udp_pacer.c\<close>) with the relation \<open>pstep\<close> of the two threads and the signal handler, and
    \<open>UdpPacer_Props\<close> with its reachable states.
  \<^item> \<open>TcpSink\<close>, \<open>TcpSinkEpoll\<close>, \<open>TcpSinkClient\<close> (the files of these names under \<open>src/src\<close>).
  \<^item> \<open>UdpEcho\<close> (\<open>udp_echo.c\<close>) with the contract \<open>echo_report\<close> of the report the echo loop makes of a packet, which
    \<open>UdpExample02\<close> (\<open>udp_example02.c\<close>) meets too; \<open>UdpClientEcho\<close> (\<open>udp_client_echo.c\<close>) and its
    conversation with the server.
  \<^item> \<open>MpRq\<close> (\<open>src/rdma/mp_rq.c\<close>), \<open>GetNicDriver\<close>, \<open>UdpSnd\<close>, \<open>Ipv6Example\<close>, \<open>ArrayCompare\<close>, \<open>CallOverhead\<close>
    (\<open>syscall_overhead.c\<close>, \<open>overhead_cmpxchg.c\<close>, \<open>asm_x86.h\<close>), \<open>SmallTools\<close> (\<open>cpu_dma_latency.c\<close>, \<open>qdisc_bypass_test.c\<close>,
    \<open>burn_cpu.c\<close>, \<open>compiler_test01.c\<close>) and \<open>Pcap\<close> (the four \<open>pcap_*.c\<close>).
  \<^item> \<open>EndToEnd\<close> and this theory: the sender's stream of packets as the receiver checks it.

  \<^bold>\<open>What is shown.\<close>  Of the sender: what is in each packet, how many there are and what is reported, for each call and for the
  whole program, and that its command line makes parameters in range.  Of the receiver: that the check
  stays in its buckets, ends, and finds exactly the packets that are not clean, that the loops count
  what came, and that what the sender sent passes.  Of the pacer: no interleaving of the threads
  has undefined behaviour, deadlines do not drift, the program can always end.  Of the servers and
  clients: the order and the pairing of their calls, and the codes they end with.  Of \<open>mp_rq\<close>: that every
  descriptor lies in the registered memory.  Of the benchmarks: that nothing but the measured code falls
  between two readings of the clock, and where they read past an array.

  \<^bold>\<open>Bounds and fuel.\<close>  The walk over the headers of a packet may run for ever on arbitrary vectors; \<open>check_pkt\<close> gives
  it one step more than the packet has bytes, and \<open>check_pkt_refines\<close> shows that this is enough.  The loop of
  \<open>recvmmsg\<close> ends only when enough packets came, so \<open>sink_with_recvMmsg\<close> takes the number of calls as fuel.  The
  programs with an endless loop (\<open>mp_main\<close>, \<open>ex6_main\<close>, \<open>dma_main\<close>, \<open>burn_main\<close>) take the number of
  rounds, and what is shown of them holds for every number.  All other loops are total functions.

  \<^bold>\<open>What is assumed of the environment\<close> is named where it is needed: \<open>keeps_to_buffers\<close> (a receiving call writes
  at most what the vector holds), \<open>accepts_at_most\<close> (\<open>sendmmsg\<close> takes no more messages than it was given),
  \<open>gives_arguments\<close> (\<open>getopt_long\<close>), \<open>delivers\<close>, \<open>names_addresses\<close> and \<open>recvfrom_fits\<close> (what a receiving call hands back),
  \<open>sane_clock\<close>, \<open>rand_nonneg\<close>, \<open>lists_devices\<close> (the verbs library), \<open>sane_pcap\<close>.  Each has a witness on a concrete
  kernel or library.  Without such a name a statement holds for every kernel.

  \<^bold>\<open>Not modelled.\<close>  The rounding of floating point numbers and the layout of printed numbers (the text printed is
  kept as the format and its arguments); what an optimising compiler makes of the benchmarks' loops; data
  races below the granularity of the steps of \<open>pstep\<close>; the contents of kernel structures the programs only pass
  on.  The scripts of the other directories (Perl, shell, Python, trafgen, SystemTap) set up or read the
  kernel by external tools and have no C code.  No property is stated yet of \<open>sink_with_recvMmsg\<close> and \<open>sink_main\<close>,
  which are modelled.
\<close>

section \<open>The property\<close>

text \<open>
  C1.  What the sender sends, the receiver accepts.  Let a test of \<open>udp_flood --pktgen-header\<close>
  with \<open>sendto\<close>, \<open>write\<close> or \<open>sendmsg\<close> have run to its end, with packets of at least one header and
  a clock that did not go back, and let a freshly started \<open>udp_sink\<close> receive with \<open>recvmsg\<close>, at any
  check level and with any number of buckets, on a kernel that delivers a prefix of what was sent,
  in order and unchanged.  Then the receiver's run ends without undefined behaviour, it never
  exits with \<open>EXIT_FAIL_RECV\<close>, and all three check counters are zero; also when the 32-bit
  sequence number wraps around.
\<close>

theorem flood_to_sink_clean:
  fixes func :: "('k, 'm) flood_fun"
  assumes flood: "(func, mk) \<in> set header_senders" "flood_pre p w" "0 < fl_count p" "fl_count p \<le> INT_MAX"
      "fl_pktgen_hdr p \<noteq> 0" "16 \<le> fl_msg_sz p" "flood_time_function K fd p func w = (Done rec, w')"
    and clock: "times_in_order (sent_pkts (new_events w w'))"
    and sink: "keeps_to_buffers K'" "sink_pre q v" "try_again r0 = 0" "iov_elems q = int ne" "0 < ne"
      "ne \<le> nat (buf_sz q)" "16 * int ne < 2 ^ 32" "last_hdr v = hdr_zero"
      "ooo q = 0" "bad_magic q = 0" "bad_repeat q = 0"
    and run: "sink_with_recvmsg K' fd' q r0 v = (x, v')"
    and deliver: "rx_pkts (rxs (new_events v v')) = take k (sent_pkts (new_events w w'))"
  shows "(\<exists>res q' r'. x = Done (res, q', r') \<and> ooo q' = 0 \<and> bad_magic q' = 0 \<and> bad_repeat q' = 0)
    \<or> x \<in> {Exit EXIT_FAIL_MEM, Exit EXIT_FAIL_SOCK}"
proof -
  have "wp (flood_time_function K fd p func)
    (\<lambda>r w'. tx_run (sent (mk fd p) True p (sequence w)) (nat (fl_count p)) (txs (new_events w w')))
    (\<lambda>_ _. True) w"
    using flood(1,5) fl_sendto.time_function_sends [OF flood(2-4), of K fd]
      fl_write.time_function_sends [OF flood(2-4), of K fd]
      fl_sendmsg.time_function_sends [OF flood(2-4), of K fd]
    by (auto simp: header_senders_def elim!: wp_conseq)
  from wp_Done [OF this flood(7)]
  have tx: "tx_run (sent (mk fd p) True p (sequence w)) (nat (fl_count p)) (txs (new_events w w'))" .
  have mk: "tx_data (mk fd p d) = d" for d using flood(1) by (auto simp: header_senders_def)
  obtain t where t: "sent_pkts (new_events w w')
      = map (\<lambda>i. pgh.fill (fill_hdr (t i) (sequence w + of_nat i)) (nat (fl_msg_sz p))) [0..<nat (fl_count p)]"
    unfolding sent_pkts_def by (rule sent_as_fills [OF tx mk])
  have "16 \<le> nat (fl_msg_sz p)" using flood(6) by simp
  then have ok: "\<not> checks_failed (snd (check_all (hdr_zero, q) (rx_pkts (rxs (new_events v v')))))"
    using stream_accepted [of "nat (fl_msg_sz p)" t "sequence w" "nat (fl_count p)" q k] clock sink(9-11)
    unfolding deliver t by (simp add: checks_failed_def)
  show ?thesis
    using sink_recvmsg_correct [OF sink(1-7), of fd'] ok sink(8)
    by (auto simp: wp_def run rm_exit_def checks_failed_def split: outcome.splits)
       (metis snd_conv new_events_snoc)+
qed

theorem flood_to_sink_clean_witness:
  "\<exists>rec w' x v'. flood_time_function obliging 3 demo_params flood_with_write (flood_boot ()) = (Done rec, w')
    \<and> sink_with_recvmsg demo_link 4 demo_sink time_bench_zero (sink_boot ()) = (x, v')
    \<and> rx_pkts (rxs (new_events (sink_boot ()) v')) = sent_pkts (new_events (flood_boot ()) w')
    \<and> ((\<exists>res q' r'. x = Done (res, q', r') \<and> ooo q' = 0 \<and> bad_magic q' = 0 \<and> bad_repeat q' = 0)
       \<or> x \<in> {Exit EXIT_FAIL_MEM, Exit EXIT_FAIL_SOCK})"
proof -
  let ?d = "hdr_bytes (fill_hdr (TimeSpec 0 0) 0)"
  obtain rec w' where f: "flood_time_function obliging 3 demo_params flood_with_write (flood_boot ()) = (Done rec, w')"
    and s: "sent_pkts (new_events (flood_boot ()) w') = [?d]"
    by (rule wp_cases [OF demo_flood]) blast+
  obtain y v' where r: "sink_with_recvmsg demo_link 4 demo_sink time_bench_zero (sink_boot ()) = (Done y, v')"
    and d: "rx_pkts (rxs (new_events (sink_boot ()) v')) = [?d]"
    by (rule wp_cases [OF demo_recv]) blast+
  have "(flood_with_write, \<lambda>fd p d. Rq_write fd d) \<in> set header_senders" by (simp add: header_senders_def)
  from flood_to_sink_clean [OF this _ _ _ _ _ f _ demo_link_keeps _ _ _ _ _ _ _ _ _ _ r, where ne = 1 and k = 1] s d
  have "(\<exists>res q' r'. Done y = Done (res, q', r') \<and> ooo q' = 0 \<and> bad_magic q' = 0 \<and> bad_repeat q' = 0)
       \<or> Done y \<in> {Exit EXIT_FAIL_MEM, Exit EXIT_FAIL_SOCK}"
    by (simp add: demo_params_def flood_test_params_def flood_init_params_def loopback_def sockaddr_zero_def
        flood_pre_def flood_boot_def wf_heap_def INT_MAX_def demo_times demo_sink_def sink_init_params_def
        sink_pre_def sink_boot_def time_bench_zero_def)
  with f r s d show ?thesis by auto
qed

end
